theory Spec2Isabelle
  imports Main "HOL-Library.Word"
begin

section \<open>JavaScript strings\<close>

text \<open>
  A JavaScript string is a finite sequence of 16-bit code units. String literals of the
  source are ASCII and are written \<open>js ''...''\<close>.
\<close>

type_synonym jstring = "16 word list"

definition js :: "string \<Rightarrow> jstring" where
  "js s = map of_char s"

text \<open>\<open>s.startsWith(p)\<close>.\<close>

fun startsWith :: "jstring \<Rightarrow> jstring \<Rightarrow> bool" where
  "startsWith [] s = True"
| "startsWith (p # ps) [] = False"
| "startsWith (p # ps) (c # cs) = (p = c \<and> startsWith ps cs)"

text \<open>\<open>s.includes(p)\<close>: \<open>p\<close> occurs in \<open>s\<close> as a substring.\<close>

fun includesStr :: "jstring \<Rightarrow> jstring \<Rightarrow> bool" where
  "includesStr p [] = (p = [])"
| "includesStr p (c # cs) = (startsWith p (c # cs) \<or> includesStr p cs)"

text \<open>\<open>s.split(sep)\<close> for a separator of one code unit: the empty string splits into one
  empty piece.\<close>

fun split :: "16 word \<Rightarrow> jstring \<Rightarrow> jstring list" where
  "split sep [] = [[]]"
| "split sep (c # cs) =
     (if c = sep then [] # split sep cs
      else (case split sep cs of
              [] \<Rightarrow> [[c]]
            | seg # segs \<Rightarrow> (c # seg) # segs))"

text \<open>\<open>segs.join(sep)\<close> for a separator of one code unit.\<close>

fun join :: "16 word \<Rightarrow> jstring list \<Rightarrow> jstring" where
  "join sep [] = []"
| "join sep [seg] = seg"
| "join sep (seg # segs) = seg @ sep # join sep segs"

text \<open>
  Matching of an ASCII pattern character under the \<open>i\<close> flag of a regular expression
  without the \<open>u\<close> flag: both sides are canonicalised by upper-casing, and a code unit
  outside ASCII is never mapped into ASCII, so only the two ASCII cases of a letter match.
\<close>

definition lowerAscii :: "16 word \<Rightarrow> 16 word" where
  "lowerAscii c = (if 65 \<le> unat c \<and> unat c \<le> 90 then c + 32 else c)"

fun startsWithCI :: "jstring \<Rightarrow> jstring \<Rightarrow> bool" where
  "startsWithCI [] s = True"
| "startsWithCI (p # ps) [] = False"
| "startsWithCI (p # ps) (c # cs) = (lowerAscii p = lowerAscii c \<and> startsWithCI ps cs)"

fun includesCI :: "jstring \<Rightarrow> jstring \<Rightarrow> bool" where
  "includesCI p [] = (p = [])"
| "includesCI p (c # cs) = (startsWithCI p (c # cs) \<or> includesCI p cs)"

text \<open>The test \<open>/^https?:\/\//i.test(s)\<close>, used on the base URL and on every path.\<close>

definition isAbsoluteUrl :: "jstring \<Rightarrow> bool" where
  "isAbsoluteUrl s \<longleftrightarrow> startsWithCI (js ''http://'') s \<or> startsWithCI (js ''https://'') s"


section \<open>JavaScript values\<close>

text \<open>
  The values the code reads and writes without looking inside: \<open>undefined\<close>, \<open>null\<close>,
  booleans, numbers, strings, arrays and objects. The numbers the code computes with are
  HTTP statuses and lengths, so a number is given by an integer or is NaN. The keys of an
  object are ASCII property names.
\<close>

datatype jvalue =
    VUndefined
  | VNull
  | VBool bool
  | VNaN
  | VNum int
  | VStr jstring
  | VArr "jvalue list"
  | VObj "(string \<times> jvalue) list"

text \<open>Truthiness, as tested by \<open>if (v)\<close>, \<open>v || w\<close> and \<open>v ? a : b\<close>.\<close>

fun truthy :: "jvalue \<Rightarrow> bool" where
  "truthy VUndefined = False"
| "truthy VNull = False"
| "truthy (VBool b) = b"
| "truthy VNaN = False"
| "truthy (VNum n) = (n \<noteq> 0)"
| "truthy (VStr s) = (s \<noteq> [])"
| "truthy (VArr xs) = True"
| "truthy (VObj fs) = True"

text \<open>\<open>v ?? w\<close>.\<close>

fun nullish :: "jvalue \<Rightarrow> jvalue \<Rightarrow> jvalue" where
  "nullish VUndefined w = w"
| "nullish VNull w = w"
| "nullish v w = v"

text \<open>Decimal digits of a natural number.\<close>

fun showNat :: "nat \<Rightarrow> jstring" where
  "showNat n = (if n < 10 then [of_nat (48 + n)] else showNat (n div 10) @ [of_nat (48 + n mod 10)])"

declare showNat.simps [simp del]

text \<open>
  \<open>VNum n\<close> is the Number nearest to the integer \<open>n\<close>. Every integer below \<open>2^53\<close> in
  magnitude is a Number; a larger one is rounded to 53 significant bits, ties to the even
  significand, and from \<open>2^1024\<close> on the result is \<open>Infinity\<close>.
\<close>

fun bitLength :: "nat \<Rightarrow> nat" where
  "bitLength n = (if n = 0 then 0 else Suc (bitLength (n div 2)))"

declare bitLength.simps [simp del]

definition toDouble :: "nat \<Rightarrow> nat" where
  "toDouble n =
     (let e = bitLength n - 53; q = n div 2 ^ e; r = n mod 2 ^ e
      in if 2 * r < 2 ^ e \<or> (2 * r = 2 ^ e \<and> even q) then q * 2 ^ e else (q + 1) * 2 ^ e)"

text \<open>
  \<open>Number::toString\<close> of ECMA-262 writes the digits of the shortest decimal that rounds to
  the Number, the closest to it when there are several. For a Number \<open>x\<close> from \<open>2^53\<close> on,
  with \<open>x = m * 2^e\<close> and \<open>2^52 \<le> m < 2^53\<close>, the integer \<open>v\<close> rounds to \<open>x\<close> when it lies
  within half a step of \<open>x\<close> (the step below a power of two is half the step above it), a
  boundary being included when \<open>m\<close> is even.
\<close>

definition roundsTo :: "nat \<Rightarrow> nat \<Rightarrow> bool" where
  "roundsTo x v =
     (let e = bitLength x - 53; m = x div 2 ^ e;
          below = (if m = 2 ^ 52 then 2 ^ (e - 1) else 2 ^ e);
          above = 2 ^ e
      in (2 * x < 2 * v + below \<or> (2 * x = 2 * v + below \<and> even m))
         \<and> (2 * v < 2 * x + above \<or> (2 * v = 2 * x + above \<and> even m)))"

text \<open>The decimal of \<open>k\<close> significant digits that rounds to \<open>x\<close>, if there is one: of the
  two neighbours of \<open>x\<close> with \<open>k\<close> digits, the closer one that rounds to \<open>x\<close>, the even one on
  a tie.\<close>

definition candidate :: "nat \<Rightarrow> nat \<Rightarrow> nat option" where
  "candidate x k =
     (let p = 10 ^ (length (showNat x) - k); c = x div p; v1 = c * p; v2 = (c + 1) * p
      in if roundsTo x v1 \<and> roundsTo x v2 then
           Some (if x - v1 < v2 - x then v1
                 else if v2 - x < x - v1 then v2
                 else if even c then v1 else v2)
         else if roundsTo x v1 then Some v1
         else if roundsTo x v2 then Some v2
         else None)"

fun firstCandidate :: "nat \<Rightarrow> nat list \<Rightarrow> nat" where
  "firstCandidate x [] = x"
| "firstCandidate x (k # ks) =
     (case candidate x k of Some v \<Rightarrow> v | None \<Rightarrow> firstCandidate x ks)"

text \<open>The value of the shortest decimal: seventeen digits always suffice.\<close>

definition shortestDecimal :: "nat \<Rightarrow> nat" where
  "shortestDecimal x = firstCandidate x [1..<18]"

definition stripZeros :: "jstring \<Rightarrow> jstring" where
  "stripZeros s = rev (dropWhile (\<lambda>c. c = 48) (rev s))"

text \<open>\<open>String(x)\<close> for a Number that is not negative: the digits, padded with zeros, when
  there are at most 21 of them, the exponent form otherwise.\<close>

definition showNumber :: "nat \<Rightarrow> jstring" where
  "showNumber n =
     (let x = toDouble n
      in if 2 ^ 1024 \<le> x then js ''Infinity''
         else if x < 2 ^ 53 then showNat x
         else
           (let digits = showNat (shortestDecimal x)
            in if length digits \<le> 21 then digits
               else
                 (let s = stripZeros digits
                  in take 1 s @ (if 1 < length s then js ''.'' @ drop 1 s else [])
                     @ js ''e+'' @ showNat (length digits - 1))))"

definition showInt :: "int \<Rightarrow> jstring" where
  "showInt i = (if i < 0 then js ''-'' @ showNumber (nat (- i)) else showNumber (nat i))"

text \<open>\<open>String(v)\<close> and \<open>`${v}`\<close>. An array is written as its elements joined by commas,
  \<open>undefined\<close> and \<open>null\<close> among them as the empty string; an object (a plain one, without
  a \<open>toString\<close> of its own) as \<open>[object Object]\<close>.\<close>

definition comma :: "16 word" where
  "comma = 44"

fun toStringValue :: "jvalue \<Rightarrow> jstring"
  and elementStrings :: "jvalue list \<Rightarrow> jstring list" where
  "toStringValue VUndefined = js ''undefined''"
| "toStringValue VNull = js ''null''"
| "toStringValue (VBool b) = (if b then js ''true'' else js ''false'')"
| "toStringValue VNaN = js ''NaN''"
| "toStringValue (VNum n) = showInt n"
| "toStringValue (VStr s) = s"
| "toStringValue (VArr xs) = join comma (elementStrings xs)"
| "toStringValue (VObj fs) = js ''[object Object]''"
| "elementStrings [] = []"
| "elementStrings (x # xs) =
     (if x = VUndefined \<or> x = VNull then [] else toStringValue x) # elementStrings xs"


section \<open>Thrown values\<close>

text \<open>
  What an error translator reads of the value it caught: \<open>e?.message\<close>, \<open>String(e)\<close>,
  \<open>e?.code\<close>, \<open>e?.statusCode\<close>, \<open>e?.response?.status\<close>, \<open>e?.response?.statusText\<close>,
  \<open>e?.cause?.response?.status\<close> and \<open>e?.cause?.response?.statusText\<close>.
\<close>

record errorShape =
  es_message :: jvalue
  es_asString :: jstring
  es_code :: jvalue
  es_statusCode :: jvalue
  es_responseStatus :: jvalue
  es_responseStatusText :: jvalue
  es_causeStatus :: jvalue
  es_causeStatusText :: jvalue

text \<open>
  What the code throws or lets through, as values. \<open>NodeOperationError\<close> carries the
  message given to its constructor and the item index of its context when one was given. \<open>URIError\<close> is what
  \<open>encodeURIComponent\<close> and \<open>decodeURIComponent\<close> throw, \<open>TypeError\<close> what \<open>new URL\<close> and a
  property read of \<open>undefined\<close> throw, \<open>RangeError\<close> what \<open>toISOString\<close> throws on an invalid
  date. \<open>HostError\<close> is any value thrown by a function of the host: its shape, and whether
  it has a truthy \<open>context\<close> property.
\<close>

datatype exn =
    NodeOperationError jstring "nat option"
  | URIError
  | TypeError jstring
  | RangeError jstring
  | HostError errorShape bool

definition plainShape :: "jstring \<Rightarrow> jstring \<Rightarrow> errorShape" where
  "plainShape name msg =
     \<lparr> es_message = VStr msg, es_asString = name @ js '': '' @ msg, es_code = VUndefined,
       es_statusCode = VUndefined, es_responseStatus = VUndefined,
       es_responseStatusText = VUndefined, es_causeStatus = VUndefined,
       es_causeStatusText = VUndefined \<rparr>"

text \<open>The shape of each thrown value (the message of \<open>URIError\<close> is V8's). The class
  \<open>NodeOperationError\<close> is the library's, and its constructor may replace the message it is
  given: \<open>messageOf\<close> is what the \<open>message\<close> property holds for a message given.\<close>

fun shapeOf :: "(jstring \<Rightarrow> jstring) \<Rightarrow> exn \<Rightarrow> errorShape" where
  "shapeOf messageOf (NodeOperationError msg ctx) =
     plainShape (js ''NodeOperationError'') (messageOf msg)"
| "shapeOf messageOf URIError = plainShape (js ''URIError'') (js ''URI malformed'')"
| "shapeOf messageOf (TypeError msg) = plainShape (js ''TypeError'') msg"
| "shapeOf messageOf (RangeError msg) = plainShape (js ''RangeError'') msg"
| "shapeOf messageOf (HostError shape ctx) = shape"

text \<open>\<open>error.context\<close> is truthy: every \<open>NodeOperationError\<close> has a context object.\<close>

fun hasContext :: "exn \<Rightarrow> bool" where
  "hasContext (NodeOperationError msg ctx) = True"
| "hasContext (HostError shape ctx) = ctx"
| "hasContext e = False"

text \<open>
  What a run rejects with: a value thrown as it is, the caught value re-thrown after
  \<open>error.context.itemIndex = itemIndex\<close>, or the caught value wrapped in a new
  \<open>NodeOperationError\<close> with that item index.
\<close>

datatype failure =
    Thrown exn
  | ThrownAt exn nat
  | Wrapped exn nat


section \<open>encodeURIComponent and decodeURIComponent\<close>

text \<open>
  The two built-ins follow the abstract operations Encode and Decode of ECMA-262
  (with the unreserved set of \<open>encodeURIComponent\<close> and the empty reserved set of
  \<open>decodeURIComponent\<close>). Code points and octets are natural numbers.
\<close>

definition isUnreserved :: "16 word \<Rightarrow> bool" where
  "isUnreserved c \<longleftrightarrow>
     (let n = unat c in
        (65 \<le> n \<and> n \<le> 90) \<or> (97 \<le> n \<and> n \<le> 122) \<or> (48 \<le> n \<and> n \<le> 57)
        \<or> n \<in> {45, 95, 46, 33, 126, 42, 39, 40, 41})"

definition isLeadSurrogate :: "16 word \<Rightarrow> bool" where
  "isLeadSurrogate c \<longleftrightarrow> 55296 \<le> unat c \<and> unat c \<le> 56319"

definition isTrailSurrogate :: "16 word \<Rightarrow> bool" where
  "isTrailSurrogate c \<longleftrightarrow> 56320 \<le> unat c \<and> unat c \<le> 57343"

definition surrogatePair :: "16 word \<Rightarrow> 16 word \<Rightarrow> nat" where
  "surrogatePair c d = 65536 + (unat c - 55296) * 1024 + (unat d - 56320)"

definition utf8 :: "nat \<Rightarrow> nat list" where
  "utf8 cp =
     (if cp < 128 then [cp]
      else if cp < 2048 then [192 + cp div 64, 128 + cp mod 64]
      else if cp < 65536 then
        [224 + cp div 4096, 128 + (cp div 64) mod 64, 128 + cp mod 64]
      else
        [240 + cp div 262144, 128 + (cp div 4096) mod 64, 128 + (cp div 64) mod 64,
         128 + cp mod 64])"

definition hexDigit :: "nat \<Rightarrow> 16 word" where
  "hexDigit n = (if n < 10 then of_nat (48 + n) else of_nat (55 + n))"

definition percent :: "16 word" where
  "percent = 37"

definition escapeOctet :: "nat \<Rightarrow> jstring" where
  "escapeOctet b = [percent, hexDigit (b div 16), hexDigit (b mod 16)]"

definition escapeOctets :: "nat list \<Rightarrow> jstring" where
  "escapeOctets bs = concat (map escapeOctet bs)"

fun encodeURIComponent :: "jstring \<Rightarrow> exn + jstring" where
  "encodeURIComponent [] = Inr []"
| "encodeURIComponent (c # cs) =
     (if isUnreserved c then
        (case encodeURIComponent cs of Inl e \<Rightarrow> Inl e | Inr r \<Rightarrow> Inr (c # r))
      else if \<not> isLeadSurrogate c \<and> \<not> isTrailSurrogate c then
        (case encodeURIComponent cs of
           Inl e \<Rightarrow> Inl e
         | Inr r \<Rightarrow> Inr (escapeOctets (utf8 (unat c)) @ r))
      else if isTrailSurrogate c then Inl URIError
      else
        (case cs of
           [] \<Rightarrow> Inl URIError
         | d # ds \<Rightarrow>
             if isTrailSurrogate d then
               (case encodeURIComponent ds of
                  Inl e \<Rightarrow> Inl e
                | Inr r \<Rightarrow> Inr (escapeOctets (utf8 (surrogatePair c d)) @ r))
             else Inl URIError))"

definition hexVal :: "16 word \<Rightarrow> nat option" where
  "hexVal c =
     (let n = unat c in
        if 48 \<le> n \<and> n \<le> 57 then Some (n - 48)
        else if 65 \<le> n \<and> n \<le> 70 then Some (n - 55)
        else if 97 \<le> n \<and> n \<le> 102 then Some (n - 87)
        else None)"

text \<open>One escape \<open>%XX\<close> at the front of a string: its octet and the rest.\<close>

fun parseEscape :: "jstring \<Rightarrow> (nat \<times> jstring) option" where
  "parseEscape (p # h # l # rest) =
     (if p = percent then
        (case (hexVal h, hexVal l) of
           (Some a, Some b) \<Rightarrow> Some (16 * a + b, rest)
         | _ \<Rightarrow> None)
      else None)"
| "parseEscape _ = None"

text \<open>The \<open>n\<close> escapes that continue a multi-octet sequence.\<close>

fun parseEscapes :: "nat \<Rightarrow> jstring \<Rightarrow> (nat list \<times> jstring) option" where
  "parseEscapes 0 s = Some ([], s)"
| "parseEscapes (Suc n) s =
     (case parseEscape s of
        None \<Rightarrow> None
      | Some (b, rest) \<Rightarrow>
          (case parseEscapes n rest of
             None \<Rightarrow> None
           | Some (bs, rest') \<Rightarrow> Some (b # bs, rest')))"

definition isContinuation :: "nat \<Rightarrow> bool" where
  "isContinuation b \<longleftrightarrow> 128 \<le> b \<and> b < 192"

text \<open>The code point of a well-formed UTF-8 sequence of two to four octets: no overlong
  form, no surrogate, nothing above U+10FFFF.\<close>

fun utf8Decode :: "nat list \<Rightarrow> nat option" where
  "utf8Decode [b1, b2] =
     (let cp = (b1 - 192) * 64 + (b2 - 128)
      in if 192 \<le> b1 \<and> b1 < 224 \<and> isContinuation b2 \<and> 128 \<le> cp then Some cp else None)"
| "utf8Decode [b1, b2, b3] =
     (let cp = (b1 - 224) * 4096 + (b2 - 128) * 64 + (b3 - 128)
      in if 224 \<le> b1 \<and> b1 < 240 \<and> isContinuation b2 \<and> isContinuation b3
            \<and> 2048 \<le> cp \<and> \<not> (55296 \<le> cp \<and> cp \<le> 57343)
         then Some cp else None)"
| "utf8Decode [b1, b2, b3, b4] =
     (let cp = (b1 - 240) * 262144 + (b2 - 128) * 4096 + (b3 - 128) * 64 + (b4 - 128)
      in if 240 \<le> b1 \<and> b1 < 248 \<and> isContinuation b2 \<and> isContinuation b3
            \<and> isContinuation b4 \<and> 65536 \<le> cp \<and> cp \<le> 1114111
         then Some cp else None)"
| "utf8Decode _ = None"

definition utf16 :: "nat \<Rightarrow> jstring" where
  "utf16 cp =
     (if cp < 65536 then [of_nat cp]
      else [of_nat (55296 + (cp - 65536) div 1024), of_nat (56320 + (cp - 65536) mod 1024)])"

text \<open>One step of Decode at a code unit \<open>c\<close> followed by \<open>cs\<close>: the code units it
  produces and how many code units of \<open>cs\<close> it consumes.\<close>

definition decodeStep :: "16 word \<Rightarrow> jstring \<Rightarrow> exn + (jstring \<times> nat)" where
  "decodeStep c cs =
     (if c \<noteq> percent then Inr ([c], 0)
      else
        (case parseEscape (c # cs) of
           None \<Rightarrow> Inl URIError
         | Some (b, rest) \<Rightarrow>
             if b < 128 then Inr ([of_nat b], 2)
             else if b < 192 \<or> 248 \<le> b then Inl URIError
             else
               (let n = (if b < 224 then 2 else if b < 240 then 3 else 4)
                in case parseEscapes (n - 1) rest of
                     None \<Rightarrow> Inl URIError
                   | Some (bs, rest') \<Rightarrow>
                       (case utf8Decode (b # bs) of
                          None \<Rightarrow> Inl URIError
                        | Some cp \<Rightarrow> Inr (utf16 cp, 2 + 3 * (n - 1))))))"

fun decodeURIComponent :: "jstring \<Rightarrow> exn + jstring" where
  "decodeURIComponent [] = Inr []"
| "decodeURIComponent (c # cs) =
     (case decodeStep c cs of
        Inl e \<Rightarrow> Inl e
      | Inr (out, k) \<Rightarrow>
          (case decodeURIComponent (drop k cs) of
             Inl e \<Rightarrow> Inl e
           | Inr r \<Rightarrow> Inr (out @ r)))"


section \<open>Path normalisation\<close>

text \<open>The callback of \<open>map\<close> in \<open>normalizePath\<close>: an empty segment stays empty; otherwise
  decode then encode, and when either throws, encode the segment as it is.\<close>

definition encodeSegment :: "jstring \<Rightarrow> exn + jstring" where
  "encodeSegment seg =
     (if seg = [] then Inr []
      else
        (case decodeURIComponent seg of
           Inl _ \<Rightarrow> encodeURIComponent seg
         | Inr d \<Rightarrow>
             (case encodeURIComponent d of
                Inl _ \<Rightarrow> encodeURIComponent seg
              | Inr e \<Rightarrow> Inr e)))"

text \<open>\<open>segs.map(f)\<close> for a callback that may throw: the first throw ends the map.\<close>

fun mapThrowing :: "('a \<Rightarrow> exn + 'b) \<Rightarrow> 'a list \<Rightarrow> exn + 'b list" where
  "mapThrowing f [] = Inr []"
| "mapThrowing f (x # xs) =
     (case f x of
        Inl e \<Rightarrow> Inl e
      | Inr y \<Rightarrow> (case mapThrowing f xs of Inl e \<Rightarrow> Inl e | Inr ys \<Rightarrow> Inr (y # ys)))"

definition slash :: "16 word" where
  "slash = 47"

text \<open>The part of \<open>normalizePath\<close> after the tests on the whole path, shared by all
  variants.\<close>

definition encodePath :: "jstring \<Rightarrow> exn + jstring" where
  "encodePath p =
     (let raw = (if startsWith [slash] p then drop 1 p else p)
      in case mapThrowing encodeSegment (split slash raw) of
           Inl e \<Rightarrow> Inl e
         | Inr segs \<Rightarrow> Inr (slash # join slash segs))"

text \<open>\<open>normalizePath\<close> of the WebDAV node: an absolute URL is refused.\<close>

definition absoluteUrlMessage :: jstring where
  \<open>absoluteUrlMessage =
     js ''Absolute URLs are not allowed in path fields. Use a server-relative path starting with "/".''\<close>

definition normalizePath :: "jstring \<Rightarrow> exn + jstring" where
  "normalizePath p =
     (if p = [] \<or> p = [slash] then Inr [slash]
      else if isAbsoluteUrl p then Inl (NodeOperationError absoluteUrlMessage None)
      else encodePath p)"

text \<open>\<open>normalizePath\<close> of the CalDAV node: an absolute URL passes through unchanged.\<close>

definition normalizePathCal :: "jstring \<Rightarrow> exn + jstring" where
  "normalizePathCal p =
     (if p = [] \<or> p = [slash] then Inr [slash]
      else if isAbsoluteUrl p then Inr p
      else encodePath p)"

text \<open>A string without unpaired surrogates.\<close>

fun wellFormed :: "jstring \<Rightarrow> bool" where
  "wellFormed [] = True"
| "wellFormed (c # cs) =
     (if isLeadSurrogate c then
        (case cs of [] \<Rightarrow> False | d # ds \<Rightarrow> isTrailSurrogate d \<and> wellFormed ds)
      else \<not> isTrailSurrogate c \<and> wellFormed cs)"

text \<open>A Unicode scalar value: a code point that is not a surrogate.\<close>

definition validCodePoint :: "nat \<Rightarrow> bool" where
  "validCodePoint cp \<longleftrightarrow> cp \<le> 1114111 \<and> \<not> (55296 \<le> cp \<and> cp \<le> 57343)"


section \<open>Error translation\<close>

text \<open>
  \<open>toFriendlyError\<close>, the same in the three nodes but for the node's label (\<open>WebDAV\<close>,
  \<open>CalDAV\<close>, \<open>CardDAV\<close>): the caught value \<open>e\<close>, the URL \<open>u\<close> and the resource; the
  operation is the enclosing item's.
\<close>

definition friendlyBase :: "jstring \<Rightarrow> jstring \<Rightarrow> jstring \<Rightarrow> jstring \<Rightarrow> jstring" where
  \<open>friendlyBase label operation resource u =
     label @ js '' '' @ operation @ js '' on '' @ resource @ js '': "'' @ u @ js ''"''\<close>

definition errorText :: "errorShape \<Rightarrow> jstring" where
  "errorText e =
     (if truthy (es_message e) then toStringValue (es_message e) else es_asString e)"

definition toFriendlyError ::
  "jstring \<Rightarrow> jstring \<Rightarrow> errorShape \<Rightarrow> jstring \<Rightarrow> jstring \<Rightarrow> jstring" where
  \<open>toFriendlyError label operation e u resource =
     (let base = friendlyBase label operation resource u;
          msg = errorText e
      in if includesCI (js ''Invalid URL'') msg then
           js ''Invalid URL for '' @ base
           @ js ''. Ensure Base URL has protocol (https://) and path starts with "/". Spaces/special chars are auto-encoded.''
         else if es_code e = VStr (js ''ENOTFOUND'') then
           js ''Host not found for '' @ base @ js ''. Check the server hostname in credentials.''
         else if es_code e = VStr (js ''ECONNREFUSED'') then
           js ''Connection refused for '' @ base @ js ''. Server unreachable or port blocked.''
         else if es_code e = VStr (js ''ETIMEDOUT'') then
           js ''Connection timed out for '' @ base @ js ''. Server slow or network issues.''
         else
           (let status = nullish (nullish (es_statusCode e) (es_responseStatus e)) (es_causeStatus e);
                statusText = nullish (es_responseStatusText e) (es_causeStatusText e)
            in if truthy status then
                 js ''HTTP '' @ toStringValue status
                 @ (if truthy statusText then js '' '' @ toStringValue statusText else [])
                 @ js '' for '' @ base @ js ''.''
               else msg @ js '' ('' @ base @ js '')''))\<close>


section \<open>Regular expressions of the response parsers\<close>

text \<open>
  Every regular expression of the parsers has the shape
  \<open>/<TAG[^>]*>(.*?)<\/TAG>/\<close>, with or without the \<open>s\<close> flag. A match attempt at a
  position reads the literal \<open><TAG\<close>, then every code unit up to the first \<open>>\<close>
  (\<open>[^>]*\<close> cannot step over a \<open>>\<close>, so backtracking into it never helps), then the
  shortest text that is followed by \<open></TAG>\<close>. Without the \<open>s\<close> flag the dot refuses
  the four line terminators.
\<close>

definition isLineTerminator :: "16 word \<Rightarrow> bool" where
  "isLineTerminator c \<longleftrightarrow> c = 10 \<or> c = 13 \<or> c = 8232 \<or> c = 8233"

definition gt :: "16 word" where
  "gt = 62"

definition openTag :: "jstring \<Rightarrow> jstring" where
  "openTag tag = js ''<'' @ tag"

definition closeTag :: "jstring \<Rightarrow> jstring" where
  "closeTag tag = js ''</'' @ tag @ js ''>''"

text \<open>The lazy group followed by the closing tag: the captured text and the number of
  code units matched, closing tag included.\<close>

fun lazyUntil :: "bool \<Rightarrow> jstring \<Rightarrow> jstring \<Rightarrow> (jstring \<times> nat) option" where
  "lazyUntil dotAll close [] = (if startsWith close [] then Some ([], length close) else None)"
| "lazyUntil dotAll close (c # cs) =
     (if startsWith close (c # cs) then Some ([], length close)
      else if \<not> dotAll \<and> isLineTerminator c then None
      else (case lazyUntil dotAll close cs of
              None \<Rightarrow> None
            | Some (cap, k) \<Rightarrow> Some (c # cap, Suc k)))"

text \<open>A match attempt at the front of \<open>s\<close>: the captured group and the length of the
  match.\<close>

definition matchTagAt :: "bool \<Rightarrow> jstring \<Rightarrow> jstring \<Rightarrow> (jstring \<times> nat) option" where
  "matchTagAt dotAll tag s =
     (if startsWith (openTag tag) s then
        (let r = drop (length (openTag tag)) s;
             attrs = takeWhile (\<lambda>c. c \<noteq> gt) r
         in case drop (length attrs) r of
              [] \<Rightarrow> None
            | g # body \<Rightarrow>
                (case lazyUntil dotAll (closeTag tag) body of
                   None \<Rightarrow> None
                 | Some (cap, k) \<Rightarrow> Some (cap, length (openTag tag) + length attrs + 1 + k)))
      else None)"

text \<open>The leftmost match in \<open>s\<close>: the captured group and the index just after the match
  (the \<open>lastIndex\<close> of a global expression).\<close>

fun execTag :: "bool \<Rightarrow> jstring \<Rightarrow> jstring \<Rightarrow> (jstring \<times> nat) option" where
  "execTag dotAll tag [] = matchTagAt dotAll tag []"
| "execTag dotAll tag (c # cs) =
     (case matchTagAt dotAll tag (c # cs) of
        Some m \<Rightarrow> Some m
      | None \<Rightarrow>
          (case execTag dotAll tag cs of
             None \<Rightarrow> None
           | Some (cap, k) \<Rightarrow> Some (cap, Suc k)))"

text \<open>\<open>s.match(/<TAG[^>]*>(.*?)<\/TAG>/)\<close>: group 1 of the leftmost match, or null.\<close>

definition matchTag :: "bool \<Rightarrow> jstring \<Rightarrow> jstring \<Rightarrow> jstring option" where
  "matchTag dotAll tag s = map_option fst (execTag dotAll tag s)"

text \<open>
  The loop \<open>while ((match = responseRegex.exec(xmlData)) !== null) { ... }\<close> over the global
  expression \<open>/<D:response[^>]*>(.*?)<\/D:response>/gs\<close>, shared by the five parsers. The
  first argument is the loop body: it receives group 1 and the records pushed so far, and
  may throw. The second argument is the text from \<open>lastIndex\<close> on. A match is never
  empty, so the text after a match at \<open>c # cs\<close> ending at index \<open>k\<close> is \<open>drop (k - 1) cs\<close>.
\<close>

fun responseLoop :: "(jstring \<Rightarrow> 'r list \<Rightarrow> exn + 'r list) \<Rightarrow> jstring \<Rightarrow> 'r list \<Rightarrow> exn + 'r list" where
  "responseLoop body [] acc = Inr acc"
| "responseLoop body (c # cs) acc =
     (case execTag True (js ''D:response'') (c # cs) of
        None \<Rightarrow> Inr acc
      | Some (responseXml, k) \<Rightarrow>
          (case body responseXml acc of
             Inl e \<Rightarrow> Inl e
           | Inr acc' \<Rightarrow> responseLoop body (drop (k - 1) cs) acc'))"


section \<open>Response parsers\<close>

record propfindResource =
  pf_href :: jstring
  pf_contentType :: "jstring option"
  pf_lastModified :: "jstring option"
  pf_contentLength :: "int option option"
  pf_isCollection :: bool

text \<open>\<open>parsePropfindResponse\<close> of the WebDAV node. \<open>parseInt\<close> is the built-in, taken as a
  parameter; its result \<open>None\<close> is NaN. A field that is \<open>null\<close> is \<open>None\<close>.\<close>

definition propfindBody ::
  "(jstring \<Rightarrow> int option) \<Rightarrow> jstring \<Rightarrow> propfindResource list \<Rightarrow> exn + propfindResource list" where
  "propfindBody parseInt responseXml resources =
     (let hrefMatch = matchTag False (js ''D:href'') responseXml;
          contentTypeMatch = matchTag False (js ''D:getcontenttype'') responseXml;
          lastModifiedMatch = matchTag False (js ''D:getlastmodified'') responseXml;
          contentLengthMatch = matchTag False (js ''D:getcontentlength'') responseXml;
          resourceTypeMatch = matchTag False (js ''D:resourcetype'') responseXml
      in case hrefMatch of
           None \<Rightarrow> Inr resources
         | Some h \<Rightarrow>
             (case decodeURIComponent h of
                Inl e \<Rightarrow> Inl e
              | Inr href \<Rightarrow>
                  Inr (resources @
                    [\<lparr> pf_href = href,
                       pf_contentType = contentTypeMatch,
                       pf_lastModified = lastModifiedMatch,
                       pf_contentLength = map_option parseInt contentLengthMatch,
                       pf_isCollection =
                         (case resourceTypeMatch of
                            None \<Rightarrow> False
                          | Some t \<Rightarrow> includesStr (js ''collection'') t) \<rparr>])))"

definition parsePropfindResponse ::
  "(jstring \<Rightarrow> int option) \<Rightarrow> jstring \<Rightarrow> exn + propfindResource list" where
  "parsePropfindResponse parseInt xmlData = responseLoop (propfindBody parseInt) xmlData []"

record collectionInfo =
  ci_href :: jstring
  ci_displayName :: "jstring option"
  ci_description :: "jstring option"

text \<open>\<open>parseCalendarsResponse\<close> of the CalDAV node and \<open>parseAddressBooksResponse\<close> of the
  CardDAV node differ in the tag of the description only.\<close>

definition collectionBody ::
  "jstring \<Rightarrow> jstring \<Rightarrow> collectionInfo list \<Rightarrow> exn + collectionInfo list" where
  "collectionBody descriptionTag responseXml collections =
     (let hrefMatch = matchTag False (js ''D:href'') responseXml;
          displayNameMatch = matchTag False (js ''D:displayname'') responseXml;
          descriptionMatch = matchTag False descriptionTag responseXml
      in case hrefMatch of
           None \<Rightarrow> Inr collections
         | Some h \<Rightarrow>
             (case decodeURIComponent h of
                Inl e \<Rightarrow> Inl e
              | Inr href \<Rightarrow>
                  Inr (collections @
                    [\<lparr> ci_href = href,
                       ci_displayName = displayNameMatch,
                       ci_description = descriptionMatch \<rparr>])))"

definition parseCalendarsResponse :: "jstring \<Rightarrow> exn + collectionInfo list" where
  "parseCalendarsResponse xmlData =
     responseLoop (collectionBody (js ''C:calendar-description'')) xmlData []"

definition parseAddressBooksResponse :: "jstring \<Rightarrow> exn + collectionInfo list" where
  "parseAddressBooksResponse xmlData =
     responseLoop (collectionBody (js ''C:addressbook-description'')) xmlData []"

record dataResource =
  dr_href :: jstring
  dr_etag :: "jstring option"
  dr_data :: jstring

text \<open>\<open>parseEventsResponse\<close> of the CalDAV node and \<open>parseContactsResponse\<close> of the CardDAV
  node differ in the tag of the data only (\<open>dr_data\<close> is \<open>calendarData\<close> or
  \<open>addressData\<close>). The data expression has the \<open>s\<close> flag; a record is pushed only when
  both the href and the data matched.\<close>

definition dataBody ::
  "jstring \<Rightarrow> jstring \<Rightarrow> dataResource list \<Rightarrow> exn + dataResource list" where
  "dataBody dataTag responseXml found =
     (let hrefMatch = matchTag False (js ''D:href'') responseXml;
          etagMatch = matchTag False (js ''D:getetag'') responseXml;
          dataMatch = matchTag True dataTag responseXml
      in case (hrefMatch, dataMatch) of
           (Some h, Some d) \<Rightarrow>
             (case decodeURIComponent h of
                Inl e \<Rightarrow> Inl e
              | Inr href \<Rightarrow>
                  Inr (found @ [\<lparr> dr_href = href, dr_etag = etagMatch, dr_data = d \<rparr>]))
         | _ \<Rightarrow> Inr found)"

definition parseEventsResponse :: "jstring \<Rightarrow> exn + dataResource list" where
  "parseEventsResponse xmlData = responseLoop (dataBody (js ''C:calendar-data'')) xmlData []"

definition parseContactsResponse :: "jstring \<Rightarrow> exn + dataResource list" where
  "parseContactsResponse xmlData = responseLoop (dataBody (js ''C:address-data'')) xmlData []"


section \<open>Multi-status documents written block by block\<close>

text \<open>
  To state what the parsers return on a whole document, a document is given by its
  prolog and its response blocks: a block is the text between \<open><D:response\<close> and the
  \<open>>\<close> of the opening tag, the text inside the element, and the text after the closing
  tag up to the next block (or to the end of the document).
\<close>

record responseBlock =
  rb_attrs :: jstring
  rb_body :: jstring
  rb_after :: jstring

definition renderBlock :: "responseBlock \<Rightarrow> jstring" where
  "renderBlock b =
     js ''<D:response'' @ rb_attrs b @ js ''>'' @ rb_body b @ js ''</D:response>'' @ rb_after b"

definition renderDocument :: "jstring \<Rightarrow> responseBlock list \<Rightarrow> jstring" where
  "renderDocument prolog bs = prolog @ concat (map renderBlock bs)"

text \<open>The opening tag ends at its first \<open>>\<close>, the element at its first closing tag, and no
  further block opens before the next one of the list.\<close>

definition wellFormedBlock :: "responseBlock \<Rightarrow> bool" where
  "wellFormedBlock b \<longleftrightarrow>
     gt \<notin> set (rb_attrs b)
     \<and> \<not> includesStr (js ''</D:response>'') (rb_body b)
     \<and> \<not> includesStr (js ''<D:response'') (rb_after b)"

text \<open>Running a loop body over the blocks' texts in order, stopping at the first throw.\<close>

fun runBodies :: "(jstring \<Rightarrow> 'r list \<Rightarrow> exn + 'r list) \<Rightarrow> jstring list \<Rightarrow> 'r list \<Rightarrow> exn + 'r list" where
  "runBodies body [] acc = Inr acc"
| "runBodies body (x # xs) acc =
     (case body x acc of Inl e \<Rightarrow> Inl e | Inr acc' \<Rightarrow> runBodies body xs acc')"

text \<open>The percent-decoded href of a block's text: \<open>None\<close> when the href expression does
  not match in it, or when the matched text does not decode.\<close>

definition hrefOf :: "jstring \<Rightarrow> jstring option" where
  "hrefOf responseXml =
     (case matchTag False (js ''D:href'') responseXml of
        None \<Rightarrow> None
      | Some h \<Rightarrow> (case decodeURIComponent h of Inl e \<Rightarrow> None | Inr d \<Rightarrow> Some d))"

text \<open>The href of the block's text, when it matches, is a valid percent-encoding.\<close>

definition hrefDecodes :: "jstring \<Rightarrow> bool" where
  "hrefDecodes responseXml =
     (case matchTag False (js ''D:href'') responseXml of
        None \<Rightarrow> True
      | Some h \<Rightarrow> (case decodeURIComponent h of Inl e \<Rightarrow> False | Inr d \<Rightarrow> True))"

text \<open>The same for the parsers of events and contacts, which also need the data
  expression to match.\<close>

definition dataHrefOf :: "jstring \<Rightarrow> jstring \<Rightarrow> jstring option" where
  "dataHrefOf dataTag responseXml =
     (if matchTag True dataTag responseXml = None then None else hrefOf responseXml)"

definition lt :: "16 word" where
  "lt = 60"


section \<open>The host\<close>

text \<open>
  What the nodes receive from the workflow host and the JavaScript runtime, as a record of
  functions: the functions of \<open>IExecuteFunctions\<close> the code calls, and the built-ins the
  model does not spell out (\<open>URL\<close>, \<open>Date\<close>, \<open>parseInt\<close>, \<open>Number\<close>, \<open>toLowerCase\<close>,
  \<open>Buffer\<close>). Every theorem about a node holds for every host.
\<close>

type_synonym bytes = "8 word list"

text \<open>A request body or a response payload: a string, a \<open>Buffer\<close> or an \<open>ArrayBuffer\<close>.\<close>

datatype payload =
    PString jstring
  | PBuffer bytes
  | PArrayBuffer bytes

text \<open>The options object handed to the HTTP helper. \<open>rq_displayUrl\<close> is the property
  \<open>__displayUrl\<close> that \<open>doRequest\<close> of the WebDAV node adds.\<close>

record request =
  rq_method :: jstring
  rq_url :: jstring
  rq_body :: "payload option"
  rq_headers :: "(string \<times> jstring) list"
  rq_returnFullResponse :: bool
  rq_displayUrl :: "jstring option"

record response =
  rs_status :: int
  rs_headers :: "string \<Rightarrow> jstring option"
  rs_data :: "payload option"
  rs_body :: "payload option"

text \<open>The three HTTP helpers a host may offer.\<close>

datatype helper =
    HttpRequestWithAuthentication
  | RequestWithAuthentication
  | HttpRequest

text \<open>What \<open>new URL(s)\<close> gives: the origin and the serialisation (\<open>toString()\<close>).\<close>

record url =
  url_origin :: jstring
  url_href :: jstring

text \<open>What \<open>this.getInputData(k)\<close> returns: the array of the run's items itself (input 0 of
  a node with one input), an array without a first element, or a throw.\<close>

datatype inputData =
    TheItems
  | NoItems
  | InputThrows exn

record host =
  \<comment> \<open>\<open>await this.getCredentials('davApi')\<close>: the \<open>baseUrl\<close> of the credential, \<open>None\<close> when
      the credential or the property is missing\<close>
  h_getCredentials :: "exn + jstring option"
  \<comment> \<open>\<open>this.getNodeParameter(name, itemIndex, fallback)\<close> for a string parameter\<close>
  h_getString :: "string \<Rightarrow> nat \<Rightarrow> jstring option \<Rightarrow> exn + jstring"
  \<comment> \<open>the same for a boolean parameter\<close>
  h_getBool :: "string \<Rightarrow> nat \<Rightarrow> bool option \<Rightarrow> exn + bool"
  h_continueOnFail :: bool
  \<comment> \<open>whether \<open>helpers.httpRequestWithAuthentication\<close> and
      \<open>helpers.requestWithAuthentication\<close> are functions\<close>
  h_hasHelper :: "helper \<Rightarrow> bool"
  \<comment> \<open>a call of a helper: the number of calls made before it in the run, and the options\<close>
  h_send :: "helper \<Rightarrow> nat \<Rightarrow> request \<Rightarrow> exn + response"
  h_getInputData :: "nat \<Rightarrow> inputData"
  h_getBinaryDataBuffer :: "nat \<Rightarrow> jstring \<Rightarrow> exn + bytes"
  h_prepareBinaryData :: "bytes \<Rightarrow> jstring \<Rightarrow> jstring option \<Rightarrow> exn + jvalue"
  \<comment> \<open>\<open>new URL(s)\<close>\<close>
  h_newURL :: "jstring \<Rightarrow> exn + url"
  \<comment> \<open>\<open>new Date(s).toISOString()\<close>, and the same after \<open>setHours(0, 0, 0, 0)\<close> and after
      \<open>setHours(23, 59, 59, 999)\<close>\<close>
  h_toISOString :: "jstring \<Rightarrow> exn + jstring"
  h_startOfDay :: "jstring \<Rightarrow> exn + jstring"
  h_endOfDay :: "jstring \<Rightarrow> exn + jstring"
  \<comment> \<open>\<open>parseInt(s)\<close>, \<open>None\<close> for NaN; \<open>Number(s)\<close>; \<open>s.toLowerCase()\<close>\<close>
  h_parseInt :: "jstring \<Rightarrow> int option"
  h_Number :: "jstring \<Rightarrow> jvalue"
  h_toLowerCase :: "jstring \<Rightarrow> jstring"
  \<comment> \<open>\<open>Buffer.from(s)\<close> of a string, and \<open>String(b)\<close> of a \<open>Buffer\<close>\<close>
  h_bufferFromString :: "jstring \<Rightarrow> bytes"
  h_bufferToString :: "bytes \<Rightarrow> jstring"
  \<comment> \<open>the \<open>message\<close> property of \<open>new NodeOperationError(node, message, options)\<close>\<close>
  h_nodeErrorMessage :: "jstring \<Rightarrow> jstring"

text \<open>An HTTP call that was attempted: the helper and the options it received.\<close>

type_synonym sent = "(helper \<times> request) list"


section \<open>Validation of the base URL\<close>

definition isWhiteSpace :: "16 word \<Rightarrow> bool" where
  "isWhiteSpace c \<longleftrightarrow>
     (let n = unat c in
        n \<in> {9, 10, 11, 12, 13, 32, 160, 5760, 8232, 8233, 8239, 8287, 12288, 65279}
        \<or> (8192 \<le> n \<and> n \<le> 8202))"

text \<open>\<open>s.trim()\<close>.\<close>

definition trim :: "jstring \<Rightarrow> jstring" where
  "trim s = rev (dropWhile isWhiteSpace (rev (dropWhile isWhiteSpace s)))"

definition invalidBaseUrlMessage :: jstring where
  "invalidBaseUrlMessage =
     js ''Invalid Base URL in credentials. Include protocol (http:// or https://), e.g. https://your-server/remote.php/dav''"

text \<open>\<open>baseUrl.replace(/\/$/, '')\<close>: one trailing slash is removed.\<close>

definition stripTrailingSlash :: "jstring \<Rightarrow> jstring" where
  "stripTrailingSlash s = (if s \<noteq> [] \<and> last s = slash then butlast s else s)"

text \<open>The start of \<open>execute\<close> in the WebDAV node, the CalDAV node and the newer CardDAV
  node: the credential is read once and the run is rejected unless its base URL, trimmed,
  is non-empty and starts with \<open>http://\<close> or \<open>https://\<close>; the result is \<open>baseRoot\<close>.\<close>

definition validateBaseUrl :: "host \<Rightarrow> exn + jstring" where
  "validateBaseUrl h =
     (case h_getCredentials h of
        Inl e \<Rightarrow> Inl e
      | Inr creds \<Rightarrow>
          (case map_option trim creds of
             None \<Rightarrow> Inl (NodeOperationError invalidBaseUrlMessage None)
           | Some baseUrl \<Rightarrow>
               if baseUrl = [] \<or> \<not> isAbsoluteUrl baseUrl
               then Inl (NodeOperationError invalidBaseUrlMessage None)
               else Inr (stripTrailingSlash baseUrl)))"


section \<open>Sending a request\<close>

text \<open>The helper \<open>doRequest\<close> picks: the first of the two authenticated helpers that is a
  function, else \<open>httpRequest\<close>.\<close>

definition chooseHelper :: "host \<Rightarrow> helper" where
  "chooseHelper h =
     (if h_hasHelper h HttpRequestWithAuthentication then HttpRequestWithAuthentication
      else if h_hasHelper h RequestWithAuthentication then RequestWithAuthentication
      else HttpRequest)"

text \<open>The \<open>catch\<close> of \<open>doRequest\<close>: the resource parameter is read (which may itself throw)
  and the caught value is translated.\<close>

definition requestFailed ::
  "host \<Rightarrow> jstring \<Rightarrow> jstring \<Rightarrow> nat \<Rightarrow> exn \<Rightarrow> jstring \<Rightarrow> exn" where
  "requestFailed h label operation itemIndex e u =
     (case h_getString h ''resource'' itemIndex None of
        Inl e' \<Rightarrow> e'
      | Inr resource \<Rightarrow>
          NodeOperationError
            (toFriendlyError label operation (shapeOf (h_nodeErrorMessage h) e) u resource)
            (Some itemIndex))"

text \<open>
  \<open>doRequest\<close> of the WebDAV node and of the newer CardDAV node: the display URL is
  recorded, a URL that is not absolute is normalised and put after \<open>baseRoot\<close>, and the
  request is handed to the helper. The result is the response or what \<open>doRequest\<close> throws,
  and the list of attempted calls.
\<close>

definition doRequest ::
  "host \<Rightarrow> jstring \<Rightarrow> jstring \<Rightarrow> jstring \<Rightarrow> nat \<Rightarrow> request \<Rightarrow> sent \<Rightarrow> (exn + response) \<times> sent" where
  "doRequest h label baseRoot operation itemIndex opts calls =
     (let urlStr = rq_url opts
      in case (if isAbsoluteUrl urlStr then Inr urlStr else normalizePath urlStr) of
           Inl e \<Rightarrow> (Inl (requestFailed h label operation itemIndex e (rq_url opts)), calls)
         | Inr display \<Rightarrow>
             (let opts1 = opts\<lparr> rq_displayUrl := Some display \<rparr>
              in case (if \<not> isAbsoluteUrl urlStr then
                         (case normalizePath urlStr of
                            Inl e \<Rightarrow> Inl e
                          | Inr p \<Rightarrow> Inr (opts1\<lparr> rq_url := baseRoot @ p \<rparr>))
                       else Inr opts1) of
                   Inl e \<Rightarrow> (Inl (requestFailed h label operation itemIndex e display), calls)
                 | Inr opts2 \<Rightarrow>
                     (case h_send h (chooseHelper h) (length calls) opts2 of
                        Inl e \<Rightarrow>
                          (Inl (requestFailed h label operation itemIndex e display),
                           calls @ [(chooseHelper h, opts2)])
                      | Inr resp \<Rightarrow> (Inr resp, calls @ [(chooseHelper h, opts2)]))))"

text \<open>\<open>doRequest\<close> of the CalDAV node: no display URL, the pass-through variant of
  \<open>normalizePath\<close>, and the URL of the options in the message.\<close>

definition doRequestCal ::
  "host \<Rightarrow> jstring \<Rightarrow> jstring \<Rightarrow> nat \<Rightarrow> request \<Rightarrow> sent \<Rightarrow> (exn + response) \<times> sent" where
  "doRequestCal h baseRoot operation itemIndex opts calls =
     (let urlStr = rq_url opts
      in case (if \<not> isAbsoluteUrl urlStr then
                 (case normalizePathCal urlStr of
                    Inl e \<Rightarrow> Inl e
                  | Inr p \<Rightarrow> Inr (opts\<lparr> rq_url := baseRoot @ p \<rparr>))
               else Inr opts) of
           Inl e \<Rightarrow>
             (Inl (requestFailed h (js ''CalDAV'') operation itemIndex e (rq_url opts)), calls)
         | Inr opts2 \<Rightarrow>
             (case h_send h (chooseHelper h) (length calls) opts2 of
                Inl e \<Rightarrow>
                  (Inl (requestFailed h (js ''CalDAV'') operation itemIndex e (rq_url opts2)),
                   calls @ [(chooseHelper h, opts2)])
              | Inr resp \<Rightarrow> (Inr resp, calls @ [(chooseHelper h, opts2)])))"


section \<open>Items\<close>

text \<open>A JSON object is a list of properties in insertion order; assigning to a property
  replaces its value in place or adds it at the end.\<close>

type_synonym jobject = "(string \<times> jvalue) list"

fun setProp :: "string \<Rightarrow> jvalue \<Rightarrow> jobject \<Rightarrow> jobject" where
  "setProp k v [] = [(k, v)]"
| "setProp k v (p # ps) = (if fst p = k then (k, v) # ps else p # setProp k v ps)"

text \<open>An entry of an input item's \<open>binary\<close> object: its \<open>mimeType\<close>, when it has one.\<close>

record binaryEntry =
  be_mimeType :: "jstring option"

record inputItem =
  in_json :: jobject
  in_binary :: "(jstring \<times> binaryEntry) list option"

text \<open>An item the WebDAV node returns: its \<open>json\<close>, the \<open>data\<close> of its \<open>binary\<close> when it
  has one, and its \<open>pairedItem\<close> when it has one.\<close>

record outItem =
  out_json :: jobject
  out_binary :: "jvalue option"
  out_pairedItem :: "nat option"

definition optString :: "jstring option \<Rightarrow> jvalue" where
  "optString s = (case s of None \<Rightarrow> VNull | Some t \<Rightarrow> VStr t)"

text \<open>\<open>status >= 200 && status < 300\<close>.\<close>

definition isSuccessStatus :: "int \<Rightarrow> bool" where
  "isSuccessStatus status \<longleftrightarrow> 200 \<le> status \<and> status < 300"


section \<open>The WebDAV node\<close>

record webState =
  returnItems :: "outItem list"
  calls :: sent

text \<open>A request through \<open>doRequest\<close> followed by the rest of the \<open>case\<close>, which builds the
  item to push and may throw: the thrown value if any, and the state.\<close>

definition perform ::
  "host \<Rightarrow> jstring \<Rightarrow> jstring \<Rightarrow> nat \<Rightarrow> request \<Rightarrow> (response \<Rightarrow> exn + outItem) \<Rightarrow> webState
     \<Rightarrow> exn option \<times> webState" where
  "perform h baseRoot operation itemIndex opts finish st =
     (case doRequest h (js ''WebDAV'') baseRoot operation itemIndex opts (calls st) of
        (Inl e, calls') \<Rightarrow> (Some e, st\<lparr> calls := calls' \<rparr>)
      | (Inr resp, calls') \<Rightarrow>
          (case finish resp of
             Inl e \<Rightarrow> (Some e, st\<lparr> calls := calls' \<rparr>)
           | Inr item \<Rightarrow>
               (None, \<lparr> returnItems = returnItems st @ [item], calls = calls' \<rparr>)))"

definition plainRequest :: "jstring \<Rightarrow> jstring \<Rightarrow> request" where
  "plainRequest method u =
     \<lparr> rq_method = method, rq_url = u, rq_body = None, rq_headers = [],
       rq_returnFullResponse = True, rq_displayUrl = None \<rparr>"

subsection \<open>get\<close>

definition getFinish :: "host \<Rightarrow> jstring \<Rightarrow> nat \<Rightarrow> response \<Rightarrow> exn + outItem" where
  \<open>getFinish h path itemIndex resp =
     (case (case rs_data resp of Some d \<Rightarrow> Some d | None \<Rightarrow> rs_body resp) of
        None \<Rightarrow>
          Inl (NodeOperationError
                 (js ''No data returned from WebDAV for path "'' @ path @ js ''"'') (Some itemIndex))
      | Some rawData \<Rightarrow>
          (let dataBuffer =
                 (case rawData of
                    PBuffer b \<Rightarrow> b
                  | PString s \<Rightarrow> h_bufferFromString h s
                  | PArrayBuffer b \<Rightarrow> b);
               contentType = rs_headers resp ''content-type''
           in if (case contentType of
                    None \<Rightarrow> False
                  | Some ct \<Rightarrow> ct \<noteq> [] \<and> includesStr (js ''application/json'') (h_toLowerCase h ct))
              then
                Inl (NodeOperationError
                       (js ''Expected binary response but received JSON from WebDAV for path "''
                        @ path @ js ''"'') (Some itemIndex))
              else
                (let contentLength = rs_headers resp ''content-length'';
                     lastModified = rs_headers resp ''last-modified'';
                     etag = rs_headers resp ''etag''
                 in case normalizePath path of
                      Inl e \<Rightarrow> Inl e
                    | Inr p \<Rightarrow>
                        (let segs = filter (\<lambda>s. s \<noteq> []) (split slash p);
                             fileName = (if segs = [] then js ''file'' else last segs)
                         in case h_prepareBinaryData h dataBuffer fileName contentType of
                              Inl e \<Rightarrow> Inl e
                            | Inr binary \<Rightarrow>
                                Inr \<lparr> out_json =
                                        [(''path'', VStr path),
                                         (''contentType'',
                                          VStr (case contentType of
                                                  None \<Rightarrow> js ''application/octet-stream''
                                                | Some ct \<Rightarrow> ct)),
                                         (''contentLength'',
                                          (case contentLength of
                                             None \<Rightarrow> VNum (int (length dataBuffer))
                                           | Some cl \<Rightarrow>
                                               if cl \<noteq> [] then h_Number h cl
                                               else VNum (int (length dataBuffer)))),
                                         (''lastModified'', optString lastModified),
                                         (''etag'', optString etag),
                                         (''statusCode'', VNum (rs_status resp))],
                                      out_binary = Some binary,
                                      out_pairedItem = None \<rparr>))))\<close>

definition webDavGet :: "host \<Rightarrow> jstring \<Rightarrow> nat \<Rightarrow> webState \<Rightarrow> exn option \<times> webState" where
  "webDavGet h baseRoot itemIndex st =
     (case h_getString h ''path'' itemIndex (Some []) of
        Inl e \<Rightarrow> (Some e, st)
      | Inr path \<Rightarrow>
          (case normalizePath path of
             Inl e \<Rightarrow> (Some e, st)
           | Inr u \<Rightarrow>
               perform h baseRoot (js ''get'') itemIndex (plainRequest (js ''GET'') u)
                 (getFinish h path itemIndex) st))"

subsection \<open>put\<close>

definition webDavPut ::
  "host \<Rightarrow> jstring \<Rightarrow> inputItem list \<Rightarrow> nat \<Rightarrow> webState \<Rightarrow> exn option \<times> webState" where
  \<open>webDavPut h baseRoot items itemIndex st =
     (case h_getString h ''path'' itemIndex (Some []) of
        Inl e \<Rightarrow> (Some e, st)
      | Inr path \<Rightarrow>
          (case h_getString h ''binaryPropertyName'' itemIndex (Some (js ''data'')) of
             Inl e \<Rightarrow> (Some e, st)
           | Inr binaryPropertyName \<Rightarrow>
               (case (case in_binary (items ! itemIndex) of
                        None \<Rightarrow> None
                      | Some bin \<Rightarrow> map_of bin binaryPropertyName) of
                  None \<Rightarrow>
                    (Some (NodeOperationError
                             (js ''Input item is missing binary property "'' @ binaryPropertyName
                              @ js ''"'') (Some itemIndex)), st)
                | Some entry \<Rightarrow>
                    (case h_getBinaryDataBuffer h itemIndex binaryPropertyName of
                       Inl e \<Rightarrow> (Some e, st)
                     | Inr binData \<Rightarrow>
                         (let contentType =
                                (case be_mimeType entry of
                                   None \<Rightarrow> js ''application/octet-stream''
                                 | Some m \<Rightarrow> if m = [] then js ''application/octet-stream'' else m)
                          in case normalizePath path of
                               Inl e \<Rightarrow> (Some e, st)
                             | Inr u \<Rightarrow>
                                 perform h baseRoot (js ''put'') itemIndex
                                   \<lparr> rq_method = js ''PUT'', rq_url = u,
                                     rq_body = Some (PBuffer binData),
                                     rq_headers = [(''Content-Type'', contentType)],
                                     rq_returnFullResponse = True, rq_displayUrl = None \<rparr>
                                   (\<lambda>resp.
                                      Inr \<lparr> out_json =
                                              [(''success'', VBool (isSuccessStatus (rs_status resp))),
                                               (''statusCode'', VNum (rs_status resp)),
                                               (''path'', VStr path),
                                               (''contentType'', VStr contentType)],
                                            out_binary = None, out_pairedItem = None \<rparr>)
                                   st)))))\<close>

subsection \<open>propfind\<close>

definition tab :: "16 word" where
  "tab = 9"

definition newline :: "16 word" where
  "newline = 10"

text \<open>The lines of a template literal: each with its number of leading tabs, joined by
  line feeds.\<close>

definition xmlLines :: "(nat \<times> string) list \<Rightarrow> jstring" where
  "xmlLines ls = join newline (map (\<lambda>(n, s). replicate n tab @ js s) ls)"

definition propfindXml :: jstring where
  \<open>propfindXml =
     xmlLines
       [(0, ''<?xml version="1.0" encoding="utf-8"?>''),
        (0, ''<D:propfind xmlns:D="DAV:">''),
        (1, ''<D:prop>''),
        (2, ''<D:getcontenttype/>''),
        (2, ''<D:getlastmodified/>''),
        (2, ''<D:getcontentlength/>''),
        (2, ''<D:resourcetype/>''),
        (1, ''</D:prop>''),
        (0, ''</D:propfind>'')]\<close>

text \<open>The text a parser sees when handed \<open>response.data\<close>: \<open>exec\<close> converts its argument
  to a string.\<close>

definition xmlText :: "host \<Rightarrow> payload option \<Rightarrow> jstring" where
  "xmlText h d =
     (case d of
        None \<Rightarrow> js ''undefined''
      | Some (PString s) \<Rightarrow> s
      | Some (PBuffer b) \<Rightarrow> h_bufferToString h b
      | Some (PArrayBuffer b) \<Rightarrow> js ''[object ArrayBuffer]'')"

definition propfindJson :: "propfindResource \<Rightarrow> jvalue" where
  "propfindJson r =
     VObj [(''href'', VStr (pf_href r)),
           (''contentType'', optString (pf_contentType r)),
           (''lastModified'', optString (pf_lastModified r)),
           (''contentLength'',
            (case pf_contentLength r of
               None \<Rightarrow> VNull
             | Some None \<Rightarrow> VNaN
             | Some (Some n) \<Rightarrow> VNum n)),
           (''isCollection'', VBool (pf_isCollection r))]"

definition webDavPropfind :: "host \<Rightarrow> jstring \<Rightarrow> nat \<Rightarrow> webState \<Rightarrow> exn option \<times> webState" where
  "webDavPropfind h baseRoot itemIndex st =
     (case h_getString h ''path'' itemIndex (Some [slash]) of
        Inl e \<Rightarrow> (Some e, st)
      | Inr path \<Rightarrow>
          (case h_getString h ''depth'' itemIndex (Some (js ''1'')) of
             Inl e \<Rightarrow> (Some e, st)
           | Inr depth \<Rightarrow>
               (case (if path = [slash] then Inr [slash] else normalizePath path) of
                  Inl e \<Rightarrow> (Some e, st)
                | Inr u \<Rightarrow>
                    perform h baseRoot (js ''propfind'') itemIndex
                      \<lparr> rq_method = js ''PROPFIND'', rq_url = u,
                        rq_body = Some (PString propfindXml),
                        rq_headers = [(''Depth'', depth), (''Content-Type'', js ''application/xml'')],
                        rq_returnFullResponse = True, rq_displayUrl = None \<rparr>
                      (\<lambda>resp.
                         case parsePropfindResponse (h_parseInt h) (xmlText h (rs_data resp)) of
                           Inl e \<Rightarrow> Inl e
                         | Inr resources \<Rightarrow>
                             Inr \<lparr> out_json =
                                     [(''properties'', VArr (map propfindJson resources)),
                                      (''statusCode'', VNum (rs_status resp))],
                                   out_binary = None, out_pairedItem = None \<rparr>)
                      st)))"

subsection \<open>mkcol and delete\<close>

definition webDavMkcol :: "host \<Rightarrow> jstring \<Rightarrow> nat \<Rightarrow> webState \<Rightarrow> exn option \<times> webState" where
  "webDavMkcol h baseRoot itemIndex st =
     (case h_getString h ''path'' itemIndex (Some []) of
        Inl e \<Rightarrow> (Some e, st)
      | Inr path \<Rightarrow>
          (case normalizePath path of
             Inl e \<Rightarrow> (Some e, st)
           | Inr u \<Rightarrow>
               perform h baseRoot (js ''mkcol'') itemIndex (plainRequest (js ''MKCOL'') u)
                 (\<lambda>resp.
                    Inr \<lparr> out_json =
                            [(''success'', VBool (rs_status resp = 201)),
                             (''statusCode'', VNum (rs_status resp)),
                             (''path'', VStr path)],
                          out_binary = None, out_pairedItem = None \<rparr>)
                 st))"

definition webDavDelete :: "host \<Rightarrow> jstring \<Rightarrow> nat \<Rightarrow> webState \<Rightarrow> exn option \<times> webState" where
  "webDavDelete h baseRoot itemIndex st =
     (case h_getString h ''path'' itemIndex (Some []) of
        Inl e \<Rightarrow> (Some e, st)
      | Inr path \<Rightarrow>
          (case normalizePath path of
             Inl e \<Rightarrow> (Some e, st)
           | Inr u \<Rightarrow>
               perform h baseRoot (js ''delete'') itemIndex (plainRequest (js ''DELETE'') u)
                 (\<lambda>resp.
                    Inr \<lparr> out_json =
                            [(''success'', VBool (isSuccessStatus (rs_status resp))),
                             (''statusCode'', VNum (rs_status resp)),
                             (''path'', VStr path)],
                          out_binary = None, out_pairedItem = None \<rparr>)
                 st))"

subsection \<open>move and copy\<close>

definition crossOriginMessage :: jstring where
  "crossOriginMessage = js ''Destination must be on the same server as the Base URL''"

text \<open>The \<open>Destination\<close> header: an absolute destination must parse and have the origin of
  \<open>baseRoot\<close>, and is sent as the parsed URL's serialisation; any other destination is
  normalised and put after \<open>baseRoot\<close>.\<close>

definition destinationHeader :: "host \<Rightarrow> jstring \<Rightarrow> jstring \<Rightarrow> exn + jstring" where
  "destinationHeader h baseRoot destination =
     (if isAbsoluteUrl destination then
        (case h_newURL h destination of
           Inl e \<Rightarrow> Inl e
         | Inr destUrl \<Rightarrow>
             (case h_newURL h baseRoot of
                Inl e \<Rightarrow> Inl e
              | Inr base \<Rightarrow>
                  if url_origin destUrl \<noteq> url_origin base
                  then Inl (NodeOperationError crossOriginMessage None)
                  else Inr (url_href destUrl)))
      else
        (case normalizePath destination of
           Inl e \<Rightarrow> Inl e
         | Inr p \<Rightarrow> Inr (baseRoot @ p)))"

text \<open>The two cases are the same but for the operation and the method.\<close>

definition webDavTransfer ::
  "jstring \<Rightarrow> jstring \<Rightarrow> host \<Rightarrow> jstring \<Rightarrow> nat \<Rightarrow> webState \<Rightarrow> exn option \<times> webState" where
  "webDavTransfer operation method h baseRoot itemIndex st =
     (case h_getString h ''path'' itemIndex (Some []) of
        Inl e \<Rightarrow> (Some e, st)
      | Inr path \<Rightarrow>
          (case h_getString h ''destination'' itemIndex (Some []) of
             Inl e \<Rightarrow> (Some e, st)
           | Inr destination \<Rightarrow>
               (case h_getBool h ''overwrite'' itemIndex (Some False) of
                  Inl e \<Rightarrow> (Some e, st)
                | Inr overwrite \<Rightarrow>
                    (case destinationHeader h baseRoot destination of
                       Inl e \<Rightarrow> (Some e, st)
                     | Inr dest \<Rightarrow>
                         (case normalizePath path of
                            Inl e \<Rightarrow> (Some e, st)
                          | Inr u \<Rightarrow>
                              perform h baseRoot operation itemIndex
                                \<lparr> rq_method = method, rq_url = u, rq_body = None,
                                  rq_headers =
                                    [(''Destination'', dest),
                                     (''Overwrite'', if overwrite then js ''T'' else js ''F'')],
                                  rq_returnFullResponse = True, rq_displayUrl = None \<rparr>
                                (\<lambda>resp.
                                   Inr \<lparr> out_json =
                                           [(''success'', VBool (isSuccessStatus (rs_status resp))),
                                            (''statusCode'', VNum (rs_status resp)),
                                            (''sourcePath'', VStr path),
                                            (''destinationPath'', VStr destination)],
                                         out_binary = None, out_pairedItem = None \<rparr>)
                                st)))))"

definition webDavMove :: "host \<Rightarrow> jstring \<Rightarrow> nat \<Rightarrow> webState \<Rightarrow> exn option \<times> webState" where
  "webDavMove = webDavTransfer (js ''move'') (js ''MOVE'')"

definition webDavCopy :: "host \<Rightarrow> jstring \<Rightarrow> nat \<Rightarrow> webState \<Rightarrow> exn option \<times> webState" where
  "webDavCopy = webDavTransfer (js ''copy'') (js ''COPY'')"

subsection \<open>The loop\<close>

text \<open>The body of the \<open>try\<close> for one item: the operation is read and dispatched.\<close>

definition webDavItem ::
  "host \<Rightarrow> jstring \<Rightarrow> inputItem list \<Rightarrow> nat \<Rightarrow> webState \<Rightarrow> exn option \<times> webState" where
  "webDavItem h baseRoot items itemIndex st =
     (case h_getString h ''operation'' itemIndex None of
        Inl e \<Rightarrow> (Some e, st)
      | Inr operation \<Rightarrow>
          if operation = js ''get'' then webDavGet h baseRoot itemIndex st
          else if operation = js ''put'' then webDavPut h baseRoot items itemIndex st
          else if operation = js ''propfind'' then webDavPropfind h baseRoot itemIndex st
          else if operation = js ''mkcol'' then webDavMkcol h baseRoot itemIndex st
          else if operation = js ''delete'' then webDavDelete h baseRoot itemIndex st
          else if operation = js ''move'' then webDavMove h baseRoot itemIndex st
          else if operation = js ''copy'' then webDavCopy h baseRoot itemIndex st
          else
            (Some (NodeOperationError (js ''Operation '' @ operation @ js '' not supported'') None),
             st))"

text \<open>What the \<open>catch\<close> throws when the run does not continue on failure.\<close>

definition rethrow :: "exn \<Rightarrow> nat \<Rightarrow> failure" where
  "rethrow e itemIndex = (if hasContext e then ThrownAt e itemIndex else Wrapped e itemIndex)"

definition errorItem :: "host \<Rightarrow> exn \<Rightarrow> nat \<Rightarrow> outItem" where
  "errorItem h e itemIndex =
     \<lparr> out_json = [(''error'', es_message (shapeOf (h_nodeErrorMessage h) e))],
       out_binary = None, out_pairedItem = Some itemIndex \<rparr>"

text \<open>The \<open>for\<close> loop over the item indices that remain. The input array is never changed,
  so the indices are those of the input.\<close>

fun webDavLoop ::
  "host \<Rightarrow> jstring \<Rightarrow> inputItem list \<Rightarrow> nat list \<Rightarrow> webState \<Rightarrow> (failure + outItem list) \<times> sent" where
  "webDavLoop h baseRoot items [] st = (Inr (returnItems st), calls st)"
| "webDavLoop h baseRoot items (itemIndex # rest) st =
     (case webDavItem h baseRoot items itemIndex st of
        (None, st') \<Rightarrow> webDavLoop h baseRoot items rest st'
      | (Some e, st') \<Rightarrow>
          if h_continueOnFail h then
            webDavLoop h baseRoot items rest
              (st'\<lparr> returnItems := returnItems st' @ [errorItem h e itemIndex] \<rparr>)
          else (Inl (rethrow e itemIndex), calls st'))"

text \<open>\<open>WebDav.execute\<close>: the items returned or the value the run rejects with, and the HTTP
  calls attempted.\<close>

definition webDavExecute :: "host \<Rightarrow> inputItem list \<Rightarrow> (failure + outItem list) \<times> sent" where
  "webDavExecute h items =
     (case validateBaseUrl h of
        Inl e \<Rightarrow> (Inl (Thrown e), [])
      | Inr baseRoot \<Rightarrow>
          webDavLoop h baseRoot items [0..<length items] \<lparr> returnItems = [], calls = [] \<rparr>)"


section \<open>The CalDAV node\<close>

text \<open>
  The CalDAV node (and the CardDAV node) works on the array of input items itself: a case
  that completes assigns properties to the \<open>json\<close> object of its item, and the \<open>catch\<close>
  pushes an error item onto the same array, with the \<open>json\<close> object of
  \<open>this.getInputData(itemIndex)[0]\<close>. Items share objects, so an item holds a reference
  into a list of JSON objects.
\<close>

record item =
  it_json :: nat
  it_error :: "exn option"
  it_pairedItem :: "nat option"

record calState =
  cs_items :: "item list"
  cs_objects :: "jobject list"
  cs_calls :: sent

text \<open>\<open>item.json.k = v\<close> for the properties of a list, in order, where \<open>item\<close> is
  \<open>items[itemIndex]\<close>.\<close>

definition assignJson :: "nat \<Rightarrow> (string \<times> jvalue) list \<Rightarrow> calState \<Rightarrow> calState" where
  "assignJson itemIndex props st =
     (let r = it_json (cs_items st ! itemIndex)
      in st\<lparr> cs_objects :=
               (cs_objects st)[r := fold (\<lambda>(k, v). setProp k v) props (cs_objects st ! r)] \<rparr>)"

text \<open>A request through \<open>doRequest\<close> followed by the rest of the \<open>case\<close>, which computes the
  properties to assign and may throw.\<close>

definition calPerform ::
  "host \<Rightarrow> jstring \<Rightarrow> jstring \<Rightarrow> nat \<Rightarrow> request \<Rightarrow> (response \<Rightarrow> exn + (string \<times> jvalue) list)
     \<Rightarrow> calState \<Rightarrow> exn option \<times> calState" where
  "calPerform h baseRoot operation itemIndex opts finish st =
     (case doRequestCal h baseRoot operation itemIndex opts (cs_calls st) of
        (Inl e, calls') \<Rightarrow> (Some e, st\<lparr> cs_calls := calls' \<rparr>)
      | (Inr resp, calls') \<Rightarrow>
          (case finish resp of
             Inl e \<Rightarrow> (Some e, st\<lparr> cs_calls := calls' \<rparr>)
           | Inr props \<Rightarrow> (None, assignJson itemIndex props (st\<lparr> cs_calls := calls' \<rparr>))))"

subsection \<open>getCalendars\<close>

definition calendarsXml :: jstring where
  \<open>calendarsXml =
     xmlLines
       [(0, ''<?xml version="1.0" encoding="utf-8"?>''),
        (1, ''<D:propfind xmlns:D="DAV:" xmlns:C="urn:ietf:params:xml:ns:caldav">''),
        (2, ''<D:prop>''),
        (3, ''<D:resourcetype/>''),
        (3, ''<D:displayname/>''),
        (3, ''<C:calendar-description/>''),
        (3, ''<C:supported-calendar-component-set/>''),
        (2, ''</D:prop>''),
        (1, ''</D:propfind>'')]\<close>

definition collectionJson :: "collectionInfo \<Rightarrow> jvalue" where
  "collectionJson c =
     VObj [(''href'', VStr (ci_href c)),
           (''displayName'', optString (ci_displayName c)),
           (''description'', optString (ci_description c))]"

definition calDavGetCalendars :: "host \<Rightarrow> jstring \<Rightarrow> nat \<Rightarrow> calState \<Rightarrow> exn option \<times> calState" where
  "calDavGetCalendars h baseRoot itemIndex st =
     (case h_getString h ''calendarHomeSet'' itemIndex (Some (js ''/calendars/user/'')) of
        Inl e \<Rightarrow> (Some e, st)
      | Inr homeSet \<Rightarrow>
          (case normalizePathCal homeSet of
             Inl e \<Rightarrow> (Some e, st)
           | Inr calendarHomeSet \<Rightarrow>
               calPerform h baseRoot (js ''getCalendars'') itemIndex
                 \<lparr> rq_method = js ''PROPFIND'', rq_url = calendarHomeSet,
                   rq_body = Some (PString calendarsXml),
                   rq_headers = [(''Depth'', js ''1''), (''Content-Type'', js ''application/xml'')],
                   rq_returnFullResponse = True, rq_displayUrl = None \<rparr>
                 (\<lambda>resp.
                    case parseCalendarsResponse (xmlText h (rs_data resp)) of
                      Inl e \<Rightarrow> Inl e
                    | Inr calendars \<Rightarrow>
                        Inr [(''calendars'', VArr (map collectionJson calendars)),
                             (''statusCode'', VNum (rs_status resp))])
                 st))"

subsection \<open>getEvents\<close>

text \<open>\<open>if (!calendarPath.startsWith('/')) calendarPath = `/${calendarPath}`\<close>.\<close>

definition withLeadingSlash :: "jstring \<Rightarrow> jstring" where
  "withLeadingSlash p = (if startsWith [slash] p then p else slash # p)"

text \<open>The filter of the calendar query. The template literals start with a line feed; the
  time range, when there is one, is a line of its own.\<close>

definition filterLines :: "jstring option \<Rightarrow> jstring" where
  \<open>filterLines timeRange =
     newline #
     join newline
       (case timeRange of
          Some element \<Rightarrow>
            [replicate 1 tab @ js ''<C:filter>'',
             replicate 2 tab @ js ''<C:comp-filter name="VCALENDAR">'',
             replicate 3 tab @ js ''<C:comp-filter name="VEVENT">'',
             replicate 4 tab @ element,
             replicate 3 tab @ js ''</C:comp-filter>'',
             replicate 2 tab @ js ''</C:comp-filter>'',
             replicate 1 tab @ js ''</C:filter>'']
        | None \<Rightarrow>
            [replicate 1 tab @ js ''<C:filter>'',
             replicate 2 tab @ js ''<C:comp-filter name="VCALENDAR">'',
             replicate 3 tab @ js ''<C:comp-filter name="VEVENT"/>'',
             replicate 2 tab @ js ''</C:comp-filter>'',
             replicate 1 tab @ js ''</C:filter>''])\<close>

definition timeRangeElement :: "jstring \<Rightarrow> jstring \<Rightarrow> jstring" where
  \<open>timeRangeElement startIso endIso =
     js ''<C:time-range start="'' @ startIso @ js ''" end="'' @ endIso @ js ''"/>''\<close>

definition eventsFilter :: "host \<Rightarrow> nat \<Rightarrow> jstring \<Rightarrow> exn + jstring" where
  "eventsFilter h itemIndex timeRange =
     (if timeRange = js ''range'' then
        (case h_getString h ''startDate'' itemIndex (Some []) of
           Inl e \<Rightarrow> Inl e
         | Inr startDate \<Rightarrow>
             (case h_getString h ''endDate'' itemIndex (Some []) of
                Inl e \<Rightarrow> Inl e
              | Inr endDate \<Rightarrow>
                  (case h_toISOString h startDate of
                     Inl e \<Rightarrow> Inl e
                   | Inr startIso \<Rightarrow>
                       (case h_toISOString h endDate of
                          Inl e \<Rightarrow> Inl e
                        | Inr endIso \<Rightarrow> Inr (filterLines (Some (timeRangeElement startIso endIso)))))))
      else if timeRange = js ''date'' then
        (case h_getString h ''date'' itemIndex (Some []) of
           Inl e \<Rightarrow> Inl e
         | Inr date \<Rightarrow>
             (case h_startOfDay h date of
                Inl e \<Rightarrow> Inl e
              | Inr startIso \<Rightarrow>
                  (case h_endOfDay h date of
                     Inl e \<Rightarrow> Inl e
                   | Inr endIso \<Rightarrow> Inr (filterLines (Some (timeRangeElement startIso endIso))))))
      else Inr (filterLines None))"

definition eventsXml :: "jstring \<Rightarrow> jstring" where
  \<open>eventsXml filterXml =
     xmlLines
       [(0, ''<?xml version="1.0" encoding="utf-8"?>''),
        (0, ''<C:calendar-query xmlns:D="DAV:" xmlns:C="urn:ietf:params:xml:ns:caldav">''),
        (1, ''<D:prop>''),
        (2, ''<D:getetag/>''),
        (2, ''<C:calendar-data/>''),
        (1, ''</D:prop>'')]
     @ filterXml @ newline # js ''</C:calendar-query>''\<close>

definition eventJson :: "dataResource \<Rightarrow> jvalue" where
  "eventJson r =
     VObj [(''href'', VStr (dr_href r)),
           (''etag'', optString (dr_etag r)),
           (''calendarData'', VStr (dr_data r))]"

definition calDavGetEvents :: "host \<Rightarrow> jstring \<Rightarrow> nat \<Rightarrow> calState \<Rightarrow> exn option \<times> calState" where
  "calDavGetEvents h baseRoot itemIndex st =
     (case h_getString h ''calendarPath'' itemIndex (Some []) of
        Inl e \<Rightarrow> (Some e, st)
      | Inr path \<Rightarrow>
          (case h_getString h ''timeRange'' itemIndex (Some (js ''all'')) of
             Inl e \<Rightarrow> (Some e, st)
           | Inr timeRange \<Rightarrow>
               (case eventsFilter h itemIndex timeRange of
                  Inl e \<Rightarrow> (Some e, st)
                | Inr filterXml \<Rightarrow>
                    (case normalizePathCal (withLeadingSlash path) of
                       Inl e \<Rightarrow> (Some e, st)
                     | Inr u \<Rightarrow>
                         calPerform h baseRoot (js ''getEvents'') itemIndex
                           \<lparr> rq_method = js ''REPORT'', rq_url = u,
                             rq_body = Some (PString (eventsXml filterXml)),
                             rq_headers = [(''Content-Type'', js ''application/xml'')],
                             rq_returnFullResponse = True, rq_displayUrl = None \<rparr>
                           (\<lambda>resp.
                              case parseEventsResponse (xmlText h (rs_data resp)) of
                                Inl e \<Rightarrow> Inl e
                              | Inr events \<Rightarrow>
                                  Inr [(''events'', VArr (map eventJson events)),
                                       (''statusCode'', VNum (rs_status resp))])
                           st))))"

subsection \<open>createEvent, updateEvent and deleteEvent\<close>

text \<open>The URL of an event: \<open>normalizePath(`${calendarPath}/${eventId}.ics`)\<close>.\<close>

definition eventUrl :: "jstring \<Rightarrow> jstring \<Rightarrow> exn + jstring" where
  "eventUrl calendarPath eventId = normalizePathCal (calendarPath @ js ''/'' @ eventId @ js ''.ics'')"

definition eventResult :: "response \<Rightarrow> jstring \<Rightarrow> jstring \<Rightarrow> exn + (string \<times> jvalue) list" where
  "eventResult resp eventId calendarPath =
     Inr [(''success'', VBool (isSuccessStatus (rs_status resp))),
          (''statusCode'', VNum (rs_status resp)),
          (''eventId'', VStr eventId),
          (''calendarPath'', VStr calendarPath)]"

text \<open>\<open>createEvent\<close> and \<open>updateEvent\<close> differ in the operation and in the headers.\<close>

definition calDavPutEvent ::
  "jstring \<Rightarrow> (string \<times> jstring) list \<Rightarrow> host \<Rightarrow> jstring \<Rightarrow> nat \<Rightarrow> calState
     \<Rightarrow> exn option \<times> calState" where
  "calDavPutEvent operation headers h baseRoot itemIndex st =
     (case h_getString h ''calendarPath'' itemIndex (Some []) of
        Inl e \<Rightarrow> (Some e, st)
      | Inr path \<Rightarrow>
          (case h_getString h ''eventId'' itemIndex (Some []) of
             Inl e \<Rightarrow> (Some e, st)
           | Inr eventId \<Rightarrow>
               (case h_getString h ''eventData'' itemIndex (Some []) of
                  Inl e \<Rightarrow> (Some e, st)
                | Inr eventData \<Rightarrow>
                    (case eventUrl (withLeadingSlash path) eventId of
                       Inl e \<Rightarrow> (Some e, st)
                     | Inr u \<Rightarrow>
                         calPerform h baseRoot operation itemIndex
                           \<lparr> rq_method = js ''PUT'', rq_url = u,
                             rq_body = Some (PString eventData), rq_headers = headers,
                             rq_returnFullResponse = True, rq_displayUrl = None \<rparr>
                           (\<lambda>resp. eventResult resp eventId (withLeadingSlash path))
                           st))))"

definition calDavCreateEvent :: "host \<Rightarrow> jstring \<Rightarrow> nat \<Rightarrow> calState \<Rightarrow> exn option \<times> calState" where
  "calDavCreateEvent =
     calDavPutEvent (js ''createEvent'') [(''Content-Type'', js ''text/calendar'')]"

definition calDavUpdateEvent :: "host \<Rightarrow> jstring \<Rightarrow> nat \<Rightarrow> calState \<Rightarrow> exn option \<times> calState" where
  "calDavUpdateEvent =
     calDavPutEvent (js ''updateEvent'')
       [(''Content-Type'', js ''text/calendar''), (''If-Match'', js ''*'')]"

definition calDavDeleteEvent :: "host \<Rightarrow> jstring \<Rightarrow> nat \<Rightarrow> calState \<Rightarrow> exn option \<times> calState" where
  "calDavDeleteEvent h baseRoot itemIndex st =
     (case h_getString h ''calendarPath'' itemIndex (Some []) of
        Inl e \<Rightarrow> (Some e, st)
      | Inr path \<Rightarrow>
          (case h_getString h ''eventId'' itemIndex (Some []) of
             Inl e \<Rightarrow> (Some e, st)
           | Inr eventId \<Rightarrow>
               (case eventUrl (withLeadingSlash path) eventId of
                  Inl e \<Rightarrow> (Some e, st)
                | Inr u \<Rightarrow>
                    calPerform h baseRoot (js ''deleteEvent'') itemIndex
                      (plainRequest (js ''DELETE'') u)
                      (\<lambda>resp. eventResult resp eventId (withLeadingSlash path))
                      st)))"

subsection \<open>The loop\<close>

definition calDavItem :: "host \<Rightarrow> jstring \<Rightarrow> nat \<Rightarrow> calState \<Rightarrow> exn option \<times> calState" where
  "calDavItem h baseRoot itemIndex st =
     (case h_getString h ''operation'' itemIndex None of
        Inl e \<Rightarrow> (Some e, st)
      | Inr operation \<Rightarrow>
          if operation = js ''getCalendars'' then calDavGetCalendars h baseRoot itemIndex st
          else if operation = js ''getEvents'' then calDavGetEvents h baseRoot itemIndex st
          else if operation = js ''createEvent'' then calDavCreateEvent h baseRoot itemIndex st
          else if operation = js ''updateEvent'' then calDavUpdateEvent h baseRoot itemIndex st
          else if operation = js ''deleteEvent'' then calDavDeleteEvent h baseRoot itemIndex st
          else
            (Some (NodeOperationError (js ''Operation '' @ operation @ js '' not supported'') None),
             st))"

definition undefinedJsonMessage :: jstring where
  "undefinedJsonMessage = js ''Cannot read properties of undefined (reading 'json')''"

text \<open>
  The \<open>catch\<close> of the CalDAV and CardDAV nodes. When the run continues on failure, the
  \<open>json\<close> of \<open>this.getInputData(itemIndex)[0]\<close> is read (which throws out of the run when
  that array has no first element) and an error item is pushed onto the items; the result
  is what the run rejects with, if anything, and the state.
\<close>

definition catchItem :: "host \<Rightarrow> exn \<Rightarrow> nat \<Rightarrow> calState \<Rightarrow> failure option \<times> calState" where
  "catchItem h e itemIndex st =
     (if h_continueOnFail h then
        (case h_getInputData h itemIndex of
           TheItems \<Rightarrow>
             (case cs_items st of
                [] \<Rightarrow> (Some (Thrown (TypeError undefinedJsonMessage)), st)
              | first # others \<Rightarrow>
                  (None,
                   st\<lparr> cs_items :=
                         cs_items st
                         @ [\<lparr> it_json = it_json first, it_error = Some e,
                              it_pairedItem = Some itemIndex \<rparr>] \<rparr>))
         | NoItems \<Rightarrow> (Some (Thrown (TypeError undefinedJsonMessage)), st)
         | InputThrows e' \<Rightarrow> (Some (Thrown e'), st))
      else (Some (rethrow e itemIndex), st))"

text \<open>
  The \<open>for\<close> loop \<open>for (let itemIndex = 0; itemIndex < items.length; itemIndex++)\<close>. The
  bound is read at every iteration and the \<open>catch\<close> lengthens the array, so the loop need
  not end: the result \<open>None\<close> is a run that does not return.
\<close>

partial_function (option) calDavLoop ::
  "host \<Rightarrow> jstring \<Rightarrow> nat \<Rightarrow> calState \<Rightarrow> (failure option \<times> calState) option" where
  "calDavLoop h baseRoot itemIndex st =
     (if itemIndex < length (cs_items st) then
        (case calDavItem h baseRoot itemIndex st of
           (None, st') \<Rightarrow> calDavLoop h baseRoot (Suc itemIndex) st'
         | (Some e, st') \<Rightarrow>
             (case catchItem h e itemIndex st' of
                (None, st'') \<Rightarrow> calDavLoop h baseRoot (Suc itemIndex) st''
              | (Some f, st'') \<Rightarrow> Some (Some f, st'')))
      else Some (None, st))"

text \<open>\<open>CalDav.execute\<close> on the input items and their JSON objects: what the run rejects
  with, if anything, and the final items, objects and attempted calls.\<close>

definition calDavExecute ::
  "host \<Rightarrow> item list \<Rightarrow> jobject list \<Rightarrow> (failure option \<times> calState) option" where
  "calDavExecute h items objects =
     (case validateBaseUrl h of
        Inl e \<Rightarrow>
          Some (Some (Thrown e), \<lparr> cs_items = items, cs_objects = objects, cs_calls = [] \<rparr>)
      | Inr baseRoot \<Rightarrow>
          calDavLoop h baseRoot 0 \<lparr> cs_items = items, cs_objects = objects, cs_calls = [] \<rparr>)"


section \<open>The CardDAV node of src/nodes/CardDav/CardDav.node.ts\<close>

text \<open>
  This \<open>execute\<close> starts with the loop: it reads no credential, hands each URL to
  \<open>this.helpers.httpRequest\<close> as the parameter gives it, and lets what the helper throws
  reach the \<open>catch\<close> untranslated.
\<close>

definition cardPerform ::
  "host \<Rightarrow> nat \<Rightarrow> request \<Rightarrow> (response \<Rightarrow> exn + (string \<times> jvalue) list) \<Rightarrow> calState
     \<Rightarrow> exn option \<times> calState" where
  "cardPerform h itemIndex opts finish st =
     (let st' = st\<lparr> cs_calls := cs_calls st @ [(HttpRequest, opts)] \<rparr>
      in case h_send h HttpRequest (length (cs_calls st)) opts of
           Inl e \<Rightarrow> (Some e, st')
         | Inr resp \<Rightarrow>
             (case finish resp of
                Inl e \<Rightarrow> (Some e, st')
              | Inr props \<Rightarrow> (None, assignJson itemIndex props st')))"

definition addressBooksXml :: jstring where
  \<open>addressBooksXml =
     xmlLines
       [(0, ''<?xml version="1.0" encoding="utf-8"?>''),
        (0, ''<C:addressbook-query xmlns:D="DAV:" xmlns:C="urn:ietf:params:xml:ns:carddav">''),
        (1, ''<D:prop>''),
        (2, ''<D:resourcetype/>''),
        (2, ''<D:displayname/>''),
        (2, ''<C:addressbook-description/>''),
        (2, ''<C:supported-address-data/>''),
        (1, ''</D:prop>''),
        (1, ''<C:filter>''),
        (2, ''<C:prop-filter name="FN"/>''),
        (1, ''</C:filter>''),
        (0, ''</C:addressbook-query>'')]\<close>

definition cardDavGetAddressBooks :: "host \<Rightarrow> nat \<Rightarrow> calState \<Rightarrow> exn option \<times> calState" where
  "cardDavGetAddressBooks h itemIndex st =
     (case h_getString h ''addressBookHomeSet'' itemIndex (Some (js ''/addressbooks/user/'')) of
        Inl e \<Rightarrow> (Some e, st)
      | Inr addressBookHomeSet \<Rightarrow>
          cardPerform h itemIndex
            \<lparr> rq_method = js ''REPORT'', rq_url = addressBookHomeSet,
              rq_body = Some (PString addressBooksXml),
              rq_headers = [(''Depth'', js ''1''), (''Content-Type'', js ''application/xml'')],
              rq_returnFullResponse = True, rq_displayUrl = None \<rparr>
            (\<lambda>resp.
               case parseAddressBooksResponse (xmlText h (rs_data resp)) of
                 Inl e \<Rightarrow> Inl e
               | Inr addressBooks \<Rightarrow>
                   Inr [(''addressBooks'', VArr (map collectionJson addressBooks)),
                        (''statusCode'', VNum (rs_status resp))])
            st)"

text \<open>The filter of the address-book query: the search term is put into the text as it
  is.\<close>

definition contactFilterLines :: "(string \<times> jstring) option \<Rightarrow> jstring" where
  \<open>contactFilterLines search =
     newline #
     join newline
       (case search of
          Some (property, searchTerm) \<Rightarrow>
            [replicate 1 tab @ js ''<C:filter>'',
             replicate 2 tab @ js ''<C:prop-filter name="'' @ js property @ js ''">'',
             replicate 3 tab @ js ''<C:text-match>'' @ searchTerm @ js ''</C:text-match>'',
             replicate 2 tab @ js ''</C:prop-filter>'',
             replicate 1 tab @ js ''</C:filter>'']
        | None \<Rightarrow>
            [replicate 1 tab @ js ''<C:filter>'',
             replicate 2 tab @ js ''<C:prop-filter name="FN"/>'',
             replicate 1 tab @ js ''</C:filter>''])\<close>

definition contactsFilter :: "host \<Rightarrow> nat \<Rightarrow> jstring \<Rightarrow> exn + jstring" where
  "contactsFilter h itemIndex filterBy =
     (if filterBy = js ''name'' then
        (case h_getString h ''searchTerm'' itemIndex (Some []) of
           Inl e \<Rightarrow> Inl e
         | Inr searchTerm \<Rightarrow> Inr (contactFilterLines (Some (''FN'', searchTerm))))
      else if filterBy = js ''email'' then
        (case h_getString h ''searchTerm'' itemIndex (Some []) of
           Inl e \<Rightarrow> Inl e
         | Inr searchTerm \<Rightarrow> Inr (contactFilterLines (Some (''EMAIL'', searchTerm))))
      else Inr (contactFilterLines None))"

definition contactsXml :: "jstring \<Rightarrow> jstring" where
  \<open>contactsXml filterXml =
     xmlLines
       [(0, ''<?xml version="1.0" encoding="utf-8"?>''),
        (0, ''<C:addressbook-query xmlns:D="DAV:" xmlns:C="urn:ietf:params:xml:ns:carddav">''),
        (1, ''<D:prop>''),
        (2, ''<D:getetag/>''),
        (2, ''<C:address-data/>''),
        (1, ''</D:prop>'')]
     @ filterXml @ newline # js ''</C:addressbook-query>''\<close>

definition contactJson :: "dataResource \<Rightarrow> jvalue" where
  "contactJson r =
     VObj [(''href'', VStr (dr_href r)),
           (''etag'', optString (dr_etag r)),
           (''addressData'', VStr (dr_data r))]"

definition cardDavGetContacts :: "host \<Rightarrow> nat \<Rightarrow> calState \<Rightarrow> exn option \<times> calState" where
  "cardDavGetContacts h itemIndex st =
     (case h_getString h ''addressBookPath'' itemIndex (Some []) of
        Inl e \<Rightarrow> (Some e, st)
      | Inr addressBookPath \<Rightarrow>
          (case h_getString h ''filter'' itemIndex (Some (js ''all'')) of
             Inl e \<Rightarrow> (Some e, st)
           | Inr filterBy \<Rightarrow>
               (case contactsFilter h itemIndex filterBy of
                  Inl e \<Rightarrow> (Some e, st)
                | Inr filterXml \<Rightarrow>
                    cardPerform h itemIndex
                      \<lparr> rq_method = js ''REPORT'', rq_url = addressBookPath,
                        rq_body = Some (PString (contactsXml filterXml)),
                        rq_headers = [(''Content-Type'', js ''application/xml'')],
                        rq_returnFullResponse = True, rq_displayUrl = None \<rparr>
                      (\<lambda>resp.
                         case parseContactsResponse (xmlText h (rs_data resp)) of
                           Inl e \<Rightarrow> Inl e
                         | Inr contacts \<Rightarrow>
                             Inr [(''contacts'', VArr (map contactJson contacts)),
                                  (''statusCode'', VNum (rs_status resp))])
                      st)))"

definition contactResult :: "response \<Rightarrow> jstring \<Rightarrow> jstring \<Rightarrow> exn + (string \<times> jvalue) list" where
  "contactResult resp contactId addressBookPath =
     Inr [(''success'', VBool (isSuccessStatus (rs_status resp))),
          (''statusCode'', VNum (rs_status resp)),
          (''contactId'', VStr contactId),
          (''addressBookPath'', VStr addressBookPath)]"

text \<open>\<open>createContact\<close> and \<open>updateContact\<close> differ in the headers; the URL is
  \<open>`${addressBookPath}${contactId}.vcf`\<close>.\<close>

definition cardDavPutContact ::
  "(string \<times> jstring) list \<Rightarrow> host \<Rightarrow> nat \<Rightarrow> calState \<Rightarrow> exn option \<times> calState" where
  "cardDavPutContact headers h itemIndex st =
     (case h_getString h ''addressBookPath'' itemIndex (Some []) of
        Inl e \<Rightarrow> (Some e, st)
      | Inr addressBookPath \<Rightarrow>
          (case h_getString h ''contactId'' itemIndex (Some []) of
             Inl e \<Rightarrow> (Some e, st)
           | Inr contactId \<Rightarrow>
               (case h_getString h ''contactData'' itemIndex (Some []) of
                  Inl e \<Rightarrow> (Some e, st)
                | Inr contactData \<Rightarrow>
                    cardPerform h itemIndex
                      \<lparr> rq_method = js ''PUT'',
                        rq_url = addressBookPath @ contactId @ js ''.vcf'',
                        rq_body = Some (PString contactData), rq_headers = headers,
                        rq_returnFullResponse = True, rq_displayUrl = None \<rparr>
                      (\<lambda>resp. contactResult resp contactId addressBookPath)
                      st)))"

definition cardDavDeleteContact :: "host \<Rightarrow> nat \<Rightarrow> calState \<Rightarrow> exn option \<times> calState" where
  "cardDavDeleteContact h itemIndex st =
     (case h_getString h ''addressBookPath'' itemIndex (Some []) of
        Inl e \<Rightarrow> (Some e, st)
      | Inr addressBookPath \<Rightarrow>
          (case h_getString h ''contactId'' itemIndex (Some []) of
             Inl e \<Rightarrow> (Some e, st)
           | Inr contactId \<Rightarrow>
               cardPerform h itemIndex
                 (plainRequest (js ''DELETE'') (addressBookPath @ contactId @ js ''.vcf''))
                 (\<lambda>resp. contactResult resp contactId addressBookPath)
                 st))"

definition cardDavItem :: "host \<Rightarrow> nat \<Rightarrow> calState \<Rightarrow> exn option \<times> calState" where
  "cardDavItem h itemIndex st =
     (case h_getString h ''operation'' itemIndex None of
        Inl e \<Rightarrow> (Some e, st)
      | Inr operation \<Rightarrow>
          if operation = js ''getAddressBooks'' then cardDavGetAddressBooks h itemIndex st
          else if operation = js ''getContacts'' then cardDavGetContacts h itemIndex st
          else if operation = js ''createContact'' then
            cardDavPutContact [(''Content-Type'', js ''text/vcard'')] h itemIndex st
          else if operation = js ''updateContact'' then
            cardDavPutContact [(''Content-Type'', js ''text/vcard''), (''If-Match'', js ''*'')]
              h itemIndex st
          else if operation = js ''deleteContact'' then cardDavDeleteContact h itemIndex st
          else
            (Some (NodeOperationError (js ''Operation '' @ operation @ js '' not supported'') None),
             st))"

partial_function (option) cardDavLoop ::
  "host \<Rightarrow> nat \<Rightarrow> calState \<Rightarrow> (failure option \<times> calState) option" where
  "cardDavLoop h itemIndex st =
     (if itemIndex < length (cs_items st) then
        (case cardDavItem h itemIndex st of
           (None, st') \<Rightarrow> cardDavLoop h (Suc itemIndex) st'
         | (Some e, st') \<Rightarrow>
             (case catchItem h e itemIndex st' of
                (None, st'') \<Rightarrow> cardDavLoop h (Suc itemIndex) st''
              | (Some f, st'') \<Rightarrow> Some (Some f, st'')))
      else Some (None, st))"

definition cardDavExecute ::
  "host \<Rightarrow> item list \<Rightarrow> jobject list \<Rightarrow> (failure option \<times> calState) option" where
  "cardDavExecute h items objects =
     cardDavLoop h 0 \<lparr> cs_items = items, cs_objects = objects, cs_calls = [] \<rparr>"


section \<open>A host for examples\<close>

text \<open>
  A host in the manner of the mocks of the repository's tests: the credential's base URL
  is \<open>https://dav.example.com/\<close>, the parameters come from a table, the only helper is
  \<open>httpRequest\<close>, whose answers are given per call, and \<open>getInputData(0)\<close> is the array of
  the run's items. \<open>URL\<close> knows the base URL, one URL of another origin and one URL of the
  same origin, and the constructor of \<open>NodeOperationError\<close> keeps the message it is given.
\<close>

definition exampleResponse :: "int \<Rightarrow> response" where
  "exampleResponse status =
     \<lparr> rs_status = status, rs_headers = (\<lambda>k. None), rs_data = None, rs_body = None \<rparr>"

definition hostError :: "jstring \<Rightarrow> jvalue \<Rightarrow> exn" where
  "hostError msg code = HostError ((plainShape (js ''Error'') msg)\<lparr> es_code := code \<rparr>) False"

definition exampleURL :: "jstring \<Rightarrow> exn + url" where
  "exampleURL s =
     (if s = js ''https://dav.example.com''
      then Inr \<lparr> url_origin = js ''https://dav.example.com'', url_href = js ''https://dav.example.com/'' \<rparr>
      else if s = js ''https://other.example.org/f''
      then Inr \<lparr> url_origin = js ''https://other.example.org'', url_href = js ''https://other.example.org/f'' \<rparr>
      else if s = js ''https://dav.example.com/b.txt''
      then Inr \<lparr> url_origin = js ''https://dav.example.com'', url_href = js ''https://dav.example.com/b.txt'' \<rparr>
      else Inl (TypeError (js ''Invalid URL'')))"

definition exampleHost ::
  "jstring option \<Rightarrow> bool \<Rightarrow> (string \<Rightarrow> nat \<Rightarrow> jstring option) \<Rightarrow> (nat \<Rightarrow> exn + response) \<Rightarrow> host" where
  "exampleHost baseUrl continue params answers =
     \<lparr> h_getCredentials = Inr baseUrl,
       h_getString =
         (\<lambda>name itemIndex fallback.
            case params name itemIndex of
              Some v \<Rightarrow> Inr v
            | None \<Rightarrow>
                (case fallback of
                   Some d \<Rightarrow> Inr d
                 | None \<Rightarrow> Inl (hostError (js ''Could not get parameter'') VUndefined))),
       h_getBool =
         (\<lambda>name itemIndex fallback.
            case fallback of
              Some b \<Rightarrow> Inr b
            | None \<Rightarrow> Inl (hostError (js ''Could not get parameter'') VUndefined)),
       h_continueOnFail = continue,
       h_hasHelper = (\<lambda>helper. False),
       h_send = (\<lambda>helper n opts. answers n),
       h_getInputData = (\<lambda>k. if k = 0 then TheItems else NoItems),
       h_getBinaryDataBuffer = (\<lambda>itemIndex name. Inr []),
       h_prepareBinaryData = (\<lambda>buffer fileName mimeType. Inr VNull),
       h_newURL = exampleURL,
       h_toISOString = (\<lambda>s. Inl (RangeError (js ''Invalid time value''))),
       h_startOfDay = (\<lambda>s. Inl (RangeError (js ''Invalid time value''))),
       h_endOfDay = (\<lambda>s. Inl (RangeError (js ''Invalid time value''))),
       h_parseInt = (\<lambda>s. None),
       h_Number = (\<lambda>s. VNaN),
       h_toLowerCase = (\<lambda>s. s),
       h_bufferFromString = (\<lambda>s. []),
       h_bufferToString = (\<lambda>b. []),
       h_nodeErrorMessage = (\<lambda>msg. msg) \<rparr>"

text \<open>A table of parameters that are the same for every item.\<close>

definition staticParams :: "(string \<times> jstring) list \<Rightarrow> string \<Rightarrow> nat \<Rightarrow> jstring option" where
  "staticParams table name itemIndex = map_of table name"


text \<open>Runs of the WebDAV node on the example host: a directory created with status 200,
  and a move to another server.\<close>

definition mkcolHost :: host where
  "mkcolHost =
     exampleHost (Some (js ''https://dav.example.com/'')) False
       (staticParams [(''operation'', js ''mkcol''), (''path'', js ''/new dir'')])
       (\<lambda>n. Inr (exampleResponse 200))"

definition moveHost :: host where
  "moveHost =
     exampleHost (Some (js ''https://dav.example.com/'')) False
       (staticParams [(''operation'', js ''move''), (''path'', js ''/a.txt''),
                      (''destination'', js ''https://other.example.org/f'')])
       (\<lambda>n. Inr (exampleResponse 201))"

text \<open>A move to an absolute destination on the server of the base URL, and a copy to a
  relative destination with the overwrite flag set.\<close>

definition moveSameOriginHost :: host where
  "moveSameOriginHost =
     exampleHost (Some (js ''https://dav.example.com/'')) False
       (staticParams [(''operation'', js ''move''), (''path'', js ''/a.txt''),
                      (''destination'', js ''https://dav.example.com/b.txt'')])
       (\<lambda>n. Inr (exampleResponse 201))"

definition copyHost :: host where
  "copyHost =
     (exampleHost (Some (js ''https://dav.example.com/'')) False
        (staticParams [(''operation'', js ''copy''), (''path'', js ''/my docs/a.txt''),
                       (''destination'', js ''/backup/a b.txt'')])
        (\<lambda>n. Inr (exampleResponse 204)))
     \<lparr> h_getBool := (\<lambda>name itemIndex fallback. Inr True) \<rparr>"

text \<open>A directory created with status 201, a file deleted with status 204, and an upload of
  the binary property \<open>data\<close> answered with status 500.\<close>

definition mkcolCreatedHost :: host where
  "mkcolCreatedHost =
     exampleHost (Some (js ''https://dav.example.com/'')) False
       (staticParams [(''operation'', js ''mkcol''), (''path'', js ''/new dir'')])
       (\<lambda>n. Inr (exampleResponse 201))"

definition deleteHost :: host where
  "deleteHost =
     exampleHost (Some (js ''https://dav.example.com/'')) False
       (staticParams [(''operation'', js ''delete''), (''path'', js ''/old.txt'')])
       (\<lambda>n. Inr (exampleResponse 204))"

definition putHost :: host where
  "putHost =
     exampleHost (Some (js ''https://dav.example.com/'')) False
       (staticParams [(''operation'', js ''put''), (''path'', js ''/up.txt'')])
       (\<lambda>n. Inr (exampleResponse 500))"

definition putItems :: "inputItem list" where
  "putItems =
     [\<lparr> in_json = [],
        in_binary = Some [(js ''data'', \<lparr> be_mimeType = Some (js ''text/plain'') \<rparr>)] \<rparr>]"


text \<open>Runs of the CalDAV node on the example host: one item that creates the event
  \<open>evt-1\<close> in \<open>/cal/\<close>; and three items that each delete an event, where the run continues
  on failure and the server refuses the first connection only.\<close>

definition createHost :: host where
  "createHost =
     exampleHost (Some (js ''https://dav.example.com/'')) False
       (staticParams [(''operation'', js ''createEvent''), (''resource'', js ''calendar''),
                      (''calendarPath'', js ''/cal/''), (''eventId'', js ''evt-1''),
                      (''eventData'', js ''BEGIN:VCALENDAR'')])
       (\<lambda>n. Inr (exampleResponse 201))"

definition oneItem :: calState where
  "oneItem =
     \<lparr> cs_items = [\<lparr> it_json = 0, it_error = None, it_pairedItem = None \<rparr>],
       cs_objects = [[]], cs_calls = [] \<rparr>"

definition refusedOnceHost :: host where
  "refusedOnceHost =
     exampleHost (Some (js ''https://dav.example.com/'')) True
       (staticParams [(''operation'', js ''deleteEvent''), (''resource'', js ''calendar''),
                      (''calendarPath'', js ''/cal''), (''eventId'', js ''e1'')])
       (\<lambda>n. if n = 0 then Inl (hostError (js ''connect ECONNREFUSED'') (VStr (js ''ECONNREFUSED'')))
            else Inr (exampleResponse 204))"

definition threeItems :: "item list" where
  "threeItems =
     [\<lparr> it_json = 0, it_error = None, it_pairedItem = None \<rparr>,
      \<lparr> it_json = 1, it_error = None, it_pairedItem = None \<rparr>,
      \<lparr> it_json = 2, it_error = None, it_pairedItem = None \<rparr>]"

text \<open>A run of that CardDAV node with a credential whose base URL has no protocol: one
  item that deletes a contact.\<close>

definition noProtocolHost :: host where
  "noProtocolHost =
     exampleHost (Some (js ''dav.example.com'')) False
       (staticParams [(''operation'', js ''deleteContact''), (''resource'', js ''addressbook''),
                      (''addressBookPath'', js ''/addressbooks/user/work/''),
                      (''contactId'', js ''c1'')])
       (\<lambda>n. Inr (exampleResponse 204))"

section \<open>Evaluation rules\<close>

lemmas string_eval = js_def slash_def percent_def lowerAscii_def isAbsoluteUrl_def

lemmas uri_eval =
  isUnreserved_def isLeadSurrogate_def isTrailSurrogate_def surrogatePair_def utf8_def
  hexDigit_def escapeOctet_def escapeOctets_def hexVal_def isContinuation_def utf16_def
  decodeStep_def

lemmas path_eval = encodeSegment_def encodePath_def normalizePath_def normalizePathCal_def


lemmas regex_eval =
  isLineTerminator_def gt_def openTag_def closeTag_def matchTagAt_def matchTag_def

lemmas parser_eval =
  propfindBody_def parsePropfindResponse_def collectionBody_def parseCalendarsResponse_def
  parseAddressBooksResponse_def dataBody_def parseEventsResponse_def parseContactsResponse_def

lemmas translator_eval = friendlyBase_def errorText_def toFriendlyError_def plainShape_def

lemmas host_eval =
  exampleResponse_def hostError_def exampleURL_def exampleHost_def staticParams_def
  chooseHelper_def requestFailed_def doRequest_def doRequestCal_def

lemmas webdav_eval =
  perform_def plainRequest_def webDavMkcol_def webDavDelete_def destinationHeader_def
  webDavTransfer_def webDavMove_def webDavCopy_def webDavItem_def isSuccessStatus_def

lemmas caldav_eval =
  assignJson_def calPerform_def withLeadingSlash_def eventUrl_def eventResult_def
  calDavPutEvent_def calDavCreateEvent_def calDavUpdateEvent_def calDavDeleteEvent_def
  calDavItem_def catchItem_def calDavExecute_def rethrow_def

lemmas carddav_eval =
  cardPerform_def contactResult_def cardDavPutContact_def cardDavDeleteContact_def
  cardDavItem_def cardDavExecute_def

lemmas validate_eval = validateBaseUrl_def trim_def isWhiteSpace_def stripTrailingSlash_def

section \<open>Decoding inverts encoding\<close>

lemma u16_of_nat: "n < 65536 \<Longrightarrow> unat (of_nat n :: 16 word) = n"
  by (simp add: unat_of_nat)

lemma u16_bound: "unat (c :: 16 word) < 65536"
  using unsigned_less[of c, where 'a=nat] by simp

lemma unat_hexDigit: "n < 16 \<Longrightarrow> unat (hexDigit n) = (if n < 10 then 48 + n else 55 + n)"
  unfolding hexDigit_def using u16_of_nat[of "48 + n"] u16_of_nat[of "55 + n"]
  by (simp del: of_nat_add)

lemma hexVal_hexDigit: "n < 16 \<Longrightarrow> hexVal (hexDigit n) = Some n"
  by (simp add: hexVal_def unat_hexDigit Let_def)

lemma parseEscape_escapeOctet:
  "b < 256 \<Longrightarrow> parseEscape (escapeOctet b @ rest) = Some (b, rest)"
proof -
  assume b: "b < 256"
  then have "b div 16 < 16" "b mod 16 < 16" by auto
  then show ?thesis
    by (simp add: escapeOctet_def hexVal_hexDigit)
qed

lemma parseEscapes_escapeOctets:
  "\<forall>b\<in>set bs. b < 256 \<Longrightarrow> parseEscapes (length bs) (escapeOctets bs @ rest) = Some (bs, rest)"
  by (induction bs) (auto simp: escapeOctets_def parseEscape_escapeOctet)

lemma utf16_bmp:
  "\<not> isLeadSurrogate c \<Longrightarrow> \<not> isTrailSurrogate c \<Longrightarrow> utf16 (unat c) = [c]"
  using u16_bound[of c] by (simp add: utf16_def)

lemma surrogatePair_range:
  "isLeadSurrogate c \<Longrightarrow> isTrailSurrogate d \<Longrightarrow>
     65536 \<le> surrogatePair c d \<and> surrogatePair c d \<le> 1114111"
  by (auto simp: isLeadSurrogate_def isTrailSurrogate_def surrogatePair_def)

lemma utf16_pair:
  assumes "isLeadSurrogate c" "isTrailSurrogate d"
  shows "utf16 (surrogatePair c d) = [c, d]"
proof -
  define a where "a = unat c - 55296"
  define b where "b = unat d - 56320"
  have a: "a < 1024" "unat c = 55296 + a" and b: "b < 1024" "unat d = 56320 + b"
    using assms by (auto simp: a_def b_def isLeadSurrogate_def isTrailSurrogate_def)
  have sp: "surrogatePair c d = 65536 + a * 1024 + b"
    by (simp add: surrogatePair_def a_def b_def)
  have d1: "(surrogatePair c d - 65536) div 1024 = a" and d2: "(surrogatePair c d - 65536) mod 1024 = b"
    using a b by (simp_all add: sp)
  have "of_nat (55296 + a) = c" "of_nat (56320 + b) = d"
    using a(2) b(2) by (metis of_nat_unat unsigned_word_eqI word_unat_eq_iff u16_of_nat u16_bound)+
  then show ?thesis
    using sp a b by (simp add: utf16_def d1 d2 del: of_nat_add)
qed

lemma utf8_bytes: "cp \<le> 1114111 \<Longrightarrow> \<forall>b\<in>set (utf8 cp). b < 256"
  by (auto simp: utf8_def)

lemma decodeURIComponent_percent:
  "decodeURIComponent (percent # cs) =
     (case decodeStep percent cs of
        Inl e \<Rightarrow> Inl e
      | Inr (out, k) \<Rightarrow>
          (case decodeURIComponent (drop k cs) of
             Inl e \<Rightarrow> Inl e
           | Inr r \<Rightarrow> Inr (out @ r)))"
  by simp

lemma decode_escaped1:
  assumes "cp < 128"
  shows "decodeURIComponent (escapeOctets (utf8 cp) @ t) =
     (case decodeURIComponent t of Inl e \<Rightarrow> Inl e | Inr r \<Rightarrow> Inr (utf16 cp @ r))"
proof -
  have u: "utf8 cp = [cp]" using assms by (simp add: utf8_def)
  have e: "escapeOctets [cp] @ t = percent # (hexDigit (cp div 16) # hexDigit (cp mod 16) # t)"
    by (simp add: escapeOctets_def escapeOctet_def)
  have p: "parseEscape (percent # (hexDigit (cp div 16) # hexDigit (cp mod 16) # t)) = Some (cp, t)"
    using parseEscape_escapeOctet[of cp t] assms by (simp add: escapeOctet_def)
  have s: "decodeStep percent (hexDigit (cp div 16) # hexDigit (cp mod 16) # t) = Inr ([of_nat cp], 2)"
    unfolding decodeStep_def p using assms by simp
  show ?thesis
    unfolding u e decodeURIComponent_percent s using assms by (simp add: utf16_def cong: sum.case_cong)
qed

lemma decode_escaped_multi:
  assumes u: "utf8 cp = b # bs" and b: "192 \<le> b" "b < 248"
    and n: "length bs = (if b < 224 then 2 else if b < 240 then 3 else 4) - 1"
    and bytes: "\<forall>x\<in>set (b # bs). x < 256"
    and d: "utf8Decode (b # bs) = Some cp"
  shows "decodeURIComponent (escapeOctets (utf8 cp) @ t) =
     (case decodeURIComponent t of Inl e \<Rightarrow> Inl e | Inr r \<Rightarrow> Inr (utf16 cp @ r))"
proof -
  let ?cs = "hexDigit (b div 16) # hexDigit (b mod 16) # (escapeOctets bs @ t)"
  have e: "escapeOctets (b # bs) @ t = percent # ?cs"
    by (simp add: escapeOctets_def escapeOctet_def)
  have p: "parseEscape (percent # ?cs) = Some (b, escapeOctets bs @ t)"
    using parseEscape_escapeOctet[of b "escapeOctets bs @ t"] bytes by (simp add: escapeOctet_def)
  have ps: "parseEscapes (length bs) (escapeOctets bs @ t) = Some (bs, t)"
    using parseEscapes_escapeOctets[of bs t] bytes by simp
  have len: "length (escapeOctets bs) = 3 * length bs"
    by (induction bs) (simp_all add: escapeOctets_def escapeOctet_def)
  have s: "decodeStep percent ?cs = Inr (utf16 cp, 2 + 3 * length bs)"
    unfolding decodeStep_def p using b n ps d by (simp add: Let_def)
  have dr: "drop (2 + 3 * length bs) ?cs = t"
    using len by simp
  show ?thesis
    unfolding u e decodeURIComponent_percent s by (simp only: dr sum.case prod.case)
qed

lemma utf8Decode_utf8_2:
  assumes "128 \<le> cp" "cp < 2048"
  shows "utf8Decode [192 + cp div 64, 128 + cp mod 64] = Some cp"
proof -
  have "cp div 64 < 32" using assms by simp
  then show ?thesis using assms by (simp add: isContinuation_def Let_def)
qed

lemma split64: "(n::nat) = 64 * (n div 64) + n mod 64"
  by simp

lemma arith3: "(cp::nat) div 4096 * 4096 + (cp div 64) mod 64 * 64 + cp mod 64 = cp"
proof -
  have c: "cp div 64 div 64 = cp div 4096" by (simp add: div_mult2_eq)
  show ?thesis
    using split64[of cp] split64[of "cp div 64"] unfolding c by linarith
qed

lemma arith4:
  "(cp::nat) div 262144 * 262144 + (cp div 4096) mod 64 * 4096 + (cp div 64) mod 64 * 64 + cp mod 64 = cp"
proof -
  have c: "cp div 64 div 64 = cp div 4096" by (simp add: div_mult2_eq)
  have d: "cp div 4096 div 64 = cp div 262144" by (simp add: div_mult2_eq)
  show ?thesis
    using split64[of cp] split64[of "cp div 64"] split64[of "cp div 4096"] unfolding c d by linarith
qed

lemma utf8Decode_utf8_3:
  assumes "2048 \<le> cp" "cp < 65536" "\<not> (55296 \<le> cp \<and> cp \<le> 57343)"
  shows "utf8Decode [224 + cp div 4096, 128 + (cp div 64) mod 64, 128 + cp mod 64] = Some cp"
proof -
  have "cp div 4096 < 16" using assms by simp
  then show ?thesis using assms arith3[of cp] by (simp add: isContinuation_def Let_def)
qed

lemma utf8Decode_utf8_4:
  assumes "65536 \<le> cp" "cp \<le> 1114111"
  shows "utf8Decode [240 + cp div 262144, 128 + (cp div 4096) mod 64, 128 + (cp div 64) mod 64,
         128 + cp mod 64] = Some cp"
proof -
  have "cp div 262144 < 8" using assms by simp
  then show ?thesis using assms arith4[of cp] by (simp add: isContinuation_def Let_def)
qed

lemma mod64_bound: "(n::nat) mod 64 < 128"
  by (rule less_trans[OF mod_less_divisor]) simp_all

lemma decode_escaped:
  assumes "validCodePoint cp"
  shows "decodeURIComponent (escapeOctets (utf8 cp) @ t) =
     (case decodeURIComponent t of Inl e \<Rightarrow> Inl e | Inr r \<Rightarrow> Inr (utf16 cp @ r))"
proof -
  consider "cp < 128" | "128 \<le> cp" "cp < 2048" | "2048 \<le> cp" "cp < 65536" | "65536 \<le> cp"
    by linarith
  then show ?thesis
  proof cases
    case 1
    then show ?thesis by (rule decode_escaped1)
  next
    case 2
    have q: "cp div 64 < 32" using 2 by simp
    show ?thesis
      by (rule decode_escaped_multi[where b = "192 + cp div 64" and bs = "[128 + cp mod 64]"])
         (use 2 q in \<open>simp_all add: mod64_bound utf8_def utf8Decode_utf8_2 del: utf8Decode.simps\<close>)
  next
    case 3
    have q: "cp div 4096 < 16" using 3 by simp
    show ?thesis
      by (rule decode_escaped_multi[where b = "224 + cp div 4096"
             and bs = "[128 + (cp div 64) mod 64, 128 + cp mod 64]"])
         (use 3 q assms in \<open>simp_all add: mod64_bound utf8_def utf8Decode_utf8_3 validCodePoint_def del: utf8Decode.simps\<close>)
  next
    case 4
    have q: "cp div 262144 < 8" using 4 assms by (simp add: validCodePoint_def)
    show ?thesis
      by (rule decode_escaped_multi[where b = "240 + cp div 262144"
             and bs = "[128 + (cp div 4096) mod 64, 128 + (cp div 64) mod 64, 128 + cp mod 64]"])
         (use 4 q assms in \<open>simp_all add: mod64_bound utf8_def utf8Decode_utf8_4 validCodePoint_def del: utf8Decode.simps\<close>)
  qed
qed

lemma isUnreserved_not_percent: "isUnreserved c \<Longrightarrow> c \<noteq> percent"
  by (auto simp: isUnreserved_def percent_def Let_def)

lemma decode_unreserved:
  "isUnreserved c \<Longrightarrow> decodeURIComponent (c # t) =
     (case decodeURIComponent t of Inl e \<Rightarrow> Inl e | Inr r \<Rightarrow> Inr (c # r))"
  by (simp add: decodeStep_def isUnreserved_not_percent cong: sum.case_cong)

lemma valid_bmp:
  "\<not> isLeadSurrogate c \<Longrightarrow> \<not> isTrailSurrogate c \<Longrightarrow> validCodePoint (unat c)"
  using u16_bound[of c] by (auto simp: validCodePoint_def isLeadSurrogate_def isTrailSurrogate_def)

lemma valid_pair:
  "isLeadSurrogate c \<Longrightarrow> isTrailSurrogate d \<Longrightarrow> validCodePoint (surrogatePair c d)"
  using surrogatePair_range[of c d] by (simp add: validCodePoint_def)

text \<open>Decoding what the encoder produced gives the encoder's input back.\<close>

lemma decode_encode:
  "encodeURIComponent z = Inr e \<Longrightarrow> decodeURIComponent e = Inr z"
proof (induction z arbitrary: e rule: encodeURIComponent.induct)
  case 1
  then show ?case by simp
next
  case (2 c cs)
  show ?case
  proof (cases "isUnreserved c")
    case True
    with 2(4) obtain r where r: "encodeURIComponent cs = Inr r" and e: "e = c # r"
      by (auto split: sum.splits)
    have "decodeURIComponent r = Inr cs"
      using "2.IH"(1)[OF True r] .
    then show ?thesis
      by (simp add: e decode_unreserved[OF True] del: decodeURIComponent.simps)
  next
    case unres: False
    show ?thesis
    proof (cases "\<not> isLeadSurrogate c \<and> \<not> isTrailSurrogate c")
      case True
      with 2(4) unres obtain r where r: "encodeURIComponent cs = Inr r"
        and e: "e = escapeOctets (utf8 (unat c)) @ r"
        by (auto split: sum.splits)
      have "decodeURIComponent r = Inr cs"
        using "2.IH"(2)[OF unres True r] .
      then show ?thesis
        using True by (simp add: e decode_escaped valid_bmp utf16_bmp del: decodeURIComponent.simps)
    next
      case False
      with 2(4) unres obtain d ds r where cs: "cs = d # ds" and d: "isTrailSurrogate d"
        and l: "isLeadSurrogate c" and nt: "\<not> isTrailSurrogate c"
        and r: "encodeURIComponent ds = Inr r" and e: "e = escapeOctets (utf8 (surrogatePair c d)) @ r"
        by (auto split: if_splits list.splits sum.splits)
      have "decodeURIComponent r = Inr ds"
        using "2.IH"(3)[OF unres False _ cs d r] nt by simp
      then show ?thesis
        using l d by (simp add: e cs decode_escaped valid_pair utf16_pair del: decodeURIComponent.simps)
    qed
  qed
qed

lemma hexDigit_not_slash: "n < 16 \<Longrightarrow> hexDigit n \<noteq> slash"
  using unat_hexDigit[of n] by (auto simp: slash_def split: if_splits)

lemma escapeOctets_no_slash: "\<forall>b\<in>set bs. b < 256 \<Longrightarrow> slash \<notin> set (escapeOctets bs)"
proof (induction bs)
  case Nil
  then show ?case by (simp add: escapeOctets_def)
next
  case (Cons b bs)
  then have "b div 16 < 16" "b mod 16 < 16" by auto
  with Cons show ?case
    using hexDigit_not_slash[of "b div 16"] hexDigit_not_slash[of "b mod 16"]
    by (auto simp: escapeOctets_def escapeOctet_def percent_def slash_def)
qed

lemma isUnreserved_not_slash: "\<not> isUnreserved slash"
  by (simp add: isUnreserved_def slash_def)

lemma encode_no_slash:
  "encodeURIComponent z = Inr e \<Longrightarrow> slash \<notin> set e"
proof (induction z arbitrary: e rule: encodeURIComponent.induct)
  case 1
  then show ?case by simp
next
  case (2 c cs)
  have b1: "\<forall>b\<in>set (utf8 (unat c)). b < 256"
    using u16_bound[of c] by (intro utf8_bytes) simp
  have b2: "\<And>d. isLeadSurrogate c \<Longrightarrow> isTrailSurrogate d \<Longrightarrow> \<forall>b\<in>set (utf8 (surrogatePair c d)). b < 256"
    using surrogatePair_range by (intro utf8_bytes) simp
  from 2 show ?case
    using escapeOctets_no_slash[OF b1] escapeOctets_no_slash[OF b2]
    by (auto simp: isUnreserved_not_slash split: if_splits sum.splits list.splits)
qed

lemma split_nonempty: "split sep s \<noteq> []"
  by (induction s) (auto split: list.splits)

lemma split_no_sep: "sep \<notin> set s \<Longrightarrow> split sep s = [s]"
  by (induction s) auto

lemma split_append: "sep \<notin> set a \<Longrightarrow> split sep (a @ sep # b) = a # split sep b"
  by (induction a) (auto split: list.splits simp: split_nonempty)

lemma split_join:
  "segs \<noteq> [] \<Longrightarrow> \<forall>s\<in>set segs. sep \<notin> set s \<Longrightarrow> split sep (join sep segs) = segs"
  by (induction sep segs rule: join.induct) (auto simp: split_no_sep split_append)

lemma encodeSegment_cases:
  assumes "encodeSegment seg = Inr e"
  shows "e = [] \<or> (\<exists>z. encodeURIComponent z = Inr e)"
  using assms by (auto simp: encodeSegment_def split: if_splits sum.splits)

lemma encodeSegment_fixed:
  assumes "encodeSegment seg = Inr e"
  shows "encodeSegment e = Inr e"
proof (cases "e = []")
  case True
  then show ?thesis by (simp add: encodeSegment_def)
next
  case False
  with encodeSegment_cases[OF assms] obtain z where z: "encodeURIComponent z = Inr e" by auto
  then show ?thesis
    using decode_encode[OF z] by (simp add: encodeSegment_def)
qed

lemma encodeSegment_no_slash:
  assumes "encodeSegment seg = Inr e"
  shows "slash \<notin> set e"
  using encodeSegment_cases[OF assms] encode_no_slash by auto

lemma mapThrowing_encodeSegment:
  "mapThrowing encodeSegment xs = Inr ys \<Longrightarrow>
     mapThrowing encodeSegment ys = Inr ys \<and> (\<forall>y\<in>set ys. slash \<notin> set y) \<and> length ys = length xs"
proof (induction xs arbitrary: ys)
  case Nil
  then show ?case by simp
next
  case (Cons x xs)
  then obtain e es where e: "encodeSegment x = Inr e" and es: "mapThrowing encodeSegment xs = Inr es"
    and ys: "ys = e # es"
    by (auto split: sum.splits)
  show ?case
    using Cons.IH[OF es] encodeSegment_fixed[OF e] encodeSegment_no_slash[OF e] by (simp add: ys)
qed

lemma not_absolute_slash: "\<not> isAbsoluteUrl (slash # s)"
  by (simp add: isAbsoluteUrl_def js_def slash_def lowerAscii_def)

lemma encodePath_fixed:
  assumes "encodePath p = Inr q"
  shows "encodePath q = Inr q"
proof -
  let ?raw = "if startsWith [slash] p then drop 1 p else p"
  from assms obtain segs where m: "mapThrowing encodeSegment (split slash ?raw) = Inr segs"
    and q: "q = slash # join slash segs"
    by (auto simp: encodePath_def Let_def split: sum.splits)
  from mapThrowing_encodeSegment[OF m] have fixed: "mapThrowing encodeSegment segs = Inr segs"
    and ns: "\<forall>y\<in>set segs. slash \<notin> set y" and len: "length segs = length (split slash ?raw)"
    by auto
  have "segs \<noteq> []" using len split_nonempty[of slash ?raw] by auto
  then have "split slash (join slash segs) = segs"
    using ns by (rule split_join)
  then show ?thesis
    by (simp add: encodePath_def q fixed)
qed

lemma normalizePath_fixed:
  assumes "normalizePath p = Inr q"
  shows "normalizePath q = Inr q"
proof (cases "p = [] \<or> p = [slash]")
  case True
  with assms show ?thesis by (auto simp: normalizePath_def)
next
  case False
  with assms have e: "encodePath p = Inr q"
    by (auto simp: normalizePath_def split: if_splits)
  then obtain r where q: "q = slash # r"
    by (auto simp: encodePath_def Let_def split: sum.splits)
  show ?thesis
    using encodePath_fixed[OF e] not_absolute_slash[of r] by (simp add: normalizePath_def q)
qed

lemma normalizePathCal_fixed:
  assumes "normalizePathCal p = Inr q"
  shows "normalizePathCal q = Inr q"
proof (cases "p = [] \<or> p = [slash]")
  case True
  with assms show ?thesis by (auto simp: normalizePathCal_def)
next
  case False
  show ?thesis
  proof (cases "isAbsoluteUrl p")
    case True
    with assms False have "q = p" by (simp add: normalizePathCal_def)
    with True False show ?thesis by (simp add: normalizePathCal_def)
  next
    case abs: False
    with assms False have e: "encodePath p = Inr q"
      by (auto simp: normalizePathCal_def split: if_splits)
    then obtain r where q: "q = slash # r"
      by (auto simp: encodePath_def Let_def split: sum.splits)
    show ?thesis
      using encodePath_fixed[OF e] not_absolute_slash[of r] by (simp add: normalizePathCal_def q)
  qed
qed

lemma encode_wellFormed: "wellFormed z \<Longrightarrow> \<exists>e. encodeURIComponent z = Inr e"
proof (induction z rule: encodeURIComponent.induct)
  case 1
  then show ?case by simp
next
  case (2 c cs)
  show ?case
  proof (cases "isLeadSurrogate c")
    case True
    with 2(4) obtain d ds where cs: "cs = d # ds" and d: "isTrailSurrogate d" and w: "wellFormed ds"
      by (auto split: list.splits)
    have nt: "\<not> isTrailSurrogate c"
      using True by (auto simp: isLeadSurrogate_def isTrailSurrogate_def)
    have nu: "\<not> isUnreserved c"
      using True by (auto simp: isLeadSurrogate_def isUnreserved_def Let_def)
    from "2.IH"(3)[OF nu _ nt cs d w] True obtain r where "encodeURIComponent ds = Inr r" by auto
    then show ?thesis using True nt nu d by (simp add: cs)
  next
    case False
    with 2(4) have nt: "\<not> isTrailSurrogate c" and w: "wellFormed cs" by auto
    show ?thesis
    proof (cases "isUnreserved c")
      case True
      from "2.IH"(1)[OF True w] show ?thesis using True by auto
    next
      case nu: False
      from "2.IH"(2)[OF nu _ w] False nt show ?thesis using nu by auto
    qed
  qed
qed

lemma encodeSegment_wellFormed: "wellFormed seg \<Longrightarrow> \<exists>e. encodeSegment seg = Inr e"
  using encode_wellFormed[of seg] by (auto simp: encodeSegment_def split: sum.splits)

lemma surrogate_not_slash:
  "isLeadSurrogate c \<or> isTrailSurrogate c \<Longrightarrow> c \<noteq> slash"
  by (auto simp: isLeadSurrogate_def isTrailSurrogate_def slash_def)

lemma split_wellFormed: "wellFormed s \<Longrightarrow> \<forall>seg\<in>set (split slash s). wellFormed seg"
proof (induction s rule: wellFormed.induct)
  case 1
  then show ?case by simp
next
  case (2 c cs)
  show ?case
  proof (cases "isLeadSurrogate c")
    case True
    with 2(3) obtain d ds where cs: "cs = d # ds" and d: "isTrailSurrogate d" and w: "wellFormed ds"
      by (auto split: list.splits)
    have ih: "\<forall>seg\<in>set (split slash ds). wellFormed seg"
      using "2.IH"(1)[OF True cs] d w by simp
    obtain seg segs where sp: "split slash ds = seg # segs"
      using split_nonempty[of slash ds] by (cases "split slash ds") auto
    show ?thesis
      using ih True d surrogate_not_slash[of c] surrogate_not_slash[of d]
      by (simp add: cs sp)
  next
    case False
    with 2(3) have nt: "\<not> isTrailSurrogate c" and w: "wellFormed cs" by auto
    have ih: "\<forall>seg\<in>set (split slash cs). wellFormed seg"
      using "2.IH"(2)[OF False] nt w by simp
    obtain seg segs where sp: "split slash cs = seg # segs"
      using split_nonempty[of slash cs] by (cases "split slash cs") auto
    show ?thesis
      using ih False nt by (simp add: sp)
  qed
qed

lemma mapThrowing_total:
  "\<forall>x\<in>set xs. \<exists>y. f x = Inr y \<Longrightarrow> \<exists>ys. mapThrowing f xs = Inr ys"
  by (induction xs) auto

lemma wellFormed_drop1: "wellFormed p \<Longrightarrow> startsWith [slash] p \<Longrightarrow> wellFormed (drop 1 p)"
  by (cases p) (auto simp: isLeadSurrogate_def slash_def split: if_splits)

lemma encodePath_wellFormed:
  assumes "wellFormed p"
  shows "\<exists>q. encodePath p = Inr q"
proof -
  let ?raw = "if startsWith [slash] p then drop 1 p else p"
  have "wellFormed ?raw" using assms wellFormed_drop1 by simp
  then have "\<forall>seg\<in>set (split slash ?raw). \<exists>e. encodeSegment seg = Inr e"
    using split_wellFormed encodeSegment_wellFormed by blast
  then obtain segs where "mapThrowing encodeSegment (split slash ?raw) = Inr segs"
    using mapThrowing_total by blast
  then show ?thesis by (simp add: encodePath_def)
qed

lemma wellFormed_ascii: "list_all (\<lambda>c. unat c < 128) p \<Longrightarrow> wellFormed p"
  by (induction p) (auto simp: isLeadSurrogate_def isTrailSurrogate_def)

section \<open>Path normalisation on concrete paths\<close>

text \<open>
  C9: \<open>normalizePath\<close> of the WebDAV node maps the empty path and \<open>/\<close> to \<open>/\<close>,
  \<open>calendars/user/My Calendar\<close> to \<open>/calendars/user/My%20Calendar\<close>, and
  \<open>Files/test&file.txt\<close> to \<open>/Files/test%26file.txt\<close>.
\<close>

theorem normalizePath_examples:
  "normalizePath (js '''') = Inr (js ''/'')
   \<and> normalizePath (js ''/'') = Inr (js ''/'')
   \<and> normalizePath (js ''calendars/user/My Calendar'') = Inr (js ''/calendars/user/My%20Calendar'')
   \<and> normalizePath (js ''Files/test&file.txt'') = Inr (js ''/Files/test%26file.txt'')"
  by (simp add: string_eval uri_eval path_eval)


text \<open>
  C6: \<open>normalizePath\<close> is idempotent. On every path, normalising twice has the outcome of
  normalising once; whenever it returns a path, normalising that path again returns it
  unchanged; and it does return on every path that is not an absolute URL and has no
  unpaired surrogate, so in particular on every path of ASCII characters with spaces or
  reserved characters (\<open>wellFormed_ascii\<close>).
\<close>

theorem normalizePath_idempotent:
  "(case normalizePath p of Inl e \<Rightarrow> Inl e | Inr q \<Rightarrow> normalizePath q) = normalizePath p
   \<and> (normalizePath p = Inr q \<longrightarrow> normalizePath q = Inr q)
   \<and> (wellFormed p \<and> \<not> isAbsoluteUrl p \<longrightarrow> (\<exists>r. normalizePath p = Inr r))"
proof -
  have "(case normalizePath p of Inl e \<Rightarrow> Inl e | Inr q \<Rightarrow> normalizePath q) = normalizePath p"
    using normalizePath_fixed[of p] by (cases "normalizePath p") simp_all
  moreover have "normalizePath p = Inr q \<longrightarrow> normalizePath q = Inr q"
    using normalizePath_fixed[of p q] by simp
  moreover have "wellFormed p \<and> \<not> isAbsoluteUrl p \<longrightarrow> (\<exists>r. normalizePath p = Inr r)"
    using encodePath_wellFormed[of p] by (auto simp: normalizePath_def)
  ultimately show ?thesis by (intro conjI)
qed

theorem normalizePath_idempotent_witness:
  "normalizePath (js ''My Files/a&b=c?.txt'') = Inr (js ''/My%20Files/a%26b%3Dc%3F.txt'')
   \<and> normalizePath (js ''/My%20Files/a%26b%3Dc%3F.txt'') = Inr (js ''/My%20Files/a%26b%3Dc%3F.txt'')
   \<and> wellFormed (js ''My Files/a&b=c?.txt'')
   \<and> \<not> isAbsoluteUrl (js ''My Files/a&b=c?.txt'')"
proof -
  have p: "normalizePath (js ''My Files/a&b=c?.txt'') = Inr (js ''/My%20Files/a%26b%3Dc%3F.txt'')"
    by (simp add: string_eval uri_eval path_eval)
  have w: "wellFormed (js ''My Files/a&b=c?.txt'')"
    by (simp add: string_eval uri_eval)
  have a: "\<not> isAbsoluteUrl (js ''My Files/a&b=c?.txt'')"
    by (simp add: string_eval)
  from normalizePath_idempotent[of "js ''My Files/a&b=c?.txt''" "js ''/My%20Files/a%26b%3Dc%3F.txt''"] p
  have "normalizePath (js ''/My%20Files/a%26b%3Dc%3F.txt'') = Inr (js ''/My%20Files/a%26b%3Dc%3F.txt'')"
    by blast
  with p w a show ?thesis by blast
qed

section \<open>The response expression on a document written block by block\<close>

lemma startsWith_append_cases:
  "startsWith p (u @ s) \<Longrightarrow> startsWith p u \<or> (\<exists>p'. p = u @ p' \<and> p' \<noteq> [] \<and> startsWith p' s)"
proof (induction p u rule: startsWith.induct)
  case (1 s)
  then show ?case by simp
next
  case (2 p ps)
  then show ?case by simp
next
  case (3 p ps c cs)
  then show ?case by auto
qed

lemma startsWith_self: "startsWith p (p @ r)"
  by (induction p) auto

lemma startsWith_Cons_hd: "startsWith (x # ps) s \<Longrightarrow> \<exists>s'. s = x # s'"
  by (cases s) auto

text \<open>A pattern whose first code unit does not occur again in it cannot start inside a
  text \<open>u\<close> and end inside a following text that is empty or starts with that code unit.\<close>

lemma no_straddle:
  assumes x: "x \<notin> set ps" and u: "u \<noteq> []" and nu: "\<not> startsWith (x # ps) u"
    and s: "s = [] \<or> (\<exists>s'. s = x # s')"
  shows "\<not> startsWith (x # ps) (u @ s)"
proof
  assume "startsWith (x # ps) (u @ s)"
  from startsWith_append_cases[OF this] nu obtain p' where p: "x # ps = u @ p'" and p': "p' \<noteq> []"
    and sp: "startsWith p' s" by auto
  from p' sp s obtain s' where s': "s = x # s'" by (cases p') auto
  with sp p' have "x \<in> set p'" by (cases p') auto
  moreover from p u have "set p' \<subseteq> set ps" by (cases u) auto
  ultimately show False using x by auto
qed

lemma includesStr_Cons: "includesStr p (c # cs) \<longleftrightarrow> startsWith p (c # cs) \<or> includesStr p cs"
  by simp

lemma openTag_Cons: "openTag tag = lt # tag"
  by (simp add: openTag_def js_def lt_def)

lemma closeTag_Cons: "closeTag tag = lt # (slash # tag @ [gt])"
  by (simp add: closeTag_def js_def lt_def slash_def gt_def)

lemma matchTagAt_None: "\<not> startsWith (openTag tag) s \<Longrightarrow> matchTagAt d tag s = None"
  by (simp add: matchTagAt_def)

lemma execTag_skip:
  assumes "lt \<notin> set tag" and "\<not> includesStr (openTag tag) pre"
    and "s = [] \<or> (\<exists>s'. s = lt # s')"
  shows "execTag d tag (pre @ s) = map_option (\<lambda>(cap, k). (cap, length pre + k)) (execTag d tag s)"
  using assms(2)
proof (induction pre)
  case Nil
  then show ?case by (simp add: option.map_ident split_def)
next
  case (Cons c pre)
  then have ns: "\<not> startsWith (lt # tag) (c # pre)" and ni: "\<not> includesStr (openTag tag) pre"
    by (auto simp: openTag_Cons)
  have "\<not> startsWith (lt # tag) ((c # pre) @ s)"
    by (rule no_straddle[OF assms(1) _ ns assms(3)]) simp
  then have "matchTagAt d tag (c # pre @ s) = None"
    by (simp add: matchTagAt_None openTag_Cons)
  then show ?case
    using Cons.IH[OF ni] by (auto simp: option.map_comp split: option.splits)
qed

lemma execTag_absent:
  assumes "\<not> includesStr (openTag tag) s"
  shows "execTag d tag s = None"
  using assms
proof (induction s)
  case Nil
  then show ?case by (simp add: matchTagAt_def openTag_Cons)
next
  case (Cons c s)
  then show ?case by (auto simp: matchTagAt_None)
qed

lemma lazyUntil_found:
  assumes x: "x \<notin> set cl" and nb: "\<not> includesStr (x # cl) body"
    and lines: "d \<or> \<not> list_ex isLineTerminator body"
  shows "lazyUntil d (x # cl) (body @ (x # cl) @ rest) = Some (body, length body + length (x # cl))"
  using nb lines
proof (induction body)
  case Nil
  then show ?case using startsWith_self[of "x # cl" rest] by simp
next
  case (Cons c body)
  then have ns: "\<not> startsWith (x # cl) (c # body)" and ni: "\<not> includesStr (x # cl) body"
    by auto
  have "\<not> startsWith (x # cl) ((c # body) @ ((x # cl) @ rest))"
    by (rule no_straddle[OF x _ ns]) simp_all
  then have n: "\<not> startsWith (x # cl) (c # body @ (x # cl) @ rest)" by simp
  have l: "\<not> (\<not> d \<and> isLineTerminator c)" "d \<or> \<not> list_ex isLineTerminator body"
    using Cons.prems(2) by auto
  show ?case
    using Cons.IH[OF ni l(2)] n l(1) by (simp del: startsWith.simps)
qed

lemma takeWhile_attrs: "gt \<notin> set attrs \<Longrightarrow> takeWhile (\<lambda>c. c \<noteq> gt) (attrs @ gt # r) = attrs"
  by (induction attrs) auto

lemma matchTagAt_element:
  assumes "lt \<notin> set tag" "gt \<notin> set attrs" "\<not> includesStr (closeTag tag) body"
    and "d \<or> \<not> list_ex isLineTerminator body"
  shows "matchTagAt d tag (openTag tag @ attrs @ gt # body @ closeTag tag @ rest)
         = Some (body, length (openTag tag) + length attrs + 1 + (length body + length (closeTag tag)))"
proof -
  have x: "lt \<notin> set (slash # tag @ [gt])"
    using assms(1) by (simp add: lt_def slash_def gt_def)
  have l: "lazyUntil d (closeTag tag) (body @ closeTag tag @ rest)
           = Some (body, length body + length (closeTag tag))"
    unfolding closeTag_Cons
    by (rule lazyUntil_found[OF x assms(3)[unfolded closeTag_Cons] assms(4)])
  show ?thesis
    using l by (simp add: matchTagAt_def startsWith_self Let_def takeWhile_attrs[OF assms(2)])
qed

lemma execTag_element:
  assumes "lt \<notin> set tag" "\<not> includesStr (openTag tag) pre" "gt \<notin> set attrs"
    "\<not> includesStr (closeTag tag) body" "d \<or> \<not> list_ex isLineTerminator body"
  shows "execTag d tag (pre @ openTag tag @ attrs @ gt # body @ closeTag tag @ rest)
         = Some (body, length pre + (length (openTag tag) + length attrs + 1 + (length body + length (closeTag tag))))"
proof -
  let ?s = "openTag tag @ attrs @ gt # body @ closeTag tag @ rest"
  have s: "?s = lt # (tag @ attrs @ gt # body @ closeTag tag @ rest)"
    by (simp add: openTag_Cons)
  have m: "execTag d tag ?s = matchTagAt d tag ?s"
    using matchTagAt_element[OF assms(1,3,4,5), of rest] unfolding s by simp
  have "execTag d tag (pre @ ?s) = map_option (\<lambda>(cap, k). (cap, length pre + k)) (execTag d tag ?s)"
    by (rule execTag_skip[OF assms(1,2)]) (simp add: openTag_Cons)
  then show ?thesis
    using matchTagAt_element[OF assms(1,3,4,5), of rest] m by simp
qed

lemma response_tag: "lt \<notin> set (js ''D:response'')"
  by (simp add: js_def lt_def)

lemma response_open: "js ''<D:response'' = openTag (js ''D:response'')"
  by (simp add: openTag_def js_def)

lemma response_close: "js ''</D:response>'' = closeTag (js ''D:response'')"
  by (simp add: closeTag_def js_def)

lemma renderBlock_tags:
  "renderBlock b = openTag (js ''D:response'') @ rb_attrs b @ gt # rb_body b
                   @ closeTag (js ''D:response'') @ rb_after b"
  by (simp add: renderBlock_def response_open response_close) (simp add: js_def gt_def)

lemma responseLoop_done:
  assumes "\<not> includesStr (js ''<D:response'') s"
  shows "responseLoop f s acc = Inr acc"
proof (cases s)
  case Nil
  then show ?thesis by simp
next
  case (Cons c cs)
  have "execTag True (js ''D:response'') s = None"
    using assms by (intro execTag_absent) (simp add: response_open)
  then show ?thesis by (simp add: Cons)
qed

lemma responseLoop_block:
  assumes pre: "\<not> includesStr (js ''<D:response'') pre" and wf: "wellFormedBlock b"
  shows "responseLoop f (pre @ renderBlock b @ rest) acc =
           (case f (rb_body b) acc of
              Inl e \<Rightarrow> Inl e
            | Inr acc' \<Rightarrow> responseLoop f (rb_after b @ rest) acc')"
proof -
  let ?tag = "js ''D:response''"
  let ?k = "length pre + (length (openTag ?tag) + length (rb_attrs b) + 1
              + (length (rb_body b) + length (closeTag ?tag)))"
  let ?s = "pre @ renderBlock b @ rest"
  have s: "?s = pre @ openTag ?tag @ rb_attrs b @ gt # rb_body b @ closeTag ?tag @ (rb_after b @ rest)"
    by (simp add: renderBlock_tags)
  have e: "execTag True ?tag ?s = Some (rb_body b, ?k)"
    unfolding s
    using pre wf
    by (intro execTag_element response_tag) (simp_all add: wellFormedBlock_def response_open response_close)
  obtain c cs where cs: "?s = c # cs"
    by (cases ?s) (simp_all add: renderBlock_tags openTag_Cons)
  have "drop ?k ?s = rb_after b @ rest"
    unfolding s by simp
  moreover have "0 < ?k" by (simp add: openTag_Cons)
  ultimately have d: "drop (?k - 1) cs = rb_after b @ rest"
    unfolding cs by (cases ?k) simp_all
  show ?thesis
    using e d unfolding cs by (simp cong: sum.case_cong)
qed

lemma responseLoop_document:
  assumes "\<not> includesStr (js ''<D:response'') prolog" and "list_all wellFormedBlock bs"
  shows "responseLoop f (renderDocument prolog bs) acc = runBodies f (map rb_body bs) acc"
  using assms
proof (induction bs arbitrary: prolog acc)
  case Nil
  then show ?case by (simp add: renderDocument_def responseLoop_done)
next
  case (Cons b bs)
  then have wf: "wellFormedBlock b" and rest: "list_all wellFormedBlock bs" by auto
  then have after: "\<not> includesStr (js ''<D:response'') (rb_after b)"
    by (simp add: wellFormedBlock_def)
  have "responseLoop f (renderDocument prolog (b # bs)) acc =
          (case f (rb_body b) acc of
             Inl e \<Rightarrow> Inl e
           | Inr acc' \<Rightarrow> responseLoop f (renderDocument (rb_after b) bs) acc')"
    using responseLoop_block[OF Cons.prems(1) wf, of f "concat (map renderBlock bs)" acc]
    by (simp add: renderDocument_def split: sum.splits)
  then show ?case
    using Cons.IH[OF after rest] by (simp split: sum.splits)
qed

lemma propfind_runBodies:
  assumes "list_all hrefDecodes xs"
  shows "\<exists>rs. runBodies (propfindBody pI) xs acc = Inr (acc @ rs)
              \<and> map pf_href rs = List.map_filter hrefOf xs"
  using assms
proof (induction xs arbitrary: acc)
  case Nil
  then show ?case by (simp add: List.map_filter_simps)
next
  case (Cons x xs)
  then have dx: "hrefDecodes x" and dxs: "list_all hrefDecodes xs" by auto
  show ?case
  proof (cases "matchTag False (js ''D:href'') x")
    case None
    then have "propfindBody pI x acc = Inr acc" "hrefOf x = None"
      by (simp_all add: propfindBody_def hrefOf_def)
    then show ?thesis
      using Cons.IH[OF dxs, of acc] by (simp add: List.map_filter_simps)
  next
    case (Some h)
    with dx obtain d where d: "decodeURIComponent h = Inr d"
      by (auto simp: hrefDecodes_def split: sum.splits)
    obtain r where r: "propfindBody pI x acc = Inr (acc @ [r])" and hr: "pf_href r = d"
      using Some d by (simp add: propfindBody_def Let_def)
    have h: "hrefOf x = Some d" using Some d by (simp add: hrefOf_def)
    from Cons.IH[OF dxs, of "acc @ [r]"] obtain rs
      where rs: "runBodies (propfindBody pI) xs (acc @ [r]) = Inr ((acc @ [r]) @ rs)"
        and m: "map pf_href rs = List.map_filter hrefOf xs" by blast
    show ?thesis
      by (rule exI[of _ "r # rs"]) (simp add: r rs m hr h List.map_filter_simps)
  qed
qed

lemma collection_runBodies:
  assumes "list_all hrefDecodes xs"
  shows "\<exists>rs. runBodies (collectionBody tag) xs acc = Inr (acc @ rs)
              \<and> map ci_href rs = List.map_filter hrefOf xs"
  using assms
proof (induction xs arbitrary: acc)
  case Nil
  then show ?case by (simp add: List.map_filter_simps)
next
  case (Cons x xs)
  then have dx: "hrefDecodes x" and dxs: "list_all hrefDecodes xs" by auto
  show ?case
  proof (cases "matchTag False (js ''D:href'') x")
    case None
    then have "collectionBody tag x acc = Inr acc" "hrefOf x = None"
      by (simp_all add: collectionBody_def hrefOf_def)
    then show ?thesis
      using Cons.IH[OF dxs, of acc] by (simp add: List.map_filter_simps)
  next
    case (Some h)
    with dx obtain d where d: "decodeURIComponent h = Inr d"
      by (auto simp: hrefDecodes_def split: sum.splits)
    obtain r where r: "collectionBody tag x acc = Inr (acc @ [r])" and hr: "ci_href r = d"
      using Some d by (simp add: collectionBody_def Let_def)
    have h: "hrefOf x = Some d" using Some d by (simp add: hrefOf_def)
    from Cons.IH[OF dxs, of "acc @ [r]"] obtain rs
      where rs: "runBodies (collectionBody tag) xs (acc @ [r]) = Inr ((acc @ [r]) @ rs)"
        and m: "map ci_href rs = List.map_filter hrefOf xs" by blast
    show ?thesis
      by (rule exI[of _ "r # rs"]) (simp add: r rs m hr h List.map_filter_simps)
  qed
qed

lemma data_runBodies:
  assumes "list_all hrefDecodes xs"
  shows "\<exists>rs. runBodies (dataBody tag) xs acc = Inr (acc @ rs)
              \<and> map dr_href rs = List.map_filter (dataHrefOf tag) xs"
  using assms
proof (induction xs arbitrary: acc)
  case Nil
  then show ?case by (simp add: List.map_filter_simps)
next
  case (Cons x xs)
  then have dx: "hrefDecodes x" and dxs: "list_all hrefDecodes xs" by auto
  let ?g = "dataHrefOf tag"
  show ?case
  proof (cases "matchTag False (js ''D:href'') x = None \<or> matchTag True tag x = None")
    case True
    then have "dataBody tag x acc = Inr acc" "?g x = None"
      by (auto simp: dataBody_def hrefOf_def dataHrefOf_def split: option.splits)
    then show ?thesis
      using Cons.IH[OF dxs, of acc] by (simp add: List.map_filter_simps)
  next
    case False
    then obtain h c where h: "matchTag False (js ''D:href'') x = Some h"
      and c: "matchTag True tag x = Some c" by auto
    with dx obtain d where d: "decodeURIComponent h = Inr d"
      by (auto simp: hrefDecodes_def split: sum.splits)
    obtain r where r: "dataBody tag x acc = Inr (acc @ [r])" and hr: "dr_href r = d"
      using h c d by (simp add: dataBody_def Let_def)
    have g: "?g x = Some d" using h c d by (simp add: hrefOf_def dataHrefOf_def)
    from Cons.IH[OF dxs, of "acc @ [r]"] obtain rs
      where rs: "runBodies (dataBody tag) xs (acc @ [r]) = Inr ((acc @ [r]) @ rs)"
        and m: "map dr_href rs = List.map_filter ?g xs" by blast
    show ?thesis
      by (rule exI[of _ "r # rs"]) (simp add: r rs m hr g List.map_filter_simps)
  qed
qed

lemma map_filter_all:
  "list_all (\<lambda>x. f x \<noteq> None) xs \<Longrightarrow> length (List.map_filter f xs) = length xs"
  by (induction xs) (auto simp: List.map_filter_simps)

lemma map_filter_map: "List.map_filter f (map g xs) = List.map_filter (\<lambda>x. f (g x)) xs"
  by (induction xs) (auto simp: List.map_filter_simps split: option.splits)

lemma list_all_map: "list_all P (map g xs) = list_all (\<lambda>x. P (g x)) xs"
  by (induction xs) auto

lemma href_tag: "lt \<notin> set (js ''D:href'')"
  by (simp add: js_def lt_def)

lemma hrefOf_absent:
  assumes "\<not> includesStr (js ''<D:href'') x"
  shows "hrefOf x = None"
proof -
  have "execTag False (js ''D:href'') x = None"
    using assms by (intro execTag_absent) (simp add: openTag_def js_def)
  then show ?thesis by (simp add: hrefOf_def matchTag_def)
qed

lemma hrefOf_element:
  assumes "\<not> includesStr (js ''<D:href'') x" and "gt \<notin> set attrs"
    and "\<not> includesStr (js ''</D:href>'') h" and "\<not> list_ex isLineTerminator h"
    and "decodeURIComponent h = Inr d"
  shows "hrefOf (x @ js ''<D:href'' @ attrs @ js ''>'' @ h @ js ''</D:href>'' @ y) = Some d"
proof -
  have o: "js ''<D:href'' = openTag (js ''D:href'')" and c: "js ''</D:href>'' = closeTag (js ''D:href'')"
    and g: "js ''>'' = [gt]"
    by (simp_all add: openTag_def closeTag_def js_def gt_def)
  have "execTag False (js ''D:href'')
          (x @ openTag (js ''D:href'') @ attrs @ gt # h @ closeTag (js ''D:href'') @ y)
        = Some (h, length x + (length (openTag (js ''D:href'')) + length attrs + 1
                 + (length h + length (closeTag (js ''D:href'')))))"
    using assms(1-4) by (intro execTag_element href_tag) (simp_all add: o c)
  then show ?thesis
    using assms(5) by (simp add: hrefOf_def matchTag_def o c g)
qed

section \<open>Records of a multi-status document\<close>

text \<open>
  C5, as amended: for a document written as a prolog and N well-formed response blocks, in
  which every href that matches is a valid percent-encoding, \<open>parsePropfindResponse\<close>,
  \<open>parseCalendarsResponse\<close> and \<open>parseAddressBooksResponse\<close> return, in document order and
  without sorting or removing duplicates, one record for each block in which the href
  expression matches, and none for a block in which it does not; so exactly N records when
  it matches in every block. \<open>parseEventsResponse\<close> and \<open>parseContactsResponse\<close> return a
  record only for the blocks in which the data expression matches as well.
  (By \<open>hrefOf_element\<close> the href expression matches in a block that contains a
  \<open><D:href>\<close> element written on one line, and by \<open>hrefOf_absent\<close> it does not match in
  a block without the text \<open><D:href\<close>.)
\<close>

theorem response_records:
  assumes "\<not> includesStr (js ''<D:response'') prolog"
    and "list_all wellFormedBlock bs"
    and "list_all (\<lambda>b. hrefDecodes (rb_body b)) bs"
  shows "(\<exists>rs. parsePropfindResponse pI (renderDocument prolog bs) = Inr rs
            \<and> map pf_href rs = List.map_filter (\<lambda>b. hrefOf (rb_body b)) bs
            \<and> (list_all (\<lambda>b. hrefOf (rb_body b) \<noteq> None) bs \<longrightarrow> length rs = length bs))
       \<and> (\<exists>rs. parseCalendarsResponse (renderDocument prolog bs) = Inr rs
            \<and> map ci_href rs = List.map_filter (\<lambda>b. hrefOf (rb_body b)) bs)
       \<and> (\<exists>rs. parseAddressBooksResponse (renderDocument prolog bs) = Inr rs
            \<and> map ci_href rs = List.map_filter (\<lambda>b. hrefOf (rb_body b)) bs)
       \<and> (\<exists>rs. parseEventsResponse (renderDocument prolog bs) = Inr rs
            \<and> map dr_href rs
                = List.map_filter (\<lambda>b. dataHrefOf (js ''C:calendar-data'') (rb_body b)) bs)
       \<and> (\<exists>rs. parseContactsResponse (renderDocument prolog bs) = Inr rs
            \<and> map dr_href rs
                = List.map_filter (\<lambda>b. dataHrefOf (js ''C:address-data'') (rb_body b)) bs)"
proof -
  have d: "list_all hrefDecodes (map rb_body bs)"
    using assms(3) by (simp add: list_all_map)
  note loop = responseLoop_document[OF assms(1,2)]
  from propfind_runBodies[OF d, of pI "[]"] obtain rs
    where rs: "runBodies (propfindBody pI) (map rb_body bs) [] = Inr rs"
      and m: "map pf_href rs = List.map_filter (\<lambda>b. hrefOf (rb_body b)) bs"
    by (auto simp: map_filter_map)
  have len: "list_all (\<lambda>b. hrefOf (rb_body b) \<noteq> None) bs \<longrightarrow> length rs = length bs"
    using m map_filter_all[of "\<lambda>b. hrefOf (rb_body b)" bs] by (metis length_map)
  have 1: "\<exists>rs. parsePropfindResponse pI (renderDocument prolog bs) = Inr rs
            \<and> map pf_href rs = List.map_filter (\<lambda>b. hrefOf (rb_body b)) bs
            \<and> (list_all (\<lambda>b. hrefOf (rb_body b) \<noteq> None) bs \<longrightarrow> length rs = length bs)"
    using rs m len by (simp add: parsePropfindResponse_def loop)
  have 2: "\<exists>rs. parseCalendarsResponse (renderDocument prolog bs) = Inr rs
            \<and> map ci_href rs = List.map_filter (\<lambda>b. hrefOf (rb_body b)) bs"
    using collection_runBodies[OF d, of "js ''C:calendar-description''" "[]"]
    by (simp add: parseCalendarsResponse_def loop map_filter_map)
  have 3: "\<exists>rs. parseAddressBooksResponse (renderDocument prolog bs) = Inr rs
            \<and> map ci_href rs = List.map_filter (\<lambda>b. hrefOf (rb_body b)) bs"
    using collection_runBodies[OF d, of "js ''C:addressbook-description''" "[]"]
    by (simp add: parseAddressBooksResponse_def loop map_filter_map)
  have 4: "\<exists>rs. parseEventsResponse (renderDocument prolog bs) = Inr rs
            \<and> map dr_href rs
                = List.map_filter (\<lambda>b. dataHrefOf (js ''C:calendar-data'') (rb_body b)) bs"
    using data_runBodies[OF d, of "js ''C:calendar-data''" "[]"]
    by (simp add: parseEventsResponse_def loop map_filter_map)
  have 5: "\<exists>rs. parseContactsResponse (renderDocument prolog bs) = Inr rs
            \<and> map dr_href rs
                = List.map_filter (\<lambda>b. dataHrefOf (js ''C:address-data'') (rb_body b)) bs"
    using data_runBodies[OF d, of "js ''C:address-data''" "[]"]
    by (simp add: parseContactsResponse_def loop map_filter_map)
  show ?thesis
    by (intro conjI 1 2 3 4 5)
qed

theorem response_records_witness:
  "\<not> includesStr (js ''<D:response'') (js ''<D:multistatus>'')
   \<and> list_all wellFormedBlock
        [\<lparr>rb_attrs = [], rb_body = js ''<D:href>/a%20b</D:href>'', rb_after = []\<rparr>,
         \<lparr>rb_attrs = [], rb_body = js ''<D:status/>'', rb_after = js ''</D:multistatus>''\<rparr>]
   \<and> list_all (\<lambda>b. hrefDecodes (rb_body b))
        [\<lparr>rb_attrs = [], rb_body = js ''<D:href>/a%20b</D:href>'', rb_after = []\<rparr>,
         \<lparr>rb_attrs = [], rb_body = js ''<D:status/>'', rb_after = js ''</D:multistatus>''\<rparr>]
   \<and> (\<exists>rs. parsePropfindResponse (\<lambda>s. None)
               (js ''<D:multistatus><D:response><D:href>/a%20b</D:href></D:response><D:response><D:status/></D:response></D:multistatus>'')
             = Inr rs
           \<and> map pf_href rs = [js ''/a b''])"
proof -
  let ?bs = "[\<lparr>rb_attrs = [], rb_body = js ''<D:href>/a%20b</D:href>'', rb_after = []\<rparr>,
         \<lparr>rb_attrs = [], rb_body = js ''<D:status/>'', rb_after = js ''</D:multistatus>''\<rparr>]"
  have p: "\<not> includesStr (js ''<D:response'') (js ''<D:multistatus>'')"
    by (simp add: js_def)
  have w: "list_all wellFormedBlock ?bs"
    by (simp add: wellFormedBlock_def js_def gt_def)
  have h1: "hrefOf (js ''<D:href>/a%20b</D:href>'') = Some (js ''/a b'')"
    by (simp add: hrefOf_def string_eval uri_eval regex_eval)
  have h2: "hrefOf (js ''<D:status/>'') = None"
    by (simp add: hrefOf_def string_eval uri_eval regex_eval)
  have d: "list_all (\<lambda>b. hrefDecodes (rb_body b)) ?bs"
    by (simp add: hrefDecodes_def string_eval uri_eval regex_eval)
  have doc: "renderDocument (js ''<D:multistatus>'') ?bs =
      js ''<D:multistatus><D:response><D:href>/a%20b</D:href></D:response><D:response><D:status/></D:response></D:multistatus>''"
    by (simp add: renderDocument_def renderBlock_def js_def)
  have f: "List.map_filter (\<lambda>b. hrefOf (rb_body b)) ?bs = [js ''/a b'']"
    by (simp only: List.map_filter_simps responseBlock.simps h1 h2 option.case)
  have "\<exists>rs. parsePropfindResponse (\<lambda>s. None) (renderDocument (js ''<D:multistatus>'') ?bs) = Inr rs
            \<and> map pf_href rs = List.map_filter (\<lambda>b. hrefOf (rb_body b)) ?bs
            \<and> (list_all (\<lambda>b. hrefOf (rb_body b) \<noteq> None) ?bs \<longrightarrow> length rs = length ?bs)"
    by (rule conjunct1[OF response_records[OF p w d, of "\<lambda>s. None"]])
  then obtain rs where a: "parsePropfindResponse (\<lambda>s. None) (renderDocument (js ''<D:multistatus>'') ?bs) = Inr rs"
      and b: "map pf_href rs = List.map_filter (\<lambda>b. hrefOf (rb_body b)) ?bs"
    by (elim exE conjE)
  have c: "\<exists>rs. parsePropfindResponse (\<lambda>s. None)
               (js ''<D:multistatus><D:response><D:href>/a%20b</D:href></D:response><D:response><D:status/></D:response></D:multistatus>'')
             = Inr rs \<and> map pf_href rs = [js ''/a b'']"
    by (rule exI[of _ rs], rule conjI, rule a[unfolded doc], rule b[unfolded f])
  show ?thesis
    by (intro conjI p w d c)
qed

text \<open>
  As stated, C5 fails for \<open>parseEventsResponse\<close>: a block that contains an href but no
  calendar data yields no record.
\<close>

theorem events_block_with_href_dropped:
  "matchTag False (js ''D:href'') (js ''<D:href>/cal/e1.ics</D:href>'') = Some (js ''/cal/e1.ics'')
   \<and> parseEventsResponse (js ''<D:response><D:href>/cal/e1.ics</D:href></D:response>'') = Inr []"
  by (simp add: string_eval uri_eval regex_eval parser_eval)

text \<open>
  C4 fails on the code: the parsers pass the matched href to \<open>decodeURIComponent\<close>
  outside any \<open>try\<close>, so a response whose href holds a malformed escape (here a file
  named \<open>100%\<close>) makes the parsers of the property listing and of the calendar listing
  throw \<open>URIError\<close> instead of returning records.
\<close>

theorem extractor_throws_on_malformed_escape:
  "parsePropfindResponse pI (js ''<D:response><D:href>/100%</D:href></D:response>'') = Inl URIError
   \<and> parseCalendarsResponse (js ''<D:response><D:href>/100%</D:href></D:response>'') = Inl URIError"
  by (simp add: string_eval uri_eval regex_eval parser_eval)

section \<open>The error translator\<close>

lemma startsWith_prefix: "startsWith p (p @ r)"
  by (induction p) auto

lemma includesStr_middle: "includesStr p (a @ p @ b)"
proof (induction a)
  case Nil
  show ?case using startsWith_prefix[of p b] by (cases "p @ b") (auto simp: neq_Nil_conv)
next
  case (Cons c a)
  then show ?case by simp
qed

text \<open>
  C8, as amended: for every caught value whose \<open>code\<close> is \<open>ENOTFOUND\<close> and whose message
  does not contain \<open>Invalid URL\<close> (in any case), \<open>toFriendlyError\<close> returns
  \<open>Host not found for ...\<close>, which contains the operation, the resource and the attempted
  URL; the rules are tried in order and the test for \<open>Invalid URL\<close> comes first, so a
  message that contains it gives the \<open>Invalid URL\<close> text whatever the code.
\<close>

theorem toFriendlyError_host_not_found:
  "(es_code e = VStr (js ''ENOTFOUND'') \<and> \<not> includesCI (js ''Invalid URL'') (errorText e)
      \<longrightarrow> toFriendlyError label operation e u resource
            = js ''Host not found for '' @ friendlyBase label operation resource u
              @ js ''. Check the server hostname in credentials.''
          \<and> includesStr (js ''Host not found'') (toFriendlyError label operation e u resource)
          \<and> includesStr operation (toFriendlyError label operation e u resource)
          \<and> includesStr resource (toFriendlyError label operation e u resource)
          \<and> includesStr u (toFriendlyError label operation e u resource))
   \<and> (includesCI (js ''Invalid URL'') (errorText e)
      \<longrightarrow> toFriendlyError label operation e u resource
            = js ''Invalid URL for '' @ friendlyBase label operation resource u
              @ js ''. Ensure Base URL has protocol (https://) and path starts with \"/\". Spaces/special chars are auto-encoded.'')"
proof -
  let ?t = "js ''Host not found for '' @ friendlyBase label operation resource u
              @ js ''. Check the server hostname in credentials.''"
  have h: "js ''Host not found for '' = js ''Host not found'' @ js '' for ''"
    by (simp add: js_def)
  have 1: "includesStr (js ''Host not found'') ?t"
    unfolding h using includesStr_middle[of "js ''Host not found''" "[]"] by simp
  have 2: "includesStr operation ?t"
    using includesStr_middle[of operation "js ''Host not found for '' @ label @ js '' ''"]
    by (simp add: friendlyBase_def)
  have 3: "includesStr resource ?t"
    using includesStr_middle[of resource "js ''Host not found for '' @ label @ js '' '' @ operation @ js '' on ''"]
    by (simp add: friendlyBase_def)
  have 4: "includesStr u ?t"
    using includesStr_middle[of u "js ''Host not found for '' @ label @ js '' '' @ operation @ js '' on '' @ resource @ js '': \"''"]
    by (simp add: friendlyBase_def)
  show ?thesis
    using 1 2 3 4 by (simp add: toFriendlyError_def Let_def)
qed

theorem toFriendlyError_host_not_found_witness:
  "es_code (shapeOf (\<lambda>msg. msg) (hostError (js ''getaddrinfo ENOTFOUND dav.example.com'') (VStr (js ''ENOTFOUND''))))
     = VStr (js ''ENOTFOUND'')
   \<and> \<not> includesCI (js ''Invalid URL'')
         (errorText (shapeOf (\<lambda>msg. msg) (hostError (js ''getaddrinfo ENOTFOUND dav.example.com'') (VStr (js ''ENOTFOUND'')))))
   \<and> toFriendlyError (js ''WebDAV'') (js ''get'')
         (shapeOf (\<lambda>msg. msg) (hostError (js ''getaddrinfo ENOTFOUND dav.example.com'') (VStr (js ''ENOTFOUND''))))
         (js ''/f'') (js ''file'')
       = js ''Host not found for WebDAV get on file: \"/f\". Check the server hostname in credentials.''"
proof -
  let ?e = "shapeOf (\<lambda>msg. msg) (hostError (js ''getaddrinfo ENOTFOUND dav.example.com'') (VStr (js ''ENOTFOUND'')))"
  have c: "es_code ?e = VStr (js ''ENOTFOUND'')"
    by (simp add: hostError_def plainShape_def)
  have n: "\<not> includesCI (js ''Invalid URL'') (errorText ?e)"
    by (simp add: hostError_def translator_eval string_eval)
  have "toFriendlyError (js ''WebDAV'') (js ''get'') ?e (js ''/f'') (js ''file'')
          = js ''Host not found for '' @ friendlyBase (js ''WebDAV'') (js ''get'') (js ''file'') (js ''/f'')
            @ js ''. Check the server hostname in credentials.''"
    by (rule conjunct1[OF mp[OF conjunct1[OF toFriendlyError_host_not_found] conjI[OF c n]]])
  also have "\<dots> = js ''Host not found for WebDAV get on file: \"/f\". Check the server hostname in credentials.''"
    by (simp add: friendlyBase_def js_def)
  finally show ?thesis
    using c n by (intro conjI)
qed

text \<open>
  As stated, C8 fails: a value with code \<open>ENOTFOUND\<close> whose message is \<open>Invalid URL\<close> is
  translated by the first rule, and the result does not contain \<open>Host not found\<close>.
\<close>

theorem host_not_found_counterexample:
  "es_code \<lparr> es_message = VStr (js ''Invalid URL''), es_asString = js ''Error: Invalid URL'',
          es_code = VStr (js ''ENOTFOUND''), es_statusCode = VUndefined,
          es_responseStatus = VUndefined, es_responseStatusText = VUndefined,
          es_causeStatus = VUndefined, es_causeStatusText = VUndefined \<rparr> = VStr (js ''ENOTFOUND'')
   \<and> \<not> includesStr (js ''Host not found'')
        (toFriendlyError (js ''WebDAV'') (js ''get'')
          \<lparr> es_message = VStr (js ''Invalid URL''), es_asString = js ''Error: Invalid URL'',
            es_code = VStr (js ''ENOTFOUND''), es_statusCode = VUndefined,
            es_responseStatus = VUndefined, es_responseStatusText = VUndefined,
            es_causeStatus = VUndefined, es_causeStatusText = VUndefined \<rparr>
          (js ''/f'') (js ''file''))"
  by (simp add: translator_eval string_eval)

section \<open>Requests of the WebDAV node\<close>

text \<open>A path that \<open>normalizePath\<close> returned is not absolute and is normalised again to
  itself, so \<open>doRequest\<close> on such a path hands the helper one request, for the path after
  \<open>baseRoot\<close>.\<close>

lemma normalizePath_relative:
  assumes "normalizePath p = Inr u"
  shows "\<not> isAbsoluteUrl u"
proof (cases "p = [] \<or> p = [slash]")
  case True
  with assms have "u = [slash]" by (auto simp: normalizePath_def)
  then show ?thesis by (simp add: not_absolute_slash)
next
  case False
  with assms have "encodePath p = Inr u"
    by (auto simp: normalizePath_def split: if_splits)
  then obtain r where "u = slash # r"
    by (auto simp: encodePath_def Let_def split: sum.splits)
  then show ?thesis by (simp add: not_absolute_slash)
qed

lemma perform_normalized:
  assumes "normalizePath p = Inr u" and "rq_url opts = u"
  shows "perform h baseRoot operation i opts finish st =
     (case h_send h (chooseHelper h) (length (calls st))
             (opts\<lparr> rq_displayUrl := Some u, rq_url := baseRoot @ u \<rparr>) of
        Inl e \<Rightarrow>
          (Some (requestFailed h (js ''WebDAV'') operation i e u),
           st\<lparr> calls := calls st
                @ [(chooseHelper h, opts\<lparr> rq_displayUrl := Some u, rq_url := baseRoot @ u \<rparr>)] \<rparr>)
      | Inr resp \<Rightarrow>
          (case finish resp of
             Inl e \<Rightarrow>
               (Some e,
                st\<lparr> calls := calls st
                     @ [(chooseHelper h, opts\<lparr> rq_displayUrl := Some u, rq_url := baseRoot @ u \<rparr>)] \<rparr>)
           | Inr item \<Rightarrow>
               (None,
                \<lparr> returnItems = returnItems st @ [item],
                  calls = calls st
                    @ [(chooseHelper h, opts\<lparr> rq_displayUrl := Some u, rq_url := baseRoot @ u \<rparr>)] \<rparr>)))"
  using normalizePath_relative[OF assms(1)] normalizePath_fixed[OF assms(1)] assms(2)
  by (simp add: perform_def doRequest_def Let_def split: sum.splits)

lemma perform_sends:
  assumes "normalizePath p = Inr u" and "rq_url opts = u"
  shows "calls (snd (perform h baseRoot operation i opts finish st))
         = calls st @ [(chooseHelper h, opts\<lparr> rq_displayUrl := Some u, rq_url := baseRoot @ u \<rparr>)]"
  unfolding perform_normalized[OF assms]
  by (simp split: sum.splits)

lemma perform_answered:
  assumes "normalizePath p = Inr u" and "rq_url opts = u"
    and "h_send h (chooseHelper h) (length (calls st))
           (opts\<lparr> rq_displayUrl := Some u, rq_url := baseRoot @ u \<rparr>) = Inr resp"
    and "finish resp = Inr item"
  shows "perform h baseRoot operation i opts finish st =
           (None,
            \<lparr> returnItems = returnItems st @ [item],
              calls = calls st
                @ [(chooseHelper h, opts\<lparr> rq_displayUrl := Some u, rq_url := baseRoot @ u \<rparr>)] \<rparr>)"
  unfolding perform_normalized[OF assms(1,2)]
  using assms(3,4) by simp

lemma transfer_refused:
  assumes "h_getString h ''path'' i (Some []) = Inr path"
    and "h_getString h ''destination'' i (Some []) = Inr destination"
    and "h_getBool h ''overwrite'' i (Some False) = Inr overwrite"
    and "destinationHeader h baseRoot destination = Inl e"
  shows "webDavTransfer operation verb h baseRoot i st = (Some e, st)"
  using assms by (simp add: webDavTransfer_def)

lemma transfer_sends:
  assumes "h_getString h ''path'' i (Some []) = Inr path"
    and "h_getString h ''destination'' i (Some []) = Inr destination"
    and "h_getBool h ''overwrite'' i (Some False) = Inr overwrite"
    and "destinationHeader h baseRoot destination = Inr d"
    and "normalizePath path = Inr u"
  shows "calls (snd (webDavTransfer operation verb h baseRoot i st))
         = calls st
           @ [(chooseHelper h,
               \<lparr> rq_method = verb, rq_url = baseRoot @ u, rq_body = None,
                 rq_headers = [(''Destination'', d),
                               (''Overwrite'', if overwrite then js ''T'' else js ''F'')],
                 rq_returnFullResponse = True, rq_displayUrl = Some u \<rparr>)]"
  using assms(1-4)
  by (simp add: webDavTransfer_def assms(5) perform_sends[OF assms(5)])

lemma transfer_answered:
  assumes "h_getString h ''path'' i (Some []) = Inr path"
    and "h_getString h ''destination'' i (Some []) = Inr destination"
    and "h_getBool h ''overwrite'' i (Some False) = Inr overwrite"
    and "destinationHeader h baseRoot destination = Inr d"
    and "normalizePath path = Inr u"
    and "h_send h (chooseHelper h) (length (calls st))
           \<lparr> rq_method = verb, rq_url = baseRoot @ u, rq_body = None,
             rq_headers = [(''Destination'', d),
                           (''Overwrite'', if overwrite then js ''T'' else js ''F'')],
             rq_returnFullResponse = True, rq_displayUrl = Some u \<rparr> = Inr resp"
  shows "webDavTransfer operation verb h baseRoot i st =
           (None,
            \<lparr> returnItems = returnItems st
                @ [\<lparr> out_json =
                       [(''success'', VBool (200 \<le> rs_status resp \<and> rs_status resp < 300)),
                        (''statusCode'', VNum (rs_status resp)),
                        (''sourcePath'', VStr path),
                        (''destinationPath'', VStr destination)],
                     out_binary = None, out_pairedItem = None \<rparr>],
              calls = calls st
                @ [(chooseHelper h,
                    \<lparr> rq_method = verb, rq_url = baseRoot @ u, rq_body = None,
                      rq_headers = [(''Destination'', d),
                                    (''Overwrite'', if overwrite then js ''T'' else js ''F'')],
                      rq_returnFullResponse = True, rq_displayUrl = Some u \<rparr>)] \<rparr>)"
proof -
  let ?opts = "\<lparr> rq_method = verb, rq_url = u, rq_body = None,
                 rq_headers = [(''Destination'', d),
                               (''Overwrite'', if overwrite then js ''T'' else js ''F'')],
                 rq_returnFullResponse = True, rq_displayUrl = None \<rparr>"
  have s: "h_send h (chooseHelper h) (length (calls st))
             (?opts\<lparr> rq_displayUrl := Some u, rq_url := baseRoot @ u \<rparr>) = Inr resp"
    using assms(6) by simp
  show ?thesis
    using assms(1-4)
    by (simp add: webDavTransfer_def assms(5) isSuccessStatus_def
        perform_answered[OF assms(5) _ s])
qed

lemma operation_distinct:
  "js ''mkcol'' \<noteq> js ''get''" "js ''mkcol'' \<noteq> js ''put''" "js ''mkcol'' \<noteq> js ''propfind''"
  "js ''put'' \<noteq> js ''get''"
  "js ''delete'' \<noteq> js ''get''" "js ''delete'' \<noteq> js ''put''" "js ''delete'' \<noteq> js ''propfind''"
  "js ''delete'' \<noteq> js ''mkcol''"
  "js ''move'' \<noteq> js ''get''" "js ''move'' \<noteq> js ''put''" "js ''move'' \<noteq> js ''propfind''"
  "js ''move'' \<noteq> js ''mkcol''" "js ''move'' \<noteq> js ''delete''"
  "js ''copy'' \<noteq> js ''get''" "js ''copy'' \<noteq> js ''put''" "js ''copy'' \<noteq> js ''propfind''"
  "js ''copy'' \<noteq> js ''mkcol''" "js ''copy'' \<noteq> js ''delete''" "js ''copy'' \<noteq> js ''move''"
  by (simp_all add: js_def)

lemma transfer_item:
  assumes "h_getString h ''operation'' i None = Inr operation"
    and "operation = js ''move'' \<or> operation = js ''copy''"
  shows "webDavItem h baseRoot items i st
         = webDavTransfer operation (if operation = js ''move'' then js ''MOVE'' else js ''COPY'')
             h baseRoot i st"
  using assms(2)
proof
  assume "operation = js ''move''"
  with assms(1) show ?thesis
    by (simp add: webDavItem_def webDavMove_def operation_distinct operation_distinct[symmetric])
next
  assume "operation = js ''copy''"
  with assms(1) show ?thesis
    by (simp add: webDavItem_def webDavCopy_def operation_distinct operation_distinct[symmetric])
qed

lemma mkcol_answered:
  assumes "h_getString h ''path'' i (Some []) = Inr path"
    and "normalizePath path = Inr u"
    and "h_send h (chooseHelper h) (length (calls st))
           \<lparr> rq_method = js ''MKCOL'', rq_url = baseRoot @ u, rq_body = None, rq_headers = [],
             rq_returnFullResponse = True, rq_displayUrl = Some u \<rparr> = Inr resp"
  shows "webDavMkcol h baseRoot i st =
           (None,
            \<lparr> returnItems = returnItems st
                @ [\<lparr> out_json = [(''success'', VBool (rs_status resp = 201)),
                                  (''statusCode'', VNum (rs_status resp)),
                                  (''path'', VStr path)],
                     out_binary = None, out_pairedItem = None \<rparr>],
              calls = calls st
                @ [(chooseHelper h,
                    \<lparr> rq_method = js ''MKCOL'', rq_url = baseRoot @ u, rq_body = None,
                      rq_headers = [], rq_returnFullResponse = True,
                      rq_displayUrl = Some u \<rparr>)] \<rparr>)"
proof -
  let ?opts = "\<lparr> rq_method = js ''MKCOL'', rq_url = u, rq_body = None, rq_headers = [],
                 rq_returnFullResponse = True, rq_displayUrl = None \<rparr>"
  have s: "h_send h (chooseHelper h) (length (calls st))
             (?opts\<lparr> rq_displayUrl := Some u, rq_url := baseRoot @ u \<rparr>) = Inr resp"
    using assms(3) by simp
  have r: "rq_url ?opts = u"
    by simp
  note p = perform_answered[OF assms(2) r s]
  show ?thesis
    using assms(1)
    by (simp add: webDavMkcol_def assms(2) plainRequest_def p)
qed

lemma delete_answered:
  assumes "h_getString h ''path'' i (Some []) = Inr path"
    and "normalizePath path = Inr u"
    and "h_send h (chooseHelper h) (length (calls st))
           \<lparr> rq_method = js ''DELETE'', rq_url = baseRoot @ u, rq_body = None, rq_headers = [],
             rq_returnFullResponse = True, rq_displayUrl = Some u \<rparr> = Inr resp"
  shows "webDavDelete h baseRoot i st =
           (None,
            \<lparr> returnItems = returnItems st
                @ [\<lparr> out_json =
                       [(''success'', VBool (200 \<le> rs_status resp \<and> rs_status resp < 300)),
                        (''statusCode'', VNum (rs_status resp)),
                        (''path'', VStr path)],
                     out_binary = None, out_pairedItem = None \<rparr>],
              calls = calls st
                @ [(chooseHelper h,
                    \<lparr> rq_method = js ''DELETE'', rq_url = baseRoot @ u, rq_body = None,
                      rq_headers = [], rq_returnFullResponse = True,
                      rq_displayUrl = Some u \<rparr>)] \<rparr>)"
proof -
  let ?opts = "\<lparr> rq_method = js ''DELETE'', rq_url = u, rq_body = None, rq_headers = [],
                 rq_returnFullResponse = True, rq_displayUrl = None \<rparr>"
  have s: "h_send h (chooseHelper h) (length (calls st))
             (?opts\<lparr> rq_displayUrl := Some u, rq_url := baseRoot @ u \<rparr>) = Inr resp"
    using assms(3) by simp
  have r: "rq_url ?opts = u"
    by simp
  note p = perform_answered[OF assms(2) r s]
  show ?thesis
    using assms(1)
    by (simp add: webDavDelete_def assms(2) plainRequest_def p
        isSuccessStatus_def)
qed

lemma put_answered:
  assumes "h_getString h ''path'' i (Some []) = Inr path"
    and "normalizePath path = Inr u"
    and "h_getString h ''binaryPropertyName'' i (Some (js ''data'')) = Inr name"
    and "in_binary (items ! i) = Some bin"
    and "map_of bin name = Some entry"
    and "h_getBinaryDataBuffer h i name = Inr binData"
    and "contentType = (case be_mimeType entry of
                          None \<Rightarrow> js ''application/octet-stream''
                        | Some m \<Rightarrow> if m = [] then js ''application/octet-stream'' else m)"
    and "h_send h (chooseHelper h) (length (calls st))
           \<lparr> rq_method = js ''PUT'', rq_url = baseRoot @ u, rq_body = Some (PBuffer binData),
             rq_headers = [(''Content-Type'', contentType)],
             rq_returnFullResponse = True, rq_displayUrl = Some u \<rparr> = Inr resp"
  shows "webDavPut h baseRoot items i st =
           (None,
            \<lparr> returnItems = returnItems st
                @ [\<lparr> out_json =
                       [(''success'', VBool (200 \<le> rs_status resp \<and> rs_status resp < 300)),
                        (''statusCode'', VNum (rs_status resp)),
                        (''path'', VStr path),
                        (''contentType'', VStr contentType)],
                     out_binary = None, out_pairedItem = None \<rparr>],
              calls = calls st
                @ [(chooseHelper h,
                    \<lparr> rq_method = js ''PUT'', rq_url = baseRoot @ u,
                      rq_body = Some (PBuffer binData),
                      rq_headers = [(''Content-Type'', contentType)],
                      rq_returnFullResponse = True, rq_displayUrl = Some u \<rparr>)] \<rparr>)"
proof -
  let ?opts = "\<lparr> rq_method = js ''PUT'', rq_url = u, rq_body = Some (PBuffer binData),
                 rq_headers = [(''Content-Type'', contentType)],
                 rq_returnFullResponse = True, rq_displayUrl = None \<rparr>"
  have s: "h_send h (chooseHelper h) (length (calls st))
             (?opts\<lparr> rq_displayUrl := Some u, rq_url := baseRoot @ u \<rparr>) = Inr resp"
    using assms(8) by simp
  have r: "rq_url ?opts = u"
    by simp
  note p = perform_answered[OF assms(2) r s]
  show ?thesis
    using assms(1,3,4,5,6)
    by (simp add: webDavPut_def Let_def assms(2) assms(7)[symmetric] p isSuccessStatus_def)
qed

text \<open>
  C10: when the helper answers the request of the create-directory case, the item
  completes and the \<open>success\<close> field of the item it pushes is true exactly when the status
  of the response is 201. When the helper answers the request of the upload, delete, move
  or copy case, the item completes and the \<open>success\<close> field is true exactly when the status
  is in 200-299. In each case the request is the one the case composes, for the URL
  \<open>baseRoot\<close> followed by the normalised path, and the pushed item carries the status.
\<close>

theorem webDav_success_field:
  assumes "h_getString h ''operation'' i None = Inr operation"
    and "h_getString h ''path'' i (Some []) = Inr path"
    and "normalizePath path = Inr u"
  shows "(operation = js ''mkcol''
            \<and> h_send h (chooseHelper h) (length (calls st))
                 \<lparr> rq_method = js ''MKCOL'', rq_url = baseRoot @ u, rq_body = None,
                   rq_headers = [], rq_returnFullResponse = True,
                   rq_displayUrl = Some u \<rparr> = Inr resp
          \<longrightarrow> webDavItem h baseRoot items i st =
                (None,
                 \<lparr> returnItems = returnItems st
                     @ [\<lparr> out_json = [(''success'', VBool (rs_status resp = 201)),
                                       (''statusCode'', VNum (rs_status resp)),
                                       (''path'', VStr path)],
                          out_binary = None, out_pairedItem = None \<rparr>],
                   calls = calls st
                     @ [(chooseHelper h,
                         \<lparr> rq_method = js ''MKCOL'', rq_url = baseRoot @ u, rq_body = None,
                           rq_headers = [], rq_returnFullResponse = True,
                           rq_displayUrl = Some u \<rparr>)] \<rparr>))
       \<and> (operation = js ''delete''
            \<and> h_send h (chooseHelper h) (length (calls st))
                 \<lparr> rq_method = js ''DELETE'', rq_url = baseRoot @ u, rq_body = None,
                   rq_headers = [], rq_returnFullResponse = True,
                   rq_displayUrl = Some u \<rparr> = Inr resp
          \<longrightarrow> webDavItem h baseRoot items i st =
                (None,
                 \<lparr> returnItems = returnItems st
                     @ [\<lparr> out_json =
                            [(''success'', VBool (200 \<le> rs_status resp \<and> rs_status resp < 300)),
                             (''statusCode'', VNum (rs_status resp)),
                             (''path'', VStr path)],
                          out_binary = None, out_pairedItem = None \<rparr>],
                   calls = calls st
                     @ [(chooseHelper h,
                         \<lparr> rq_method = js ''DELETE'', rq_url = baseRoot @ u, rq_body = None,
                           rq_headers = [], rq_returnFullResponse = True,
                           rq_displayUrl = Some u \<rparr>)] \<rparr>))
       \<and> (operation = js ''put''
            \<and> h_getString h ''binaryPropertyName'' i (Some (js ''data'')) = Inr name
            \<and> in_binary (items ! i) = Some bin
            \<and> map_of bin name = Some entry
            \<and> h_getBinaryDataBuffer h i name = Inr binData
            \<and> contentType = (case be_mimeType entry of
                               None \<Rightarrow> js ''application/octet-stream''
                             | Some m \<Rightarrow> if m = [] then js ''application/octet-stream'' else m)
            \<and> h_send h (chooseHelper h) (length (calls st))
                 \<lparr> rq_method = js ''PUT'', rq_url = baseRoot @ u,
                   rq_body = Some (PBuffer binData),
                   rq_headers = [(''Content-Type'', contentType)],
                   rq_returnFullResponse = True, rq_displayUrl = Some u \<rparr> = Inr resp
          \<longrightarrow> webDavItem h baseRoot items i st =
                (None,
                 \<lparr> returnItems = returnItems st
                     @ [\<lparr> out_json =
                            [(''success'', VBool (200 \<le> rs_status resp \<and> rs_status resp < 300)),
                             (''statusCode'', VNum (rs_status resp)),
                             (''path'', VStr path),
                             (''contentType'', VStr contentType)],
                          out_binary = None, out_pairedItem = None \<rparr>],
                   calls = calls st
                     @ [(chooseHelper h,
                         \<lparr> rq_method = js ''PUT'', rq_url = baseRoot @ u,
                           rq_body = Some (PBuffer binData),
                           rq_headers = [(''Content-Type'', contentType)],
                           rq_returnFullResponse = True, rq_displayUrl = Some u \<rparr>)] \<rparr>))
       \<and> ((operation = js ''move'' \<or> operation = js ''copy'')
            \<and> h_getString h ''destination'' i (Some []) = Inr destination
            \<and> h_getBool h ''overwrite'' i (Some False) = Inr overwrite
            \<and> destinationHeader h baseRoot destination = Inr d
            \<and> h_send h (chooseHelper h) (length (calls st))
                 \<lparr> rq_method = (if operation = js ''move'' then js ''MOVE'' else js ''COPY''),
                   rq_url = baseRoot @ u, rq_body = None,
                   rq_headers = [(''Destination'', d),
                                 (''Overwrite'', if overwrite then js ''T'' else js ''F'')],
                   rq_returnFullResponse = True, rq_displayUrl = Some u \<rparr> = Inr resp
          \<longrightarrow> webDavItem h baseRoot items i st =
                (None,
                 \<lparr> returnItems = returnItems st
                     @ [\<lparr> out_json =
                            [(''success'', VBool (200 \<le> rs_status resp \<and> rs_status resp < 300)),
                             (''statusCode'', VNum (rs_status resp)),
                             (''sourcePath'', VStr path),
                             (''destinationPath'', VStr destination)],
                          out_binary = None, out_pairedItem = None \<rparr>],
                   calls = calls st
                     @ [(chooseHelper h,
                         \<lparr> rq_method = (if operation = js ''move'' then js ''MOVE'' else js ''COPY''),
                           rq_url = baseRoot @ u, rq_body = None,
                           rq_headers = [(''Destination'', d),
                                         (''Overwrite'', if overwrite then js ''T'' else js ''F'')],
                           rq_returnFullResponse = True, rq_displayUrl = Some u \<rparr>)] \<rparr>))"
proof (intro conjI impI; (elim conjE)?)
  assume o: "operation = js ''mkcol''"
    and s: "h_send h (chooseHelper h) (length (calls st))
                 \<lparr> rq_method = js ''MKCOL'', rq_url = baseRoot @ u, rq_body = None,
                   rq_headers = [], rq_returnFullResponse = True,
                   rq_displayUrl = Some u \<rparr> = Inr resp"
  have "webDavItem h baseRoot items i st = webDavMkcol h baseRoot i st"
    using assms(1) o by (simp add: webDavItem_def operation_distinct)
  then show "webDavItem h baseRoot items i st =
                (None,
                 \<lparr> returnItems = returnItems st
                     @ [\<lparr> out_json = [(''success'', VBool (rs_status resp = 201)),
                                       (''statusCode'', VNum (rs_status resp)),
                                       (''path'', VStr path)],
                          out_binary = None, out_pairedItem = None \<rparr>],
                   calls = calls st
                     @ [(chooseHelper h,
                         \<lparr> rq_method = js ''MKCOL'', rq_url = baseRoot @ u, rq_body = None,
                           rq_headers = [], rq_returnFullResponse = True,
                           rq_displayUrl = Some u \<rparr>)] \<rparr>)"
    using mkcol_answered[OF assms(2,3) s] by simp
next
  assume o: "operation = js ''delete''"
    and s: "h_send h (chooseHelper h) (length (calls st))
                 \<lparr> rq_method = js ''DELETE'', rq_url = baseRoot @ u, rq_body = None,
                   rq_headers = [], rq_returnFullResponse = True,
                   rq_displayUrl = Some u \<rparr> = Inr resp"
  have "webDavItem h baseRoot items i st = webDavDelete h baseRoot i st"
    using assms(1) o by (simp add: webDavItem_def operation_distinct)
  then show "webDavItem h baseRoot items i st =
                (None,
                 \<lparr> returnItems = returnItems st
                     @ [\<lparr> out_json =
                            [(''success'', VBool (200 \<le> rs_status resp \<and> rs_status resp < 300)),
                             (''statusCode'', VNum (rs_status resp)),
                             (''path'', VStr path)],
                          out_binary = None, out_pairedItem = None \<rparr>],
                   calls = calls st
                     @ [(chooseHelper h,
                         \<lparr> rq_method = js ''DELETE'', rq_url = baseRoot @ u, rq_body = None,
                           rq_headers = [], rq_returnFullResponse = True,
                           rq_displayUrl = Some u \<rparr>)] \<rparr>)"
    using delete_answered[OF assms(2,3) s] by simp
next
  assume o: "operation = js ''put''"
    and n: "h_getString h ''binaryPropertyName'' i (Some (js ''data'')) = Inr name"
    and b: "in_binary (items ! i) = Some bin"
    and e: "map_of bin name = Some entry"
    and g: "h_getBinaryDataBuffer h i name = Inr binData"
    and c: "contentType = (case be_mimeType entry of
                               None \<Rightarrow> js ''application/octet-stream''
                             | Some m \<Rightarrow> if m = [] then js ''application/octet-stream'' else m)"
    and s: "h_send h (chooseHelper h) (length (calls st))
                 \<lparr> rq_method = js ''PUT'', rq_url = baseRoot @ u,
                   rq_body = Some (PBuffer binData),
                   rq_headers = [(''Content-Type'', contentType)],
                   rq_returnFullResponse = True, rq_displayUrl = Some u \<rparr> = Inr resp"
  have "webDavItem h baseRoot items i st = webDavPut h baseRoot items i st"
    using assms(1) o by (simp add: webDavItem_def operation_distinct)
  then show "webDavItem h baseRoot items i st =
                (None,
                 \<lparr> returnItems = returnItems st
                     @ [\<lparr> out_json =
                            [(''success'', VBool (200 \<le> rs_status resp \<and> rs_status resp < 300)),
                             (''statusCode'', VNum (rs_status resp)),
                             (''path'', VStr path),
                             (''contentType'', VStr contentType)],
                          out_binary = None, out_pairedItem = None \<rparr>],
                   calls = calls st
                     @ [(chooseHelper h,
                         \<lparr> rq_method = js ''PUT'', rq_url = baseRoot @ u,
                           rq_body = Some (PBuffer binData),
                           rq_headers = [(''Content-Type'', contentType)],
                           rq_returnFullResponse = True, rq_displayUrl = Some u \<rparr>)] \<rparr>)"
    using put_answered[OF assms(2,3) n b e g c s] by simp
next
  assume o: "operation = js ''move'' \<or> operation = js ''copy''"
    and d: "h_getString h ''destination'' i (Some []) = Inr destination"
    and w: "h_getBool h ''overwrite'' i (Some False) = Inr overwrite"
    and k: "destinationHeader h baseRoot destination = Inr d"
    and s: "h_send h (chooseHelper h) (length (calls st))
                 \<lparr> rq_method = (if operation = js ''move'' then js ''MOVE'' else js ''COPY''),
                   rq_url = baseRoot @ u, rq_body = None,
                   rq_headers = [(''Destination'', d),
                                 (''Overwrite'', if overwrite then js ''T'' else js ''F'')],
                   rq_returnFullResponse = True, rq_displayUrl = Some u \<rparr> = Inr resp"
  show "webDavItem h baseRoot items i st =
                (None,
                 \<lparr> returnItems = returnItems st
                     @ [\<lparr> out_json =
                            [(''success'', VBool (200 \<le> rs_status resp \<and> rs_status resp < 300)),
                             (''statusCode'', VNum (rs_status resp)),
                             (''sourcePath'', VStr path),
                             (''destinationPath'', VStr destination)],
                          out_binary = None, out_pairedItem = None \<rparr>],
                   calls = calls st
                     @ [(chooseHelper h,
                         \<lparr> rq_method = (if operation = js ''move'' then js ''MOVE'' else js ''COPY''),
                           rq_url = baseRoot @ u, rq_body = None,
                           rq_headers = [(''Destination'', d),
                                         (''Overwrite'', if overwrite then js ''T'' else js ''F'')],
                           rq_returnFullResponse = True, rq_displayUrl = Some u \<rparr>)] \<rparr>)"
    unfolding transfer_item[OF assms(1) o]
    by (rule transfer_answered[OF assms(2) d w k assms(3) s])
qed

theorem webDav_success_field_witness:
  "webDavItem mkcolHost (js ''https://dav.example.com'') [] 0 \<lparr> returnItems = [], calls = [] \<rparr>
     = (None,
        \<lparr> returnItems =
            [\<lparr> out_json = [(''success'', VBool False), (''statusCode'', VNum 200),
                           (''path'', VStr (js ''/new dir''))],
               out_binary = None, out_pairedItem = None \<rparr>],
          calls =
            [(HttpRequest,
              \<lparr> rq_method = js ''MKCOL'', rq_url = js ''https://dav.example.com/new%20dir'',
                rq_body = None, rq_headers = [], rq_returnFullResponse = True,
                rq_displayUrl = Some (js ''/new%20dir'') \<rparr>)] \<rparr>)
   \<and> webDavItem mkcolCreatedHost (js ''https://dav.example.com'') [] 0
       \<lparr> returnItems = [], calls = [] \<rparr>
     = (None,
        \<lparr> returnItems =
            [\<lparr> out_json = [(''success'', VBool True), (''statusCode'', VNum 201),
                           (''path'', VStr (js ''/new dir''))],
               out_binary = None, out_pairedItem = None \<rparr>],
          calls =
            [(HttpRequest,
              \<lparr> rq_method = js ''MKCOL'', rq_url = js ''https://dav.example.com/new%20dir'',
                rq_body = None, rq_headers = [], rq_returnFullResponse = True,
                rq_displayUrl = Some (js ''/new%20dir'') \<rparr>)] \<rparr>)
   \<and> webDavItem deleteHost (js ''https://dav.example.com'') [] 0 \<lparr> returnItems = [], calls = [] \<rparr>
     = (None,
        \<lparr> returnItems =
            [\<lparr> out_json = [(''success'', VBool True), (''statusCode'', VNum 204),
                           (''path'', VStr (js ''/old.txt''))],
               out_binary = None, out_pairedItem = None \<rparr>],
          calls =
            [(HttpRequest,
              \<lparr> rq_method = js ''DELETE'', rq_url = js ''https://dav.example.com/old.txt'',
                rq_body = None, rq_headers = [], rq_returnFullResponse = True,
                rq_displayUrl = Some (js ''/old.txt'') \<rparr>)] \<rparr>)
   \<and> webDavItem putHost (js ''https://dav.example.com'') putItems 0
       \<lparr> returnItems = [], calls = [] \<rparr>
     = (None,
        \<lparr> returnItems =
            [\<lparr> out_json = [(''success'', VBool False), (''statusCode'', VNum 500),
                           (''path'', VStr (js ''/up.txt'')),
                           (''contentType'', VStr (js ''text/plain''))],
               out_binary = None, out_pairedItem = None \<rparr>],
          calls =
            [(HttpRequest,
              \<lparr> rq_method = js ''PUT'', rq_url = js ''https://dav.example.com/up.txt'',
                rq_body = Some (PBuffer []),
                rq_headers = [(''Content-Type'', js ''text/plain'')],
                rq_returnFullResponse = True, rq_displayUrl = Some (js ''/up.txt'') \<rparr>)] \<rparr>)
   \<and> webDavItem copyHost (js ''https://dav.example.com'') [] 0 \<lparr> returnItems = [], calls = [] \<rparr>
     = (None,
        \<lparr> returnItems =
            [\<lparr> out_json = [(''success'', VBool True), (''statusCode'', VNum 204),
                           (''sourcePath'', VStr (js ''/my docs/a.txt'')),
                           (''destinationPath'', VStr (js ''/backup/a b.txt''))],
               out_binary = None, out_pairedItem = None \<rparr>],
          calls =
            [(HttpRequest,
              \<lparr> rq_method = js ''COPY'', rq_url = js ''https://dav.example.com/my%20docs/a.txt'',
                rq_body = None,
                rq_headers = [(''Destination'', js ''https://dav.example.com/backup/a%20b.txt''),
                              (''Overwrite'', js ''T'')],
                rq_returnFullResponse = True,
                rq_displayUrl = Some (js ''/my%20docs/a.txt'') \<rparr>)] \<rparr>)"
proof -
  let ?root = "js ''https://dav.example.com''"
  let ?st = "\<lparr> returnItems = [], calls = [] \<rparr>"
  have rs: "\<And>n. rs_status (exampleResponse n) = n"
    by (simp add: exampleResponse_def)
  have o1: "h_getString mkcolHost ''operation'' 0 None = Inr (js ''mkcol'')"
    and p1: "h_getString mkcolHost ''path'' 0 (Some []) = Inr (js ''/new dir'')"
    and h1: "chooseHelper mkcolHost = HttpRequest"
    and s1: "\<And>n req. h_send mkcolHost (chooseHelper mkcolHost) n req = Inr (exampleResponse 200)"
    by (simp_all add: mkcolHost_def host_eval)
  have q1: "normalizePath (js ''/new dir'') = Inr (js ''/new%20dir'')"
    by (simp add: string_eval uri_eval path_eval)
  have j1: "?root @ js ''/new%20dir'' = js ''https://dav.example.com/new%20dir''"
    by (simp add: js_def)
  have t1: "webDavItem mkcolHost ?root [] 0 ?st
     = (None,
        \<lparr> returnItems =
            [\<lparr> out_json = [(''success'', VBool False), (''statusCode'', VNum 200),
                           (''path'', VStr (js ''/new dir''))],
               out_binary = None, out_pairedItem = None \<rparr>],
          calls =
            [(HttpRequest,
              \<lparr> rq_method = js ''MKCOL'', rq_url = js ''https://dav.example.com/new%20dir'',
                rq_body = None, rq_headers = [], rq_returnFullResponse = True,
                rq_displayUrl = Some (js ''/new%20dir'') \<rparr>)] \<rparr>)"
    using mp[OF conjunct1[OF webDav_success_field[OF o1 p1 q1,
            where baseRoot = "?root" and items = "[]" and st = "?st"]]
          conjI[OF refl s1]]
    by (simp only: h1 j1 rs webState.simps append_Nil) simp
  have o2: "h_getString mkcolCreatedHost ''operation'' 0 None = Inr (js ''mkcol'')"
    and p2: "h_getString mkcolCreatedHost ''path'' 0 (Some []) = Inr (js ''/new dir'')"
    and h2: "chooseHelper mkcolCreatedHost = HttpRequest"
    and s2: "\<And>n req. h_send mkcolCreatedHost (chooseHelper mkcolCreatedHost) n req
                      = Inr (exampleResponse 201)"
    by (simp_all add: mkcolCreatedHost_def host_eval)
  have t2: "webDavItem mkcolCreatedHost ?root [] 0 ?st
     = (None,
        \<lparr> returnItems =
            [\<lparr> out_json = [(''success'', VBool True), (''statusCode'', VNum 201),
                           (''path'', VStr (js ''/new dir''))],
               out_binary = None, out_pairedItem = None \<rparr>],
          calls =
            [(HttpRequest,
              \<lparr> rq_method = js ''MKCOL'', rq_url = js ''https://dav.example.com/new%20dir'',
                rq_body = None, rq_headers = [], rq_returnFullResponse = True,
                rq_displayUrl = Some (js ''/new%20dir'') \<rparr>)] \<rparr>)"
    using mp[OF conjunct1[OF webDav_success_field[OF o2 p2 q1,
            where baseRoot = "?root" and items = "[]" and st = "?st"]]
          conjI[OF refl s2]]
    by (simp only: h2 j1 rs webState.simps append_Nil) simp
  have o3: "h_getString deleteHost ''operation'' 0 None = Inr (js ''delete'')"
    and p3: "h_getString deleteHost ''path'' 0 (Some []) = Inr (js ''/old.txt'')"
    and h3: "chooseHelper deleteHost = HttpRequest"
    and s3: "\<And>n req. h_send deleteHost (chooseHelper deleteHost) n req = Inr (exampleResponse 204)"
    by (simp_all add: deleteHost_def host_eval)
  have q3: "normalizePath (js ''/old.txt'') = Inr (js ''/old.txt'')"
    by (simp add: string_eval uri_eval path_eval)
  have j3: "?root @ js ''/old.txt'' = js ''https://dav.example.com/old.txt''"
    by (simp add: js_def)
  have t3: "webDavItem deleteHost ?root [] 0 ?st
     = (None,
        \<lparr> returnItems =
            [\<lparr> out_json = [(''success'', VBool True), (''statusCode'', VNum 204),
                           (''path'', VStr (js ''/old.txt''))],
               out_binary = None, out_pairedItem = None \<rparr>],
          calls =
            [(HttpRequest,
              \<lparr> rq_method = js ''DELETE'', rq_url = js ''https://dav.example.com/old.txt'',
                rq_body = None, rq_headers = [], rq_returnFullResponse = True,
                rq_displayUrl = Some (js ''/old.txt'') \<rparr>)] \<rparr>)"
    using mp[OF conjunct1[OF conjunct2[OF webDav_success_field[OF o3 p3 q3,
            where baseRoot = "?root" and items = "[]" and st = "?st"]]]
          conjI[OF refl s3]]
    by (simp only: h3 j3 rs webState.simps append_Nil) simp
  have o4: "h_getString putHost ''operation'' 0 None = Inr (js ''put'')"
    and p4: "h_getString putHost ''path'' 0 (Some []) = Inr (js ''/up.txt'')"
    and n4: "h_getString putHost ''binaryPropertyName'' 0 (Some (js ''data'')) = Inr (js ''data'')"
    and g4: "h_getBinaryDataBuffer putHost 0 (js ''data'') = Inr []"
    and h4: "chooseHelper putHost = HttpRequest"
    and s4: "\<And>n req. h_send putHost (chooseHelper putHost) n req = Inr (exampleResponse 500)"
    by (simp_all add: putHost_def host_eval)
  have b4: "in_binary (putItems ! 0)
            = Some [(js ''data'', \<lparr> be_mimeType = Some (js ''text/plain'') \<rparr>)]"
    by (simp add: putItems_def)
  have e4: "map_of [(js ''data'', \<lparr> be_mimeType = Some (js ''text/plain'') \<rparr>)] (js ''data'')
            = Some \<lparr> be_mimeType = Some (js ''text/plain'') \<rparr>"
    by simp
  have c4: "js ''text/plain''
            = (case be_mimeType \<lparr> be_mimeType = Some (js ''text/plain'') \<rparr> of
                 None \<Rightarrow> js ''application/octet-stream''
               | Some m \<Rightarrow> if m = [] then js ''application/octet-stream'' else m)"
    by (simp add: js_def)
  have q4: "normalizePath (js ''/up.txt'') = Inr (js ''/up.txt'')"
    by (simp add: string_eval uri_eval path_eval)
  have j4: "?root @ js ''/up.txt'' = js ''https://dav.example.com/up.txt''"
    by (simp add: js_def)
  have t4: "webDavItem putHost ?root putItems 0 ?st
     = (None,
        \<lparr> returnItems =
            [\<lparr> out_json = [(''success'', VBool False), (''statusCode'', VNum 500),
                           (''path'', VStr (js ''/up.txt'')),
                           (''contentType'', VStr (js ''text/plain''))],
               out_binary = None, out_pairedItem = None \<rparr>],
          calls =
            [(HttpRequest,
              \<lparr> rq_method = js ''PUT'', rq_url = js ''https://dav.example.com/up.txt'',
                rq_body = Some (PBuffer []),
                rq_headers = [(''Content-Type'', js ''text/plain'')],
                rq_returnFullResponse = True, rq_displayUrl = Some (js ''/up.txt'') \<rparr>)] \<rparr>)"
    using mp[OF conjunct1[OF conjunct2[OF conjunct2[OF webDav_success_field[OF o4 p4 q4,
            where baseRoot = "?root" and items = "putItems" and st = "?st"]]]]
          conjI[OF refl conjI[OF n4 conjI[OF b4 conjI[OF e4 conjI[OF g4 conjI[OF c4 s4]]]]]]]
    by (simp only: h4 j4 rs webState.simps append_Nil) simp
  have o5: "h_getString copyHost ''operation'' 0 None = Inr (js ''copy'')"
    and p5: "h_getString copyHost ''path'' 0 (Some []) = Inr (js ''/my docs/a.txt'')"
    and d5: "h_getString copyHost ''destination'' 0 (Some []) = Inr (js ''/backup/a b.txt'')"
    and w5: "h_getBool copyHost ''overwrite'' 0 (Some False) = Inr True"
    and h5: "chooseHelper copyHost = HttpRequest"
    and s5: "\<And>n req. h_send copyHost (chooseHelper copyHost) n req = Inr (exampleResponse 204)"
    by (simp_all add: copyHost_def host_eval)
  have q5: "normalizePath (js ''/my docs/a.txt'') = Inr (js ''/my%20docs/a.txt'')"
    by (simp add: string_eval uri_eval path_eval)
  have k5: "destinationHeader copyHost ?root (js ''/backup/a b.txt'')
            = Inr (js ''https://dav.example.com/backup/a%20b.txt'')"
    by (simp add: destinationHeader_def string_eval uri_eval path_eval)
  have j5: "?root @ js ''/my%20docs/a.txt'' = js ''https://dav.example.com/my%20docs/a.txt''"
    by (simp add: js_def)
  have c5: "js ''copy'' \<noteq> js ''move''"
    by (simp add: js_def)
  have t5: "webDavItem copyHost ?root [] 0 ?st
     = (None,
        \<lparr> returnItems =
            [\<lparr> out_json = [(''success'', VBool True), (''statusCode'', VNum 204),
                           (''sourcePath'', VStr (js ''/my docs/a.txt'')),
                           (''destinationPath'', VStr (js ''/backup/a b.txt''))],
               out_binary = None, out_pairedItem = None \<rparr>],
          calls =
            [(HttpRequest,
              \<lparr> rq_method = js ''COPY'', rq_url = js ''https://dav.example.com/my%20docs/a.txt'',
                rq_body = None,
                rq_headers = [(''Destination'', js ''https://dav.example.com/backup/a%20b.txt''),
                              (''Overwrite'', js ''T'')],
                rq_returnFullResponse = True,
                rq_displayUrl = Some (js ''/my%20docs/a.txt'') \<rparr>)] \<rparr>)"
    using mp[OF conjunct2[OF conjunct2[OF conjunct2[OF webDav_success_field[OF o5 p5 q5,
            where baseRoot = "?root" and items = "[]" and st = "?st"]]]]
          conjI[OF disjI2[OF refl] conjI[OF d5 conjI[OF w5 conjI[OF k5 s5]]]]]
    by (simp only: h5 j5 c5 rs webState.simps append_Nil if_False if_True simp_thms) simp
  show ?thesis
    by (intro conjI t1 t2 t3 t4 t5)
qed

text \<open>
  C7: for a move or a copy whose destination is an absolute URL with an origin other than
  that of \<open>baseRoot\<close>, the item fails with the cross-origin error and no HTTP call is
  attempted (the state is unchanged). When the destination is an absolute URL of the origin
  of \<open>baseRoot\<close>, exactly one request is attempted, with the method \<open>MOVE\<close> or \<open>COPY\<close>,
  the URL \<open>baseRoot\<close> followed by the normalised path, the header \<open>Destination\<close> set to the
  parsed URL's serialisation and the header \<open>Overwrite\<close> set to \<open>T\<close> when the flag is true and
  to \<open>F\<close> otherwise. When the destination is not an absolute URL, the same request is
  attempted with \<open>Destination\<close> set to \<open>baseRoot\<close> followed by the normalised destination.
\<close>

theorem transfer_destination:
  assumes "h_getString h ''operation'' i None = Inr operation"
    and "operation = js ''move'' \<or> operation = js ''copy''"
    and "h_getString h ''path'' i (Some []) = Inr path"
    and "h_getString h ''destination'' i (Some []) = Inr destination"
    and "h_getBool h ''overwrite'' i (Some False) = Inr overwrite"
  shows "(isAbsoluteUrl destination \<and> h_newURL h destination = Inr destUrl
            \<and> h_newURL h baseRoot = Inr base \<and> url_origin destUrl \<noteq> url_origin base
          \<longrightarrow> webDavItem h baseRoot items i st
                = (Some (NodeOperationError crossOriginMessage None), st))
       \<and> (isAbsoluteUrl destination \<and> h_newURL h destination = Inr destUrl
            \<and> h_newURL h baseRoot = Inr base \<and> url_origin destUrl = url_origin base
            \<and> normalizePath path = Inr u
          \<longrightarrow> calls (snd (webDavItem h baseRoot items i st))
                = calls st
                  @ [(chooseHelper h,
                      \<lparr> rq_method = (if operation = js ''move'' then js ''MOVE'' else js ''COPY''),
                        rq_url = baseRoot @ u, rq_body = None,
                        rq_headers = [(''Destination'', url_href destUrl),
                                      (''Overwrite'', if overwrite then js ''T'' else js ''F'')],
                        rq_returnFullResponse = True, rq_displayUrl = Some u \<rparr>)])
       \<and> (\<not> isAbsoluteUrl destination \<and> normalizePath destination = Inr p
            \<and> normalizePath path = Inr u
          \<longrightarrow> calls (snd (webDavItem h baseRoot items i st))
                = calls st
                  @ [(chooseHelper h,
                      \<lparr> rq_method = (if operation = js ''move'' then js ''MOVE'' else js ''COPY''),
                        rq_url = baseRoot @ u, rq_body = None,
                        rq_headers = [(''Destination'', baseRoot @ p),
                                      (''Overwrite'', if overwrite then js ''T'' else js ''F'')],
                        rq_returnFullResponse = True, rq_displayUrl = Some u \<rparr>)])"
proof -
  note item = transfer_item[OF assms(1,2)]
  have 1: "isAbsoluteUrl destination \<and> h_newURL h destination = Inr destUrl
            \<and> h_newURL h baseRoot = Inr base \<and> url_origin destUrl \<noteq> url_origin base
          \<longrightarrow> webDavItem h baseRoot items i st
                = (Some (NodeOperationError crossOriginMessage None), st)"
  proof
    assume a: "isAbsoluteUrl destination \<and> h_newURL h destination = Inr destUrl
            \<and> h_newURL h baseRoot = Inr base \<and> url_origin destUrl \<noteq> url_origin base"
    then have "destinationHeader h baseRoot destination
               = Inl (NodeOperationError crossOriginMessage None)"
      by (simp add: destinationHeader_def)
    from transfer_refused[OF assms(3,4,5) this] show
      "webDavItem h baseRoot items i st = (Some (NodeOperationError crossOriginMessage None), st)"
      unfolding item .
  qed
  have 2: "isAbsoluteUrl destination \<and> h_newURL h destination = Inr destUrl
            \<and> h_newURL h baseRoot = Inr base \<and> url_origin destUrl = url_origin base
            \<and> normalizePath path = Inr u
          \<longrightarrow> calls (snd (webDavItem h baseRoot items i st))
                = calls st
                  @ [(chooseHelper h,
                      \<lparr> rq_method = (if operation = js ''move'' then js ''MOVE'' else js ''COPY''),
                        rq_url = baseRoot @ u, rq_body = None,
                        rq_headers = [(''Destination'', url_href destUrl),
                                      (''Overwrite'', if overwrite then js ''T'' else js ''F'')],
                        rq_returnFullResponse = True, rq_displayUrl = Some u \<rparr>)]"
  proof
    assume a: "isAbsoluteUrl destination \<and> h_newURL h destination = Inr destUrl
            \<and> h_newURL h baseRoot = Inr base \<and> url_origin destUrl = url_origin base
            \<and> normalizePath path = Inr u"
    then have d: "destinationHeader h baseRoot destination = Inr (url_href destUrl)"
      by (simp add: destinationHeader_def)
    from a have u: "normalizePath path = Inr u" by simp
    from transfer_sends[OF assms(3,4,5) d u] show
      "calls (snd (webDavItem h baseRoot items i st))
                = calls st
                  @ [(chooseHelper h,
                      \<lparr> rq_method = (if operation = js ''move'' then js ''MOVE'' else js ''COPY''),
                        rq_url = baseRoot @ u, rq_body = None,
                        rq_headers = [(''Destination'', url_href destUrl),
                                      (''Overwrite'', if overwrite then js ''T'' else js ''F'')],
                        rq_returnFullResponse = True, rq_displayUrl = Some u \<rparr>)]"
      unfolding item .
  qed
  have 3: "\<not> isAbsoluteUrl destination \<and> normalizePath destination = Inr p
            \<and> normalizePath path = Inr u
          \<longrightarrow> calls (snd (webDavItem h baseRoot items i st))
                = calls st
                  @ [(chooseHelper h,
                      \<lparr> rq_method = (if operation = js ''move'' then js ''MOVE'' else js ''COPY''),
                        rq_url = baseRoot @ u, rq_body = None,
                        rq_headers = [(''Destination'', baseRoot @ p),
                                      (''Overwrite'', if overwrite then js ''T'' else js ''F'')],
                        rq_returnFullResponse = True, rq_displayUrl = Some u \<rparr>)]"
  proof
    assume a: "\<not> isAbsoluteUrl destination \<and> normalizePath destination = Inr p
            \<and> normalizePath path = Inr u"
    then have d: "destinationHeader h baseRoot destination = Inr (baseRoot @ p)"
      by (simp add: destinationHeader_def)
    from a have u: "normalizePath path = Inr u" by simp
    from transfer_sends[OF assms(3,4,5) d u] show
      "calls (snd (webDavItem h baseRoot items i st))
                = calls st
                  @ [(chooseHelper h,
                      \<lparr> rq_method = (if operation = js ''move'' then js ''MOVE'' else js ''COPY''),
                        rq_url = baseRoot @ u, rq_body = None,
                        rq_headers = [(''Destination'', baseRoot @ p),
                                      (''Overwrite'', if overwrite then js ''T'' else js ''F'')],
                        rq_returnFullResponse = True, rq_displayUrl = Some u \<rparr>)]"
      unfolding item .
  qed
  show ?thesis
    by (intro conjI 1 2 3)
qed

theorem transfer_destination_witness:
  "h_getString moveHost ''destination'' 0 (Some []) = Inr (js ''https://other.example.org/f'')
   \<and> h_newURL moveHost (js ''https://other.example.org/f'')
       = Inr \<lparr> url_origin = js ''https://other.example.org'', url_href = js ''https://other.example.org/f'' \<rparr>
   \<and> h_newURL moveHost (js ''https://dav.example.com'')
       = Inr \<lparr> url_origin = js ''https://dav.example.com'', url_href = js ''https://dav.example.com/'' \<rparr>
   \<and> js ''https://other.example.org'' \<noteq> js ''https://dav.example.com''
   \<and> webDavItem moveHost (js ''https://dav.example.com'') [] 0 \<lparr> returnItems = [], calls = [] \<rparr>
       = (Some (NodeOperationError crossOriginMessage None), \<lparr> returnItems = [], calls = [] \<rparr>)
   \<and> h_getString moveSameOriginHost ''path'' 0 (Some []) = Inr (js ''/a.txt'')
   \<and> h_getString moveSameOriginHost ''destination'' 0 (Some []) = Inr (js ''https://dav.example.com/b.txt'')
   \<and> h_getBool moveSameOriginHost ''overwrite'' 0 (Some False) = Inr False
   \<and> h_newURL moveSameOriginHost (js ''https://dav.example.com/b.txt'')
       = Inr \<lparr> url_origin = js ''https://dav.example.com'', url_href = js ''https://dav.example.com/b.txt'' \<rparr>
   \<and> calls (snd (webDavItem moveSameOriginHost (js ''https://dav.example.com'') [] 0
                    \<lparr> returnItems = [], calls = [] \<rparr>))
       = [(HttpRequest,
           \<lparr> rq_method = js ''MOVE'', rq_url = js ''https://dav.example.com/a.txt'', rq_body = None,
             rq_headers = [(''Destination'', js ''https://dav.example.com/b.txt''),
                           (''Overwrite'', js ''F'')],
             rq_returnFullResponse = True, rq_displayUrl = Some (js ''/a.txt'') \<rparr>)]
   \<and> h_getString copyHost ''path'' 0 (Some []) = Inr (js ''/my docs/a.txt'')
   \<and> h_getString copyHost ''destination'' 0 (Some []) = Inr (js ''/backup/a b.txt'')
   \<and> h_getBool copyHost ''overwrite'' 0 (Some False) = Inr True
   \<and> calls (snd (webDavItem copyHost (js ''https://dav.example.com'') [] 0
                    \<lparr> returnItems = [], calls = [] \<rparr>))
       = [(HttpRequest,
           \<lparr> rq_method = js ''COPY'', rq_url = js ''https://dav.example.com/my%20docs/a.txt'',
             rq_body = None,
             rq_headers = [(''Destination'', js ''https://dav.example.com/backup/a%20b.txt''),
                           (''Overwrite'', js ''T'')],
             rq_returnFullResponse = True, rq_displayUrl = Some (js ''/my%20docs/a.txt'') \<rparr>)]"
proof -
  let ?root = "js ''https://dav.example.com''"
  let ?st = "\<lparr> returnItems = [], calls = [] \<rparr>"
  let ?bu = "\<lparr> url_origin = js ''https://dav.example.com'', url_href = js ''https://dav.example.com/'' \<rparr>"
  let ?ou = "\<lparr> url_origin = js ''https://other.example.org'', url_href = js ''https://other.example.org/f'' \<rparr>"
  let ?su = "\<lparr> url_origin = js ''https://dav.example.com'', url_href = js ''https://dav.example.com/b.txt'' \<rparr>"
  have o1: "h_getString moveHost ''operation'' 0 None = Inr (js ''move'')"
    and p1: "h_getString moveHost ''path'' 0 (Some []) = Inr (js ''/a.txt'')"
    and d1: "h_getString moveHost ''destination'' 0 (Some []) = Inr (js ''https://other.example.org/f'')"
    and w1: "h_getBool moveHost ''overwrite'' 0 (Some False) = Inr False"
    by (simp_all add: moveHost_def host_eval)
  have a1: "isAbsoluteUrl (js ''https://other.example.org/f'')"
    by (simp add: string_eval)
  have u1: "h_newURL moveHost (js ''https://other.example.org/f'') = Inr ?ou"
    and b1: "h_newURL moveHost ?root = Inr ?bu"
    by (simp_all add: moveHost_def host_eval js_def)
  have n1: "js ''https://other.example.org'' \<noteq> js ''https://dav.example.com''"
    by (simp add: js_def)
  have n1': "url_origin ?ou \<noteq> url_origin ?bu"
    using n1 by simp
  have t1: "webDavItem moveHost ?root [] 0 ?st
       = (Some (NodeOperationError crossOriginMessage None), ?st)"
    by (rule mp[OF conjunct1[OF transfer_destination[OF o1 disjI1[OF refl] p1 d1 w1,
            where destUrl = "?ou" and base = "?bu"]]])
       (intro conjI a1 u1 b1 n1')
  have o2: "h_getString moveSameOriginHost ''operation'' 0 None = Inr (js ''move'')"
    and p2: "h_getString moveSameOriginHost ''path'' 0 (Some []) = Inr (js ''/a.txt'')"
    and d2: "h_getString moveSameOriginHost ''destination'' 0 (Some [])
             = Inr (js ''https://dav.example.com/b.txt'')"
    and w2: "h_getBool moveSameOriginHost ''overwrite'' 0 (Some False) = Inr False"
    by (simp_all add: moveSameOriginHost_def host_eval)
  have a2: "isAbsoluteUrl (js ''https://dav.example.com/b.txt'')"
    by (simp add: string_eval)
  have u2: "h_newURL moveSameOriginHost (js ''https://dav.example.com/b.txt'') = Inr ?su"
    and b2: "h_newURL moveSameOriginHost ?root = Inr ?bu"
    by (simp_all add: moveSameOriginHost_def host_eval js_def)
  have e2: "url_origin ?su = url_origin ?bu"
    by simp
  have q2: "normalizePath (js ''/a.txt'') = Inr (js ''/a.txt'')"
    by (simp add: string_eval uri_eval path_eval)
  have h2: "chooseHelper moveSameOriginHost = HttpRequest"
    by (simp add: moveSameOriginHost_def host_eval)
  have j2: "?root @ js ''/a.txt'' = js ''https://dav.example.com/a.txt''"
    by (simp add: js_def)
  have t2: "calls (snd (webDavItem moveSameOriginHost ?root [] 0 ?st))
       = [(HttpRequest,
           \<lparr> rq_method = js ''MOVE'', rq_url = js ''https://dav.example.com/a.txt'', rq_body = None,
             rq_headers = [(''Destination'', js ''https://dav.example.com/b.txt''),
                           (''Overwrite'', js ''F'')],
             rq_returnFullResponse = True, rq_displayUrl = Some (js ''/a.txt'') \<rparr>)]"
    using mp[OF conjunct1[OF conjunct2[OF transfer_destination[OF o2 disjI1[OF refl] p2 d2 w2,
            where destUrl = "?su" and base = "?bu" and u = "js ''/a.txt''"
              and baseRoot = "?root" and items = "[]" and st = "?st"]]]
          conjI[OF a2 conjI[OF u2 conjI[OF b2 conjI[OF e2 q2]]]]]
    by (simp only: h2 j2 simp_thms if_True if_False append_Nil
        webState.simps url.simps)
  have o3: "h_getString copyHost ''operation'' 0 None = Inr (js ''copy'')"
    and p3: "h_getString copyHost ''path'' 0 (Some []) = Inr (js ''/my docs/a.txt'')"
    and d3: "h_getString copyHost ''destination'' 0 (Some []) = Inr (js ''/backup/a b.txt'')"
    and w3: "h_getBool copyHost ''overwrite'' 0 (Some False) = Inr True"
    by (simp_all add: copyHost_def host_eval)
  have a3: "\<not> isAbsoluteUrl (js ''/backup/a b.txt'')"
    by (simp add: string_eval)
  have q3: "normalizePath (js ''/my docs/a.txt'') = Inr (js ''/my%20docs/a.txt'')"
    and r3: "normalizePath (js ''/backup/a b.txt'') = Inr (js ''/backup/a%20b.txt'')"
    by (simp_all add: string_eval uri_eval path_eval)
  have h3: "chooseHelper copyHost = HttpRequest"
    by (simp add: copyHost_def host_eval)
  have j3: "?root @ js ''/my%20docs/a.txt'' = js ''https://dav.example.com/my%20docs/a.txt''"
    "?root @ js ''/backup/a%20b.txt'' = js ''https://dav.example.com/backup/a%20b.txt''"
    by (simp_all add: js_def)
  have c3: "js ''copy'' \<noteq> js ''move''"
    by (simp add: js_def)
  have t3: "calls (snd (webDavItem copyHost ?root [] 0 ?st))
       = [(HttpRequest,
           \<lparr> rq_method = js ''COPY'', rq_url = js ''https://dav.example.com/my%20docs/a.txt'',
             rq_body = None,
             rq_headers = [(''Destination'', js ''https://dav.example.com/backup/a%20b.txt''),
                           (''Overwrite'', js ''T'')],
             rq_returnFullResponse = True, rq_displayUrl = Some (js ''/my%20docs/a.txt'') \<rparr>)]"
    using mp[OF conjunct2[OF conjunct2[OF transfer_destination[OF o3 disjI2[OF refl] p3 d3 w3,
            where p = "js ''/backup/a%20b.txt''" and u = "js ''/my%20docs/a.txt''"
              and baseRoot = "?root" and items = "[]" and st = "?st"]]]
          conjI[OF a3 conjI[OF r3 q3]]]
    by (simp only: h3 j3 c3 simp_thms if_True if_False append_Nil webState.simps)
  show ?thesis
    by (intro conjI d1 u1 b1 n1 t1 p2 d2 w2 u2 t2 p3 d3 w3 t3)
qed

section \<open>Requests of the CalDAV node\<close>

lemma doRequestCal_relative:
  assumes "\<not> isAbsoluteUrl (rq_url opts)" and "normalizePathCal (rq_url opts) = Inr p"
  shows "snd (doRequestCal h baseRoot operation i opts cs)
         = cs @ [(chooseHelper h, opts\<lparr> rq_url := baseRoot @ p \<rparr>)]"
  using assms by (simp add: doRequestCal_def Let_def split: sum.splits)

lemma calPerform_calls:
  "cs_calls (snd (calPerform h baseRoot operation i opts finish st))
   = snd (doRequestCal h baseRoot operation i opts (cs_calls st))"
  by (simp add: calPerform_def assignJson_def Let_def split: prod.splits sum.splits)

lemma withLeadingSlash_slash: "\<exists>r. withLeadingSlash p = slash # r"
  by (cases p) (auto simp: withLeadingSlash_def)

lemma eventUrl_relative:
  assumes "eventUrl (withLeadingSlash calendarPath) eventId = Inr q"
  shows "\<not> isAbsoluteUrl q" and "normalizePathCal q = Inr q"
proof -
  obtain r where r: "withLeadingSlash calendarPath = slash # r"
    using withLeadingSlash_slash by blast
  let ?s = "slash # r @ js ''/'' @ eventId @ js ''.ics''"
  have n: "normalizePathCal ?s = Inr q"
    using assms by (simp add: eventUrl_def r)
  have "js ''/'' \<noteq> []"
    by (simp add: js_def)
  with n have "encodePath ?s = Inr q"
    using not_absolute_slash[of "r @ js ''/'' @ eventId @ js ''.ics''"]
    by (simp add: normalizePathCal_def)
  then obtain t where "q = slash # t"
    by (auto simp: encodePath_def Let_def split: sum.splits)
  then show "\<not> isAbsoluteUrl q"
    by (simp add: not_absolute_slash)
  show "normalizePathCal q = Inr q"
    using n by (rule normalizePathCal_fixed)
qed

lemma createEvent_sends:
  assumes "h_getString h ''operation'' i None = Inr (js ''createEvent'')"
    and "h_getString h ''calendarPath'' i (Some []) = Inr calendarPath"
    and "h_getString h ''eventId'' i (Some []) = Inr eventId"
    and "h_getString h ''eventData'' i (Some []) = Inr eventData"
    and "eventUrl (withLeadingSlash calendarPath) eventId = Inr q"
  shows "cs_calls (snd (calDavItem h baseRoot i st))
         = cs_calls st
           @ [(chooseHelper h,
               \<lparr> rq_method = js ''PUT'', rq_url = baseRoot @ q,
                 rq_body = Some (PString eventData),
                 rq_headers = [(''Content-Type'', js ''text/calendar'')],
                 rq_returnFullResponse = True, rq_displayUrl = None \<rparr>)]"
proof -
  have ne: "js ''createEvent'' \<noteq> js ''getCalendars''" "js ''createEvent'' \<noteq> js ''getEvents''"
    by (simp_all add: js_def)
  let ?opts = "\<lparr> rq_method = js ''PUT'', rq_url = q, rq_body = Some (PString eventData),
                 rq_headers = [(''Content-Type'', js ''text/calendar'')],
                 rq_returnFullResponse = True, rq_displayUrl = None \<rparr>"
  have item: "calDavItem h baseRoot i st
        = calPerform h baseRoot (js ''createEvent'') i ?opts
            (\<lambda>resp. eventResult resp eventId (withLeadingSlash calendarPath)) st"
    using assms
    by (simp add: calDavItem_def calDavCreateEvent_def calDavPutEvent_def ne)
  have "snd (doRequestCal h baseRoot (js ''createEvent'') i ?opts (cs_calls st))
         = cs_calls st @ [(chooseHelper h, ?opts\<lparr> rq_url := baseRoot @ q \<rparr>)]"
    by (rule doRequestCal_relative) (use eventUrl_relative[OF assms(5)] in simp_all)
  then show ?thesis
    unfolding item calPerform_calls by simp
qed

text \<open>
  C2 fails on the CalDAV node: the create-event case concatenates the calendar path, \<open>/\<close>,
  the event id and \<open>.ics\<close> without removing a slash at the end of the path, and
  \<open>normalizePath\<close> keeps the empty segment. On the run with the base URL
  \<open>https://dav.example.com/\<close>, the calendar path \<open>/cal/\<close> and the event id \<open>evt-1\<close>, the
  one request is a \<open>PUT\<close> with \<open>Content-Type: text/calendar\<close>, as claimed, but its URL is
  \<open>https://dav.example.com/cal//evt-1.ics\<close>: the slash at the end of the base URL is removed,
  the one at the end of the calendar path is not. The calendar path of the field's
  placeholder, \<open>/calendars/user/calendar/\<close>, gives two slashes as well. (For every input the
  request is a \<open>PUT\<close> with that header to \<open>baseRoot\<close> followed by the normalised
  concatenation, which \<open>doRequest\<close> normalises again to itself: \<open>createEvent_sends\<close>.)
\<close>

theorem createEvent_double_slash:
  "h_getCredentials createHost = Inr (Some (js ''https://dav.example.com/''))
   \<and> h_getString createHost ''operation'' 0 None = Inr (js ''createEvent'')
   \<and> h_getString createHost ''calendarPath'' 0 (Some []) = Inr (js ''/cal/'')
   \<and> h_getString createHost ''eventId'' 0 (Some []) = Inr (js ''evt-1'')
   \<and> (\<exists>st. calDavExecute createHost (cs_items oneItem) (cs_objects oneItem) = Some (None, st)
          \<and> cs_calls st
              = [(HttpRequest,
                  \<lparr> rq_method = js ''PUT'',
                    rq_url = js ''https://dav.example.com/cal//evt-1.ics'',
                    rq_body = Some (PString (js ''BEGIN:VCALENDAR'')),
                    rq_headers = [(''Content-Type'', js ''text/calendar'')],
                    rq_returnFullResponse = True, rq_displayUrl = None \<rparr>)])
   \<and> js ''https://dav.example.com/cal//evt-1.ics'' \<noteq> js ''https://dav.example.com/cal/evt-1.ics''
   \<and> eventUrl (withLeadingSlash (js ''/calendars/user/calendar/'')) (js ''evt-1'')
       = Inr (js ''/calendars/user/calendar//evt-1.ics'')"
  by (simp add: createHost_def oneItem_def host_eval caldav_eval string_eval uri_eval path_eval
      Let_def plainRequest_def isSuccessStatus_def calDavLoop.simps validate_eval)

section \<open>The batch loops\<close>

lemma perform_pushes:
  assumes "perform h baseRoot operation i opts finish st = (r, st')"
  shows "(case r of None \<Rightarrow> \<exists>item. returnItems st' = returnItems st @ [item]
                  | Some e \<Rightarrow> returnItems st' = returnItems st)"
  using assms by (auto simp: perform_def split: sum.splits prod.splits)

lemma webDavGet_pushes:
  assumes "webDavGet h baseRoot i st = (r, st')"
  shows "(case r of None \<Rightarrow> \<exists>item. returnItems st' = returnItems st @ [item]
                  | Some e \<Rightarrow> returnItems st' = returnItems st)"
  using assms perform_pushes
  by (fastforce simp: webDavGet_def split: sum.splits)

lemma webDavPut_pushes:
  assumes "webDavPut h baseRoot items i st = (r, st')"
  shows "(case r of None \<Rightarrow> \<exists>item. returnItems st' = returnItems st @ [item]
                  | Some e \<Rightarrow> returnItems st' = returnItems st)"
  using assms perform_pushes
  by (fastforce simp: webDavPut_def Let_def split: sum.splits option.splits)

lemma webDavPropfind_pushes:
  assumes "webDavPropfind h baseRoot i st = (r, st')"
  shows "(case r of None \<Rightarrow> \<exists>item. returnItems st' = returnItems st @ [item]
                  | Some e \<Rightarrow> returnItems st' = returnItems st)"
  using assms perform_pushes
  by (fastforce simp: webDavPropfind_def split: sum.splits)

lemma webDavMkcol_pushes:
  assumes "webDavMkcol h baseRoot i st = (r, st')"
  shows "(case r of None \<Rightarrow> \<exists>item. returnItems st' = returnItems st @ [item]
                  | Some e \<Rightarrow> returnItems st' = returnItems st)"
  using assms perform_pushes
  by (fastforce simp: webDavMkcol_def split: sum.splits)

lemma webDavDelete_pushes:
  assumes "webDavDelete h baseRoot i st = (r, st')"
  shows "(case r of None \<Rightarrow> \<exists>item. returnItems st' = returnItems st @ [item]
                  | Some e \<Rightarrow> returnItems st' = returnItems st)"
  using assms perform_pushes
  by (fastforce simp: webDavDelete_def split: sum.splits)

lemma webDavTransfer_pushes:
  assumes "webDavTransfer operation method h baseRoot i st = (r, st')"
  shows "(case r of None \<Rightarrow> \<exists>item. returnItems st' = returnItems st @ [item]
                  | Some e \<Rightarrow> returnItems st' = returnItems st)"
  using assms perform_pushes
  by (fastforce simp: webDavTransfer_def split: sum.splits)

lemma webDavItem_pushes:
  assumes "webDavItem h baseRoot items i st = (r, st')"
  shows "(case r of None \<Rightarrow> \<exists>item. returnItems st' = returnItems st @ [item]
                  | Some e \<Rightarrow> returnItems st' = returnItems st)"
proof (cases "h_getString h ''operation'' i None")
  case (Inl e)
  with assms show ?thesis by (auto simp: webDavItem_def)
next
  case (Inr operation)
  with assms show ?thesis
    using webDavGet_pushes[of h baseRoot i st r st'] webDavPut_pushes[of h baseRoot items i st r st']
      webDavPropfind_pushes[of h baseRoot i st r st'] webDavMkcol_pushes[of h baseRoot i st r st']
      webDavDelete_pushes[of h baseRoot i st r st']
      webDavTransfer_pushes[of "js ''move''" "js ''MOVE''" h baseRoot i st r st']
      webDavTransfer_pushes[of "js ''copy''" "js ''COPY''" h baseRoot i st r st']
    by (auto simp: webDavItem_def webDavMove_def webDavCopy_def split: if_splits)
qed

text \<open>With continue-on-fail the WebDAV node returns one item for every input item.\<close>

lemma webDavLoop_count:
  assumes "h_continueOnFail h"
  shows "\<exists>out. fst (webDavLoop h baseRoot items indices st) = Inr out
               \<and> length out = length (returnItems st) + length indices"
proof (induction indices arbitrary: st)
  case Nil
  then show ?case by simp
next
  case (Cons i indices)
  obtain r st' where it: "webDavItem h baseRoot items i st = (r, st')"
    by (cases "webDavItem h baseRoot items i st")
  show ?case
  proof (cases r)
    case None
    with webDavItem_pushes[OF it] have "length (returnItems st') = Suc (length (returnItems st))"
      by auto
    with Cons.IH[of st'] it None show ?thesis by simp
  next
    case (Some e)
    with webDavItem_pushes[OF it] have l: "returnItems st' = returnItems st" by simp
    from Cons.IH[of "st'\<lparr> returnItems := returnItems st' @ [errorItem h e i] \<rparr>"]
    show ?thesis using it Some assms l by simp
  qed
qed

lemma webDav_one_item_per_input:
  assumes "h_continueOnFail h" and "validateBaseUrl h = Inr baseRoot"
  shows "\<exists>out. fst (webDavExecute h items) = Inr out \<and> length out = length items"
  using webDavLoop_count[OF assms(1), of baseRoot items "[0..<length items]"
      "\<lparr> returnItems = [], calls = [] \<rparr>"] assms(2)
  by (simp add: webDavExecute_def)

text \<open>
  C1 fails on the CalDAV node (and on the CardDAV node, which has the same \<open>catch\<close>): the
  \<open>catch\<close> pushes the error item onto the array of input items that the loop is running
  over and that the run returns. On three items where the first call is refused and the
  run continues on failure, the run returns four items, the error item last, and it makes
  a fourth call for the item it pushed. (The WebDAV node pushes onto \<open>returnItems\<close> and
  returns one item for every input item: \<open>webDav_one_item_per_input\<close>.)
\<close>

theorem calDav_continue_appends:
  "\<exists>st. calDavExecute refusedOnceHost threeItems [[], [], []] = Some (None, st)
        \<and> length (cs_items st) = 4
        \<and> map it_pairedItem (cs_items st) = [None, None, None, Some 0]
        \<and> length (cs_calls st) = 4"
  by (simp add: refusedOnceHost_def threeItems_def host_eval caldav_eval string_eval uri_eval
      path_eval Let_def plainRequest_def isSuccessStatus_def calDavLoop.simps validate_eval
      translator_eval)

section \<open>Validation of the base URL before the loop\<close>

lemma webDav_invalid:
  assumes "validateBaseUrl h = Inl e"
  shows "webDavExecute h items = (Inl (Thrown e), [])"
  using assms by (simp add: webDavExecute_def)

lemma calDav_invalid:
  assumes "validateBaseUrl h = Inl e"
  shows "calDavExecute h items objects
         = Some (Some (Thrown e), \<lparr> cs_items = items, cs_objects = objects, cs_calls = [] \<rparr>)"
  using assms by (simp add: calDavExecute_def)

lemma validateBaseUrl_rejects:
  assumes "h_getCredentials h = Inr creds"
    and "creds = None \<or> trim (the creds) = [] \<or> \<not> isAbsoluteUrl (trim (the creds))"
  shows "validateBaseUrl h = Inl (NodeOperationError invalidBaseUrlMessage None)"
  using assms by (auto simp: validateBaseUrl_def split: option.splits)

text \<open>
  C3 fails on the CardDAV node of src/nodes/CardDav/CardDav.node.ts: its \<open>execute\<close> never
  reads the credential. With a base URL without protocol, which the WebDAV and CalDAV
  nodes reject before the first item (\<open>webDav_invalid\<close>, \<open>calDav_invalid\<close>), it processes
  the item and sends the request.
\<close>

theorem cardDav_runs_without_validation:
  "validateBaseUrl noProtocolHost = Inl (NodeOperationError invalidBaseUrlMessage None)
   \<and> (\<exists>st. cardDavExecute noProtocolHost [\<lparr> it_json = 0, it_error = None, it_pairedItem = None \<rparr>] [[]]
              = Some (None, st)
          \<and> map (\<lambda>c. rq_url (snd c)) (cs_calls st) = [js ''/addressbooks/user/work/c1.vcf'']
          \<and> cs_objects st
              = [[(''success'', VBool True), (''statusCode'', VNum 204), (''contactId'', VStr (js ''c1'')),
                  (''addressBookPath'', VStr (js ''/addressbooks/user/work/''))]])"
  by (simp add: noProtocolHost_def host_eval carddav_eval caldav_eval validate_eval string_eval
      plainRequest_def isSuccessStatus_def cardDavLoop.simps Let_def)

end
